(* ===== verification/Prelude.thy ===== *)
theory Prelude
  imports Complex_Main "HOL-Library.Word"
begin

text \<open>
  Shared types and generic lemmas.

  Go's fixed-width integers are HOL words of the same width, read as two's complement by
  \<open>sint\<close>; a comparison of two Go integers is a comparison of their \<open>sint\<close>. A
  \<^verbatim>\<open>time.Duration\<close> is an \<^verbatim>\<open>int64\<close> count of nanoseconds. A Go
  \<^verbatim>\<open>string\<close> is its list of bytes. A fallible operation returns a sum, with
  \<open>Inl\<close> for the error.

  The collections \<open>builder_defs\<close> and \<open>label_simps\<close> gather the equations of the
  object builders and of the label maps, which the proofs about the operator share.
\<close>

named_theorems builder_defs "definitions of the desired-state builders"
named_theorems label_simps "lookups in the operator's label maps"
named_theorems f64_eval "equations that evaluate float64 arithmetic on closed terms"

section \<open>Machine integers and durations\<close>

type_synonym i32 = "32 word"
type_synonym i64 = "64 word"
type_synonym duration = "64 word"

text \<open>Go's signed comparisons.\<close>

abbreviation slt :: "'a::len word \<Rightarrow> 'a word \<Rightarrow> bool" where
  "slt a b \<equiv> sint a < sint b"

abbreviation sle :: "'a::len word \<Rightarrow> 'a word \<Rightarrow> bool" where
  "sle a b \<equiv> sint a \<le> sint b"

abbreviation millisecond :: duration where "millisecond \<equiv> 1000000"
abbreviation second :: duration where "second \<equiv> 1000000000"

lemma sint_i64_lower: "- (2 ^ 63) \<le> sint (x :: i64)"
  using sint_greater_eq [of x] by simp

lemma sint_i64_upper: "sint (x :: i64) < 2 ^ 63"
  using sint_lt [of x] by simp

lemma sint_i32_lower: "- (2 ^ 31) \<le> sint (x :: i32)"
  using sint_greater_eq [of x] by simp

lemma sint_i32_upper: "sint (x :: i32) < 2 ^ 31"
  using sint_lt [of x] by simp

lemma sint_eq_iff: "sint (a :: 'a::len word) = sint b \<longleftrightarrow> a = b"
  by (auto intro: signed_word_eqI)

lemma sint_word_of_int_i64: "- (2 ^ 63) \<le> v \<Longrightarrow> v < 2 ^ 63 \<Longrightarrow> sint (word_of_int v :: i64) = v"
  by transfer (simp add: signed_take_bit_int_eq_self)

lemma sint_word_of_int_i32: "- (2 ^ 31) \<le> v \<Longrightarrow> v < 2 ^ 31 \<Longrightarrow> sint (word_of_int v :: i32) = v"
  by transfer (simp add: signed_take_bit_int_eq_self)

text \<open>Sums and differences of words that stay in range.\<close>

lemma sint_add_i64:
  "- (2 ^ 63) \<le> sint a + sint b \<Longrightarrow> sint a + sint b < 2 ^ 63 \<Longrightarrow> sint (a + b :: i64) = sint a + sint b"
  using sint_word_of_int_i64 [of "sint a + sint b"] by simp

lemma sint_diff_i64:
  "- (2 ^ 63) \<le> sint a - sint b \<Longrightarrow> sint a - sint b < 2 ^ 63 \<Longrightarrow> sint (a - b :: i64) = sint a - sint b"
  using sint_word_of_int_i64 [of "sint a - sint b"] by simp

lemma word_of_int_wrap_i64: "(word_of_int (v - 2 ^ 64) :: i64) = word_of_int v"
  by transfer (simp add: take_bit_eq_mod)

end
