(* ===== verification/ApiErrors.thy ===== *)
theory ApiErrors
  imports Prelude
begin

text \<open>
  The errors of the Kubernetes API and how \<^verbatim>\<open>apierrors\<close> classifies them; the
  operator and the chaos injector tell apart no other kinds than these.
\<close>

datatype api_error = NotFound string | Conflict string | OtherError string

fun api_error_text :: "api_error \<Rightarrow> string" where
  "api_error_text (NotFound m) = m"
| "api_error_text (Conflict m) = m"
| "api_error_text (OtherError m) = m"

fun IsNotFound :: "api_error \<Rightarrow> bool" where
  "IsNotFound (NotFound m) \<longleftrightarrow> True"
| "IsNotFound (Conflict m) \<longleftrightarrow> False"
| "IsNotFound (OtherError m) \<longleftrightarrow> False"

fun IsConflict :: "api_error \<Rightarrow> bool" where
  "IsConflict (Conflict m) \<longleftrightarrow> True"
| "IsConflict (NotFound m) \<longleftrightarrow> False"
| "IsConflict (OtherError m) \<longleftrightarrow> False"

end
