(* ===== verification/GoFloat.thy ===== *)
theory GoFloat
  imports Prelude
begin

text \<open>
  Go's \<^verbatim>\<open>float64\<close>: IEEE-754 binary64 with round-to-nearest, ties to even.
  A finite value is the rational number it denotes; an operation computes the exact
  rational result and rounds it once (\<open>f64_of_rat\<close>), with gradual underflow and
  overflow to infinity. The two zeros are one value: nothing the program does with a
  float64 tells them apart.
\<close>

section \<open>Rounding\<close>

text \<open>The base-2 logarithm of a positive natural number, rounded down.\<close>

fun flog2 :: "nat \<Rightarrow> nat" where
  "flog2 n = (if n < 2 then 0 else Suc (flog2 (n div 2)))"

declare flog2.simps [simp del]

lemma flog2_0 [f64_eval]: "flog2 0 = 0"
  by (simp add: flog2.simps [of 0])

lemma flog2_1 [f64_eval]: "flog2 1 = 0" "flog2 (Suc 0) = 0"
  by (simp_all add: flog2.simps [of 1] flog2.simps [of "Suc 0"])

lemma flog2_Bit0 [f64_eval]: "flog2 (numeral (num.Bit0 n)) = Suc (flog2 (numeral n))"
  by (subst flog2.simps) (simp add: numeral_Bit0_div_2)

lemma flog2_Bit1 [f64_eval]: "flog2 (numeral (num.Bit1 n)) = Suc (flog2 (numeral n))"
  by (subst flog2.simps) (simp add: numeral_Bit1_div_2)

text \<open>The exponent of a positive rational: \<open>2 powi expo x \<le> x < 2 powi (expo x + 1)\<close>.\<close>

definition expo :: "rat \<Rightarrow> int" where
  "expo x = (if 1 \<le> x then int (flog2 (nat \<lfloor>x\<rfloor>))
             else - int (flog2 (nat (\<lceil>1 / x\<rceil> - 1))) - 1)"

text \<open>Round to the nearest integer, ties to even.\<close>

definition rne :: "rat \<Rightarrow> int" where
  "rne x = (let f = \<lfloor>x\<rfloor>; d = x - of_int f in
            if d < 1 / 2 then f else if 1 / 2 < d then f + 1
            else if even f then f else f + 1)"

text \<open>The unit in the last place of a 53-bit significand; subnormals share the smallest.\<close>

definition ulp :: "rat \<Rightarrow> rat" where
  "ulp x = 2 powi (max (expo x - 52) (- 1074))"

definition rnd :: "rat \<Rightarrow> rat" where
  "rnd x = (if x = 0 then 0 else of_int (rne (x / ulp \<bar>x\<bar>)) * ulp \<bar>x\<bar>)"

section \<open>Values and operations\<close>

datatype f64 = Fin rat | PInf | NInf | NaN

definition overflow_bound :: rat where
  "overflow_bound = 2 ^ 1024"

definition f64_of_rat :: "rat \<Rightarrow> f64" where
  "f64_of_rat x = (let r = rnd x in
     if overflow_bound \<le> r then PInf else if r \<le> - overflow_bound then NInf else Fin r)"

text \<open>The conversion \<^verbatim>\<open>float64(n)\<close> of an integer.\<close>

definition f64_of_int :: "int \<Rightarrow> f64" where
  "f64_of_int n = f64_of_rat (of_int n)"

fun fneg :: "f64 \<Rightarrow> f64" where
  "fneg (Fin a) = Fin (- a)"
| "fneg PInf = NInf"
| "fneg NInf = PInf"
| "fneg NaN = NaN"

fun fadd :: "f64 \<Rightarrow> f64 \<Rightarrow> f64" where
  "fadd (Fin a) (Fin b) = f64_of_rat (a + b)"
| "fadd NaN _ = NaN"
| "fadd _ NaN = NaN"
| "fadd PInf NInf = NaN"
| "fadd NInf PInf = NaN"
| "fadd PInf _ = PInf"
| "fadd NInf _ = NInf"
| "fadd _ PInf = PInf"
| "fadd _ NInf = NInf"

definition fsub :: "f64 \<Rightarrow> f64 \<Rightarrow> f64" where
  "fsub a b = fadd a (fneg b)"

text \<open>The infinity with the sign of \<open>s\<close>; zero times infinity is no number.\<close>

definition inf_of :: "rat \<Rightarrow> f64" where
  "inf_of s = (if 0 < s then PInf else if s < 0 then NInf else NaN)"

fun sgn_f64 :: "f64 \<Rightarrow> rat" where
  "sgn_f64 (Fin a) = sgn a"
| "sgn_f64 PInf = 1"
| "sgn_f64 NInf = -1"
| "sgn_f64 NaN = 0"

fun fmul :: "f64 \<Rightarrow> f64 \<Rightarrow> f64" where
  "fmul (Fin a) (Fin b) = f64_of_rat (a * b)"
| "fmul NaN _ = NaN"
| "fmul _ NaN = NaN"
| "fmul a b = inf_of (sgn_f64 a * sgn_f64 b)"

fun fdiv :: "f64 \<Rightarrow> f64 \<Rightarrow> f64" where
  "fdiv (Fin a) (Fin b) = (if b = 0 then inf_of (sgn a) else f64_of_rat (a / b))"
| "fdiv NaN _ = NaN"
| "fdiv _ NaN = NaN"
| "fdiv (Fin a) _ = Fin 0"
| "fdiv a (Fin b) = inf_of (sgn_f64 a * (if b = 0 then 1 else sgn b))"
| "fdiv _ _ = NaN"

text \<open>Comparisons are false when an operand is NaN.\<close>

fun fle :: "f64 \<Rightarrow> f64 \<Rightarrow> bool" where
  "fle NaN _ = False"
| "fle _ NaN = False"
| "fle NInf _ = True"
| "fle _ PInf = True"
| "fle (Fin a) (Fin b) = (a \<le> b)"
| "fle _ _ = False"

fun flt :: "f64 \<Rightarrow> f64 \<Rightarrow> bool" where
  "flt NaN _ = False"
| "flt _ NaN = False"
| "flt (Fin a) (Fin b) = (a < b)"
| "flt NInf b = (b \<noteq> NInf)"
| "flt a PInf = (a \<noteq> PInf)"
| "flt _ _ = False"

abbreviation fgt :: "f64 \<Rightarrow> f64 \<Rightarrow> bool" where
  "fgt a b \<equiv> flt b a"

abbreviation fge :: "f64 \<Rightarrow> f64 \<Rightarrow> bool" where
  "fge a b \<equiv> fle b a"

section \<open>Evaluation on numerals\<close>

lemma floor_numeral_frac [f64_eval]:
  "\<lfloor>numeral a / numeral b :: rat\<rfloor> = numeral a div numeral b"
  "\<lfloor>1 / numeral b :: rat\<rfloor> = 1 div numeral b"
  "\<lfloor>- (numeral a / numeral b) :: rat\<rfloor> = - numeral a div numeral b"
  "\<lfloor>- (1 / numeral b) :: rat\<rfloor> = - 1 div numeral b"
  using floor_divide_of_int_eq [where ?'a = rat, of "numeral a" "numeral b"]
    floor_divide_of_int_eq [where ?'a = rat, of "1" "numeral b"]
    floor_divide_of_int_eq [where ?'a = rat, of "- numeral a" "numeral b"]
    floor_divide_of_int_eq [where ?'a = rat, of "- 1" "numeral b"]
  by simp_all

lemma ceiling_numeral_frac [f64_eval]:
  "\<lceil>numeral a / numeral b :: rat\<rceil> = - (- numeral a div numeral b)"
  "\<lceil>1 / numeral b :: rat\<rceil> = - (- 1 div numeral b)"
  using ceiling_divide_eq_div [where ?'a = rat, of "numeral a" "numeral b"]
    ceiling_divide_eq_div [where ?'a = rat, of "1" "numeral b"]
  by simp_all

definition rne_quot :: "int \<Rightarrow> int \<Rightarrow> int" where
  "rne_quot a b = (let q = a div b; r = 2 * (a mod b) in
     if r < b then q else if b < r then q + 1 else if even q then q else q + 1)"

lemma rne_frac: 
  assumes b: "0 < b" shows "rne (of_int a / of_int b) = rne_quot a b"
proof -
  have m: "(of_int a / of_int b :: rat) - of_int (a div b) = of_int (a mod b) / of_int b"
    using b by (simp add: field_simps flip: of_int_mult of_int_add)
  have c: "(of_int (a mod b) / of_int b < (1 / 2 :: rat)) = (2 * (a mod b) < b)"
    "((1 / 2 :: rat) < of_int (a mod b) / of_int b) = (b < 2 * (a mod b))"
  proof -
    have "(of_int (a mod b) / of_int b < (1 / 2 :: rat)) = (of_int (2 * (a mod b)) < (of_int b :: rat))"
      using b by (simp add: divide_less_eq mult.commute)
    then show "(of_int (a mod b) / of_int b < (1 / 2 :: rat)) = (2 * (a mod b) < b)"
      by (simp only: of_int_less_iff)
    have "((1 / 2 :: rat) < of_int (a mod b) / of_int b) = ((of_int b :: rat) < of_int (2 * (a mod b)))"
      using b by (simp add: less_divide_eq mult.commute)
    then show "((1 / 2 :: rat) < of_int (a mod b) / of_int b) = (b < 2 * (a mod b))"
      by (simp only: of_int_less_iff)
  qed
  show ?thesis
    unfolding rne_def rne_quot_def Let_def floor_divide_of_int_eq m c by (rule refl)
qed
lemma rne_of_int: "rne (of_int n) = n"
  by (simp add: rne_def)

lemma rne_numeral [f64_eval]:
  "rne (numeral a / numeral b) = rne_quot (numeral a) (numeral b)"
  "rne (1 / numeral b) = rne_quot 1 (numeral b)"
  "rne (- (numeral a / numeral b)) = rne_quot (- numeral a) (numeral b)"
  "rne (- (1 / numeral b)) = rne_quot (- 1) (numeral b)"
  using rne_frac [of "numeral b" "numeral a"] rne_frac [of "numeral b" 1]
    rne_frac [of "numeral b" "- numeral a"] rne_frac [of "numeral b" "- 1"]
  by simp_all

lemma rne_int_numeral [f64_eval]:
  "rne (numeral a) = numeral a" "rne (- numeral a) = - numeral a"
  "rne 1 = 1" "rne 0 = 0" "rne (- 1) = - 1"
  using rne_of_int [of "numeral a"] rne_of_int [of "- numeral a"] rne_of_int [of 1]
    rne_of_int [of 0] rne_of_int [of "- 1"] by simp_all


lemmas f64_defs = f64_of_int_def f64_of_rat_def rnd_def ulp_def expo_def rne_quot_def
  fsub_def overflow_bound_def

section \<open>Rounding is monotone and exact on small integers\<close>

lemma flog2_bounds: "0 < n \<Longrightarrow> 2 ^ flog2 n \<le> n \<and> n < 2 ^ Suc (flog2 n)"
proof (induction n rule: flog2.induct)
  case (1 n)
  show ?case
  proof (cases "n < 2")
    case True
    with 1(2) have "n = 1" by simp
    then show ?thesis by (simp add: flog2_1)
  next
    case False
    with 1 have "2 ^ flog2 (n div 2) \<le> n div 2 \<and> n div 2 < 2 ^ Suc (flog2 (n div 2))"
      by simp
    moreover have "flog2 n = Suc (flog2 (n div 2))"
      using False by (simp add: flog2.simps [of n])
    ultimately show ?thesis by auto
  qed
qed

lemma powi_of_nat: "(2 :: rat) powi int n = of_nat (2 ^ n)"
  by (simp add: power_int_def)

lemma expo_bounds:
  assumes "0 < x" shows "2 powi expo x \<le> x" "x < 2 powi (expo x + 1)"
proof -
  have "2 powi expo x \<le> x \<and> x < 2 powi (expo x + 1)"
  proof (cases "1 \<le> x")
    case True
    define n where "n = nat \<lfloor>x\<rfloor>"
    have n: "0 < n" "of_nat n \<le> x" "x < of_nat (n + 1)"
      using True by (simp_all add: n_def of_nat_nat le_floor_iff) linarith
    have b: "2 ^ flog2 n \<le> n" "n + 1 \<le> 2 ^ Suc (flog2 n)"
      using flog2_bounds [OF n(1)] by simp_all
    have "(of_nat (2 ^ flog2 n) :: rat) \<le> of_nat n" "(of_nat (n + 1) :: rat) \<le> of_nat (2 ^ Suc (flog2 n))"
      using b by (simp_all only: of_nat_le_iff)
    then have "2 ^ flog2 n \<le> x" "x < 2 * 2 ^ flog2 n"
      using n by (simp_all only: of_nat_power of_nat_numeral power_Suc of_nat_mult)
    then show ?thesis
      using True by (simp add: expo_def n_def [symmetric] power_int_def nat_add_distrib)
  next
    case False
    define n where "n = nat (\<lceil>1 / x\<rceil> - 1)"
    have y: "1 < 1 / x" using False assms by simp
    then have c: "1 < \<lceil>1 / x\<rceil>" by (simp add: less_ceiling_iff)
    then have n: "0 < n" "of_nat n < 1 / x" "1 / x \<le> of_nat (n + 1)"
      by (simp_all add: n_def of_nat_nat) linarith+
    have b: "2 ^ flog2 n \<le> n" "n + 1 \<le> 2 ^ Suc (flog2 n)"
      using flog2_bounds [OF n(1)] by simp_all
    have "(of_nat (2 ^ flog2 n) :: rat) \<le> of_nat n" "(of_nat (n + 1) :: rat) \<le> of_nat (2 ^ Suc (flog2 n))"
      using b by (simp_all only: of_nat_le_iff)
    then have "2 ^ flog2 n < 1 / x" "1 / x \<le> 2 * 2 ^ flog2 n"
      using n by (simp_all only: of_nat_power of_nat_numeral power_Suc of_nat_mult)
    then have "x * 2 ^ flog2 n < 1" "1 \<le> x * (2 * 2 ^ flog2 n)"
      using assms by (simp_all add: field_simps)
    then show ?thesis
      using False by (simp add: expo_def n_def [symmetric] power_int_diff power_int_minus power_int_def [of _ "int _"] field_simps)
  qed
  then show "2 powi expo x \<le> x" "x < 2 powi (expo x + 1)" by simp_all
qed

lemma powi_le_imp: "(2 :: rat) powi a < 2 powi b \<Longrightarrow> a < b"
  by (meson linorder_not_less one_le_numeral power_int_increasing)

lemma expo_mono: "0 < x \<Longrightarrow> x \<le> y \<Longrightarrow> expo x \<le> expo y"
  using expo_bounds [of x] expo_bounds [of y] powi_le_imp [of "expo x" "expo y + 1"]
  by linarith

lemma rne_mono: "x \<le> y \<Longrightarrow> rne x \<le> rne y"
proof -
  assume le: "x \<le> y"
  then have f: "\<lfloor>x\<rfloor> \<le> \<lfloor>y\<rfloor>" by (rule floor_mono)
  show ?thesis
  proof (cases "\<lfloor>x\<rfloor> = \<lfloor>y\<rfloor>")
    case True
    with le show ?thesis by (auto simp: rne_def Let_def)
  next
    case False
    with f have "\<lfloor>x\<rfloor> + 1 \<le> \<lfloor>y\<rfloor>" by simp
    moreover have "rne x \<le> \<lfloor>x\<rfloor> + 1" "\<lfloor>y\<rfloor> \<le> rne y" by (simp_all add: rne_def Let_def)
    ultimately show ?thesis by simp
  qed
qed

lemma rne_minus: "rne (- x) = - rne x"
proof (cases "x \<in> \<int>")
  case True
  then obtain n where "x = of_int n" by (auto elim: Ints_cases)
  then show ?thesis using rne_of_int [of "- n"] by (simp add: rne_of_int)
next
  case False
  then have c: "\<lfloor>- x\<rfloor> = - \<lfloor>x\<rfloor> - 1"
    by (simp add: floor_minus ceiling_altdef) (metis Ints_of_int)
  show ?thesis by (auto simp: rne_def Let_def c)
qed


lemma ulp_pos [simp]: "0 < ulp x"
  by (simp add: ulp_def)

lemma rne_powi:
  assumes "0 \<le> k" shows "of_int (rne (2 powi k)) = 2 powi k"
  using rne_of_int [of "2 ^ nat k"] assms by (simp add: power_int_def)

text \<open>Rounding does not step over a power of two that is on the grid.\<close>

lemma rnd_le_powi:
  assumes "0 < x" "x \<le> 2 powi k" "max (expo x - 52) (- 1074) \<le> k"
  shows "rnd x \<le> 2 powi k"
proof -
  let ?e = "max (expo x - 52) (- 1074)"
  have q: "2 powi k / ulp x = 2 powi (k - ?e)"
    by (simp add: ulp_def power_int_diff)
  have "x / ulp x \<le> 2 powi (k - ?e)"
    unfolding q [symmetric] using assms(2) by (simp add: divide_right_mono less_imp_le)
  then have "of_int (rne (x / ulp x)) \<le> (of_int (rne (2 powi (k - ?e))) :: rat)"
    by (simp only: of_int_le_iff rne_mono)
  then have "of_int (rne (x / ulp x)) \<le> 2 powi k / ulp x"
    using assms(3) by (simp only: q rne_powi diff_ge_0_iff_ge)
  then show ?thesis
    using assms(1) by (simp add: rnd_def pos_le_divide_eq)
qed

lemma rnd_ge_powi:
  assumes "0 < x" "2 powi k \<le> x" "max (expo x - 52) (- 1074) \<le> k"
  shows "2 powi k \<le> rnd x"
proof -
  let ?e = "max (expo x - 52) (- 1074)"
  have q: "2 powi k / ulp x = 2 powi (k - ?e)"
    by (simp add: ulp_def power_int_diff)
  have "2 powi (k - ?e) \<le> x / ulp x"
    unfolding q [symmetric] using assms(2) by (simp add: divide_right_mono less_imp_le)
  then have "(of_int (rne (2 powi (k - ?e))) :: rat) \<le> of_int (rne (x / ulp x))"
    by (simp only: of_int_le_iff rne_mono)
  then have "2 powi k / ulp x \<le> of_int (rne (x / ulp x))"
    using assms(3) by (simp only: q rne_powi diff_ge_0_iff_ge)
  then show ?thesis
    using assms(1) by (simp add: rnd_def pos_divide_le_eq)
qed

lemma rnd_0 [simp]: "rnd 0 = 0"
  by (simp add: rnd_def)

lemma rnd_minus: "rnd (- x) = - rnd x"
  by (simp add: rnd_def rne_minus)

lemma rnd_nonneg: "0 \<le> x \<Longrightarrow> 0 \<le> rnd x"
  using rne_mono [of 0 "x / ulp \<bar>x\<bar>"] rne_of_int [of 0]
  by (simp add: rnd_def less_imp_le)

lemma rnd_mono_pos:
  assumes "0 < x" "x \<le> y" shows "rnd x \<le> rnd y"
proof (cases "ulp x = ulp y")
  case True
  have "rne (x / ulp y) \<le> rne (y / ulp y)"
    using assms by (intro rne_mono) (simp add: divide_right_mono less_imp_le)
  with True assms show ?thesis by (simp add: rnd_def)
next
  case False
  let ?ex = "max (expo x - 52) (- 1074)" and ?ey = "max (expo y - 52) (- 1074)"
  have "expo x \<le> expo y" using assms by (rule expo_mono)
  moreover from False have "?ex \<noteq> ?ey" by (auto simp: ulp_def)
  ultimately have e: "expo x < expo y" "?ex \<le> expo y" "?ey \<le> expo y" by linarith+
  have "x \<le> 2 powi (expo x + 1)" using expo_bounds [OF assms(1)] by simp
  also have "\<dots> \<le> 2 powi expo y" using e by (intro power_int_increasing) simp_all
  finally have "rnd x \<le> 2 powi expo y" using e by (intro rnd_le_powi assms)
  also have "\<dots> \<le> rnd y" using e assms expo_bounds(1) [of y] by (intro rnd_ge_powi) simp_all
  finally show ?thesis .
qed

lemma rnd_mono: "x \<le> y \<Longrightarrow> rnd x \<le> rnd y"
proof -
  assume le: "x \<le> y"
  consider "0 < x" | "x \<le> 0" "0 \<le> y" | "y < 0" by linarith
  then show ?thesis
  proof cases
    case 1 with le show ?thesis by (rule rnd_mono_pos [rotated])
  next
    case 2
    then show ?thesis using rnd_nonneg [of "- x"] rnd_nonneg [of y] by (simp add: rnd_minus)
  next
    case 3
    with le rnd_mono_pos [of "- y" "- x"] show ?thesis by (simp add: rnd_minus)
  qed
qed

text \<open>A value on its own grid is not rounded; integers of up to 53 bits are on it.\<close>

lemma rnd_exact: "x = of_int n * ulp \<bar>x\<bar> \<Longrightarrow> rnd x = x"
proof (cases "x = 0")
  case False
  assume x: "x = of_int n * ulp \<bar>x\<bar>"
  have "x / ulp \<bar>x\<bar> = of_int n"
    using less_imp_neq [OF ulp_pos [of "\<bar>x\<bar>"]] x by (simp add: divide_eq_eq)
  then show ?thesis using False x by (simp add: rnd_def rne_of_int)
qed simp

lemma rnd_of_int:
  assumes "\<bar>n\<bar> \<le> 2 ^ 53" shows "rnd (of_int n) = of_int n"
proof (cases "n = 0")
  case False
  let ?x = "\<bar>of_int n :: rat\<bar>"
  have x: "0 < ?x" "1 \<le> ?x" using False by (simp_all flip: of_int_abs)
  show ?thesis
  proof (cases "\<bar>n\<bar> = 2 ^ 53")
    case True
    then have "?x = 2 powi 53" by (simp flip: of_int_abs)
    then have "rnd ?x = ?x"
      using rnd_le_powi [of ?x 53] rnd_ge_powi [of ?x 53] x expo_bounds(1) [OF x(1)]
        powi_le_imp [of "expo ?x" 54] by simp
    then show ?thesis by (cases "0 \<le> n") (simp_all add: rnd_minus flip: of_int_abs)
  next
    case False
    with assms have "?x < 2 powi 53" by (simp flip: of_int_abs)
    with expo_bounds(1) [OF x(1)] have "expo ?x < 53"
      using powi_le_imp [of "expo ?x" 53] by linarith
    then have e: "max (expo ?x - 52) (- 1074) \<le> 0" by simp
    have "of_int n = of_int (n * 2 ^ nat (- max (expo ?x - 52) (- 1074))) * ulp ?x"
      using e by (simp add: ulp_def power_int_def flip: power_mult_distrib)
    then show ?thesis by (rule rnd_exact)
  qed
qed simp

section \<open>Finite results and the order\<close>

lemma rnd_le_pow2: "x \<le> 2 ^ k \<Longrightarrow> rnd x \<le> 2 ^ k"
proof (cases "0 < x")
  case True
  assume "x \<le> 2 ^ k"
  then have x: "x \<le> 2 powi int k" by simp
  have "expo x < int k + 1"
  proof (rule powi_le_imp)
    have "2 powi expo x \<le> x" by (rule expo_bounds [OF True])
    also note x
    also have "2 powi int k < (2 :: rat) powi (int k + 1)" by (simp add: power_int_add)
    finally show "(2 :: rat) powi expo x < 2 powi (int k + 1)" .
  qed
  then have "rnd x \<le> 2 powi int k" using True x by (intro rnd_le_powi) simp_all
  then show ?thesis by simp
next
  case False
  then have "rnd x \<le> 0" using rnd_nonneg [of "- x"] by (simp add: rnd_minus)
  then show ?thesis by (simp add: order_trans [of _ 0])
qed

lemma f64_of_rat_small:
  assumes "\<bar>x\<bar> \<le> 2 ^ 1000" shows "f64_of_rat x = Fin (rnd x)"
proof -
  have "rnd x \<le> 2 ^ 1000" "rnd (- x) \<le> 2 ^ 1000"
    using assms by (intro rnd_le_pow2; simp add: abs_le_iff)+
  moreover have "(2 :: rat) ^ 1000 < overflow_bound"
    unfolding overflow_bound_def by (rule power_strict_increasing) simp_all
  ultimately have "rnd x < overflow_bound" "- rnd x < overflow_bound"
    unfolding rnd_minus by (blast intro: le_less_trans)+
  then show ?thesis by (simp add: f64_of_rat_def Let_def)
qed

lemma f64_of_int_exact: "\<bar>n\<bar> \<le> 2 ^ 53 \<Longrightarrow> f64_of_int n = Fin (of_int n)"
proof -
  assume n: "\<bar>n\<bar> \<le> 2 ^ 53"
  then have "\<bar>of_int n :: rat\<bar> \<le> of_int (2 ^ 53)" by (simp only: of_int_abs [symmetric] of_int_le_iff)
  also have "of_int (2 ^ 53) \<le> (2 :: rat) ^ 1000" by (simp add: power_increasing)
  finally show ?thesis using n by (simp only: f64_of_int_def f64_of_rat_small rnd_of_int)
qed

lemma fle_refl: "a \<noteq> NaN \<Longrightarrow> fle a a"
  by (cases a) simp_all

lemma fle_trans: "fle a b \<Longrightarrow> fle b c \<Longrightarrow> fle a c"
  by (cases a; cases b; cases c) simp_all

lemma fle_total: "a \<noteq> NaN \<Longrightarrow> b \<noteq> NaN \<Longrightarrow> fle a b \<or> fle b a"
  by (cases a; cases b) auto

lemma not_fle: "a \<noteq> NaN \<Longrightarrow> b \<noteq> NaN \<Longrightarrow> \<not> fle a b \<longleftrightarrow> flt b a"
  by (cases a; cases b) auto

lemma f64_of_rat_mono: "x \<le> y \<Longrightarrow> fle (f64_of_rat x) (f64_of_rat y)"
  using rnd_mono [of x y] by (auto simp: f64_of_rat_def Let_def)

lemma f64_of_rat_not_NaN [simp]: "f64_of_rat x \<noteq> NaN"
  by (simp add: f64_of_rat_def Let_def)

section \<open>Order preservation of the operations\<close>

lemma fle_PInf [simp]: "fle a PInf \<longleftrightarrow> a \<noteq> NaN"
  by (cases a) simp_all

lemma fle_NInf [simp]: "fle NInf a \<longleftrightarrow> a \<noteq> NaN"
  by (cases a) simp_all

lemma fneg_antimono: "fle a b \<Longrightarrow> fle (fneg b) (fneg a)"
  by (cases a; cases b) simp_all

lemma fadd_mono:
  "fle a a' \<Longrightarrow> b \<le> b' \<Longrightarrow> fle (fadd a (Fin b)) (fadd a' (Fin b'))"
  by (cases a; cases a') (simp_all add: f64_of_rat_mono)

lemma fmul_mono: "fle a b \<Longrightarrow> 0 < c \<Longrightarrow> fle (fmul a (Fin c)) (fmul b (Fin c))"
  by (cases a; cases b) (simp_all add: f64_of_rat_mono inf_of_def)

lemma fadd_not_NaN: "a \<noteq> NaN \<Longrightarrow> fadd a (Fin b) \<noteq> NaN"
  by (cases a) simp_all

lemma fmul_not_NaN: "a \<noteq> NaN \<Longrightarrow> 0 < c \<Longrightarrow> fmul a (Fin c) \<noteq> NaN"
  by (cases a) (simp_all add: inf_of_def)

lemma f64_of_int_i64: "\<exists>r. f64_of_int (sint (x :: i64)) = Fin r \<and> \<bar>r\<bar> \<le> 2 ^ 63"
proof -
  let ?x = "of_int (sint x) :: rat"
  have i: "sint x \<le> 2 ^ 63" "- sint x \<le> 2 ^ 63" using sint_i64_lower [of x] sint_i64_upper [of x] by simp_all
  have "?x \<le> of_int (2 ^ 63)" "of_int (- sint x) \<le> (of_int (2 ^ 63) :: rat)"
    using i by (simp_all only: of_int_le_iff)
  then have b: "?x \<le> 2 ^ 63" "- ?x \<le> 2 ^ 63" by (simp_all only: of_int_power of_int_numeral of_int_minus)
  then have "\<bar>?x\<bar> \<le> 2 ^ 63" by simp
  also have "(2 :: rat) ^ 63 \<le> 2 ^ 1000" by (rule power_increasing) simp_all
  finally have f: "f64_of_int (sint x) = Fin (rnd ?x)"
    by (simp add: f64_of_int_def f64_of_rat_small)
  have "rnd ?x \<le> 2 ^ 63" "rnd (- ?x) \<le> 2 ^ 63" using b by (blast intro: rnd_le_pow2)+
  with f show ?thesis by (simp add: rnd_minus abs_le_iff)
qed

lemma f64_of_int_mono: "a \<le> b \<Longrightarrow> fle (f64_of_int a) (f64_of_int b)"
  by (simp add: f64_of_int_def f64_of_rat_mono)

lemma f64_of_int_pos:
  assumes "slt 0 (x :: i64)"
  shows "\<exists>r. f64_of_int (sint x) = Fin r \<and> 1 \<le> r \<and> r \<le> 2 ^ 63"
proof -
  have "fle (f64_of_int 1) (f64_of_int (sint x))" using assms by (intro f64_of_int_mono) simp
  then show ?thesis using f64_of_int_i64 [of x] f64_of_int_exact [of 1] by auto
qed

section \<open>Conversion to integers\<close>

text \<open>
  \<^verbatim>\<open>math.Ceil\<close>, \<^verbatim>\<open>math.Round\<close> (half away from zero) and the conversion
  to \<^verbatim>\<open>int32\<close>, which truncates towards zero. Go leaves the conversion of a value
  out of range to the implementation; this is amd64's, the smallest integer.
\<close>

fun fceil :: "f64 \<Rightarrow> f64" where
  "fceil (Fin a) = Fin (of_int \<lceil>a\<rceil>)"
| "fceil x = x"

fun fround :: "f64 \<Rightarrow> f64" where
  "fround (Fin a) = Fin (if a < 0 then - of_int \<lfloor>1 / 2 - a\<rfloor> else of_int \<lfloor>a + 1 / 2\<rfloor>)"
| "fround x = x"

definition trunc :: "rat \<Rightarrow> int" where
  "trunc a = (if a < 0 then \<lceil>a\<rceil> else \<lfloor>a\<rfloor>)"

fun int_of_f64 :: "nat \<Rightarrow> f64 \<Rightarrow> int" where
  "int_of_f64 w (Fin a) = (if - (2 ^ (w - 1)) \<le> trunc a \<and> trunc a < 2 ^ (w - 1) then trunc a else - (2 ^ (w - 1)))"
| "int_of_f64 w _ = - (2 ^ (w - 1))"

lemma trunc_of_int [simp]: "trunc (of_int n) = n"
  by (simp add: trunc_def)

end
