(* ===== verification/GoStd.thy ===== *)
theory GoStd
  imports Prelude
begin

text \<open>
  What the program uses of Go's standard library on strings: the decimal rendering of
  integers, \<^verbatim>\<open>time.Duration.String\<close>, \<^verbatim>\<open>strconv.ParseBool\<close> and
  \<^verbatim>\<open>FormatBool\<close>, and a few functions of package \<^verbatim>\<open>strings\<close>. A string
  is its list of bytes.
\<close>

section \<open>Decimal numbers\<close>

definition digit :: "nat \<Rightarrow> char" where
  "digit d = ''0123456789'' ! d"

fun dec :: "nat \<Rightarrow> string" where
  "dec n = (if n < 10 then [digit n] else dec (n div 10) @ [digit (n mod 10)])"

declare dec.simps [simp del]

lemma dec_small: "n < 10 \<Longrightarrow> dec n = [digit n]"
  by (simp add: dec.simps [of n])

lemma dec_big: "\<not> n < 10 \<Longrightarrow> dec n = dec (n div 10) @ [digit (n mod 10)]"
  by (simp add: dec.simps [of n])

lemmas dec_eval = dec_small dec_big digit_def

lemma dec_nonempty: "dec n \<noteq> []"
  by (subst dec.simps) simp

text \<open>\<^verbatim>\<open>strconv.Itoa\<close>\<close>

definition itoa :: "int \<Rightarrow> string" where
  "itoa n = (if n < 0 then CHR ''-'' # dec (nat (- n)) else dec (nat n))"

text \<open>Hexadecimal: \<^verbatim>\<open>strconv.FormatInt(n, 16)\<close> and
  \<^verbatim>\<open>hex.EncodeToString\<close>.\<close>

definition hex_digit :: "nat \<Rightarrow> char" where
  "hex_digit d = ''0123456789abcdef'' ! d"

fun hexa :: "nat \<Rightarrow> string" where
  "hexa n = (if n < 16 then [hex_digit n] else hexa (n div 16) @ [hex_digit (n mod 16)])"

declare hexa.simps [simp del]

definition FormatInt16 :: "i64 \<Rightarrow> string" where
  "FormatInt16 i = (let n = sint i in if n < 0 then CHR ''-'' # hexa (nat (- n)) else hexa (nat n))"

fun EncodeToString :: "8 word list \<Rightarrow> string" where
  "EncodeToString [] = []"
| "EncodeToString (b # bs) = hex_digit (unat b div 16) # hex_digit (unat b mod 16) # EncodeToString bs"

lemma hex_digit_eq: "d < 16 \<Longrightarrow> e < 16 \<Longrightarrow> hex_digit d = hex_digit e \<longleftrightarrow> d = e"
  by (simp add: hex_digit_def nth_eq_iff_index_eq)

lemma hex_digit_lower: "d < 16 \<Longrightarrow> hex_digit d \<in> set ''0123456789abcdef''"
  by (simp add: hex_digit_def del: set_simps list.set)

lemma EncodeToString_length: "length (EncodeToString bs) = 2 * length bs"
  by (induction bs) simp_all

lemma unat_byte_nibbles: "unat (b :: 8 word) div 16 < 16" "unat (b :: 8 word) mod 16 < 16"
  using unsigned_less [of b, where 'a = nat] by simp_all

lemma EncodeToString_hex: "set (EncodeToString bs) \<subseteq> set ''0123456789abcdef''"
proof (induction bs)
  case (Cons b bs)
  then show ?case
    using hex_digit_lower [OF unat_byte_nibbles(1) [of b]] hex_digit_lower [OF unat_byte_nibbles(2) [of b]]
    unfolding EncodeToString.simps by (metis insert_subset list.set(2))
qed simp

lemma EncodeToString_inj: "EncodeToString bs = EncodeToString cs \<longleftrightarrow> bs = cs"
proof (induction bs arbitrary: cs)
  case Nil
  then show ?case by (cases cs) simp_all
next
  case (Cons b bs)
  show ?case
  proof (cases cs)
    case (Cons c cs')
    have "unat b div 16 = unat c div 16 \<and> unat b mod 16 = unat c mod 16 \<longleftrightarrow> b = c"
      by (metis div_mult_mod_eq unsigned_word_eqI)
    then show ?thesis unfolding Cons using Cons.IH [of cs'] by (simp add: hex_digit_eq unat_byte_nibbles) blast
  qed simp
qed

section \<open>Durations\<close>

text \<open>
  \<open>frac prec v\<close>: the fraction \<open>v / 10 ^ prec\<close> without trailing zeros, with its
  point, or nothing when it is zero.
\<close>

fun frac_digits :: "nat \<Rightarrow> nat \<Rightarrow> string \<Rightarrow> string" where
  "frac_digits 0 v acc = (if acc = [] then [] else CHR ''.'' # acc)"
| "frac_digits (Suc k) v acc =
     frac_digits k (v div 10)
       (if acc = [] \<and> v mod 10 = 0 then [] else digit (v mod 10) # acc)"

definition micro_sign :: string where
  "micro_sign = [CHR 0xC2, CHR 0xB5]"

definition duration_abs_string :: "nat \<Rightarrow> string" where
  "duration_abs_string u =
     (if u = 0 then ''0s''
      else if u < 1000 then dec u @ ''ns''
      else if u < 1000000 then dec (u div 1000) @ frac_digits 3 u [] @ micro_sign @ ''s''
      else if u < 1000000000 then dec (u div 1000000) @ frac_digits 6 u [] @ ''ms''
      else (let secs = u div 1000000000; mins = secs div 60; hours = mins div 60 in
        (if 0 < hours then dec hours @ ''h'' else []) @
        (if 0 < mins then dec (mins mod 60) @ ''m'' else []) @
        dec (secs mod 60) @ frac_digits 9 u [] @ ''s''))"

definition duration_string :: "duration \<Rightarrow> string" where
  "duration_string d =
     (let n = sint d in
      if n < 0 then CHR ''-'' # duration_abs_string (nat (- n)) else duration_abs_string (nat n))"

lemma frac_digits_numeral:
  "frac_digits (numeral k) v acc = frac_digits (pred_numeral k) (v div 10)
     (if acc = [] \<and> v mod 10 = 0 then [] else digit (v mod 10) # acc)"
  by (subst numeral_eq_Suc) (rule frac_digits.simps(2))

lemmas duration_eval =
  duration_string_def duration_abs_string_def dec_eval frac_digits_numeral Let_def

section \<open>Booleans\<close>

text \<open>\<^verbatim>\<open>strconv.ParseBool\<close>; \<open>None\<close> is its syntax error.\<close>

definition parse_bool :: "string \<Rightarrow> bool option" where
  "parse_bool s =
     (if s \<in> {''1'', ''t'', ''T'', ''true'', ''TRUE'', ''True''} then Some True
      else if s \<in> {''0'', ''f'', ''F'', ''false'', ''FALSE'', ''False''} then Some False
      else None)"

definition format_bool :: "bool \<Rightarrow> string" where
  "format_bool b = (if b then ''true'' else ''false'')"

lemma parse_format_bool [simp]: "parse_bool (format_bool b) = Some b"
  by (cases b) (simp_all add: parse_bool_def format_bool_def)

section \<open>Package strings\<close>

definition has_prefix :: "string \<Rightarrow> string \<Rightarrow> bool" where
  "has_prefix s p \<longleftrightarrow> take (length p) s = p"

lemma has_prefix_iff: "has_prefix s p \<longleftrightarrow> (\<exists>t. s = p @ t)"
  by (metis has_prefix_def append_take_drop_id append_eq_conv_conj)

text \<open>\<^verbatim>\<open>strings.Index(s, "c")\<close> for a single byte; \<open>None\<close> is -1.\<close>

fun index_byte :: "char \<Rightarrow> string \<Rightarrow> nat option" where
  "index_byte c [] = None"
| "index_byte c (x # xs) = (if x = c then Some 0 else map_option Suc (index_byte c xs))"

lemma index_byte_None: "index_byte c s = None \<longleftrightarrow> c \<notin> set s"
  by (induction s) auto

lemma index_byte_Some:
  "index_byte c s = Some i \<Longrightarrow> i < length s \<and> s ! i = c \<and> c \<notin> set (take i s)"
proof (induction s arbitrary: i)
  case (Cons x xs)
  then show ?case by (cases i) (auto split: if_splits)
qed simp

text \<open>\<^verbatim>\<open>strings.Split(s, sep)\<close> for a single byte: never the empty list.\<close>

fun split_byte :: "char \<Rightarrow> string \<Rightarrow> string list" where
  "split_byte c [] = [[]]"
| "split_byte c (x # xs) =
     (if x = c then [] # split_byte c xs
      else (case split_byte c xs of [] \<Rightarrow> [[x]] | w # ws \<Rightarrow> (x # w) # ws))"

lemma split_byte_nonempty: "split_byte c s \<noteq> []"
  by (cases s) (auto split: list.split)

text \<open>
  \<^verbatim>\<open>strings.TrimSpace\<close>: the UTF-8 encodings of the code points with Unicode's
  White\_Space property are stripped from both ends.
\<close>

definition space_encodings :: "string list" where
  "space_encodings =
     [[CHR 0x09], [CHR 0x0A], [CHR 0x0B], [CHR 0x0C], [CHR 0x0D], [CHR 0x20],
      [CHR 0xC2, CHR 0x85], [CHR 0xC2, CHR 0xA0], [CHR 0xE1, CHR 0x9A, CHR 0x80],
      [CHR 0xE2, CHR 0x80, CHR 0x80], [CHR 0xE2, CHR 0x80, CHR 0x81],
      [CHR 0xE2, CHR 0x80, CHR 0x82], [CHR 0xE2, CHR 0x80, CHR 0x83],
      [CHR 0xE2, CHR 0x80, CHR 0x84], [CHR 0xE2, CHR 0x80, CHR 0x85],
      [CHR 0xE2, CHR 0x80, CHR 0x86], [CHR 0xE2, CHR 0x80, CHR 0x87],
      [CHR 0xE2, CHR 0x80, CHR 0x88], [CHR 0xE2, CHR 0x80, CHR 0x89],
      [CHR 0xE2, CHR 0x80, CHR 0x8A], [CHR 0xE2, CHR 0x80, CHR 0xA8],
      [CHR 0xE2, CHR 0x80, CHR 0xA9], [CHR 0xE2, CHR 0x80, CHR 0xAF],
      [CHR 0xE2, CHR 0x81, CHR 0x9F], [CHR 0xE3, CHR 0x80, CHR 0x80]]"

fun strip_prefixes :: "string list \<Rightarrow> nat \<Rightarrow> string \<Rightarrow> string" where
  "strip_prefixes ps 0 s = s"
| "strip_prefixes ps (Suc k) s =
     (case find (has_prefix s) ps of
        None \<Rightarrow> s
      | Some p \<Rightarrow> strip_prefixes ps k (drop (length p) s))"

text \<open>A string of \<open>n\<close> bytes has at most \<open>n\<close> spaces to strip: that is the fuel.\<close>

definition trim_left :: "string \<Rightarrow> string" where
  "trim_left s = strip_prefixes space_encodings (length s) s"

definition trim_right :: "string \<Rightarrow> string" where
  "trim_right s = rev (strip_prefixes (map rev space_encodings) (length s) (rev s))"

definition trim_space :: "string \<Rightarrow> string" where
  "trim_space s = trim_right (trim_left s)"

lemmas trim_eval = trim_space_def trim_left_def trim_right_def space_encodings_def has_prefix_def

text \<open>\<^verbatim>\<open>strings.Cut(s, sep)\<close> for a single byte: before, after, found.\<close>

definition cut_byte :: "char \<Rightarrow> string \<Rightarrow> string \<times> string \<times> bool" where
  "cut_byte c s = (case index_byte c s of
     None \<Rightarrow> (s, [], False) | Some i \<Rightarrow> (take i s, drop (Suc i) s, True))"

section \<open>Package log/slog\<close>

datatype log_level = LevelDebug | LevelInfo | LevelWarn | LevelError

end
