(* ===== verification/Mood.thy ===== *)
theory Mood
  imports GoFloat GoStd
begin

text \<open>
  \<^verbatim>\<open>internal/mood/mood.go\<close>: the health score of a set of signals, the mood of
  a score, and the \<^verbatim>\<open>/status\<close> report built from both. Arithmetic is float64
  (theory GoFloat), with each operation rounded on its own; a compiler that fuses a
  multiplication and an addition (Go allows it, and does not do it on baseline amd64) can
  differ in the last bit.
\<close>

section \<open>Moods\<close>

type_synonym mood = string

definition MoodLeafy :: mood where "MoodLeafy = ''leafy''"
definition MoodSprouting :: mood where "MoodSprouting = ''sprouting''"
definition MoodThirsty :: mood where "MoodThirsty = ''thirsty''"
definition MoodLostALeaf :: mood where "MoodLostALeaf = ''lost-a-leaf''"
definition MoodNotTooHot :: mood where "MoodNotTooHot = ''not-too-hot''"
definition MoodWilting :: mood where "MoodWilting = ''wilting''"

lemmas mood_defs = MoodLeafy_def MoodSprouting_def MoodThirsty_def MoodLostALeaf_def
  MoodNotTooHot_def MoodWilting_def

definition AllMoods :: "mood list" where
  "AllMoods = [MoodLeafy, MoodSprouting, MoodThirsty, MoodLostALeaf, MoodNotTooHot, MoodWilting]"

definition Message :: "mood \<Rightarrow> string" where
  "Message m =
     (if m = MoodLeafy then ''I'm feeling leafy and stable''
      else if m = MoodSprouting then ''I'm ready to rock and roll''
      else if m = MoodThirsty then ''Could use a drink, but I'm managing.''
      else if m = MoodLostALeaf then ''Lost a leaf, but I'm recovering.''
      else if m = MoodNotTooHot then ''I'm not feeling too hot.''
      else if m = MoodWilting then ''I'm wilting. Send help.''
      else ''I'm not sure how I'm feeling right now.'')"

section \<open>Signals and their score\<close>

record signals =
  Ready :: bool
  ErrorRate :: f64
  P95Latency :: duration
  LatencyBudget :: duration
  RestartCount :: i64

definition notReadyCeiling :: f64 where "notReadyCeiling = Fin 35"
definition scoreErrorPoints :: f64 where "scoreErrorPoints = Fin 50"
definition scoreLatencyPoints :: f64 where "scoreLatencyPoints = Fin 30"
definition scoreReadyPoints :: f64 where "scoreReadyPoints = Fin 20"
definition restartPenaltyPerRestart :: f64 where "restartPenaltyPerRestart = Fin 2"
definition restartPenaltyCap :: f64 where "restartPenaltyCap = Fin 10"

lemmas score_consts = notReadyCeiling_def scoreErrorPoints_def scoreLatencyPoints_def
  scoreReadyPoints_def restartPenaltyPerRestart_def restartPenaltyCap_def

text \<open>The four components of the score and its final clamp, in the order of the code.\<close>

definition errorComponent :: "signals \<Rightarrow> f64" where
  "errorComponent s = fmul (fsub (Fin 1) (ErrorRate s)) scoreErrorPoints"

definition latencyComponent :: "signals \<Rightarrow> f64" where
  "latencyComponent s =
     (if slt 0 (LatencyBudget s) then
        (let ratio = fdiv (f64_of_int (sint (P95Latency s))) (f64_of_int (sint (LatencyBudget s)));
             c = fmul scoreLatencyPoints (fsub (Fin 1) ratio)
         in if flt c (Fin 0) then Fin 0 else c)
      else scoreLatencyPoints)"

definition readinessComponent :: "signals \<Rightarrow> f64" where
  "readinessComponent s = (if Ready s then scoreReadyPoints else Fin 0)"

definition restartPenalty :: "signals \<Rightarrow> f64" where
  "restartPenalty s =
     (let p = fmul (f64_of_int (sint (RestartCount s))) restartPenaltyPerRestart;
          q = (if fgt p restartPenaltyCap then restartPenaltyCap else p)
      in if flt q (Fin 0) then Fin 0 else q)"

definition clampScore :: "f64 \<Rightarrow> f64" where
  "clampScore x = (if fgt x (Fin 100) then Fin 100 else if flt x (Fin 0) then Fin 0 else x)"

definition Score :: "signals \<Rightarrow> f64" where
  "Score s =
     (let score = fsub (fadd (fadd (errorComponent s) (latencyComponent s)) (readinessComponent s))
                       (restartPenalty s);
          capped = (if \<not> Ready s \<and> fgt score notReadyCeiling then notReadyCeiling else score)
      in clampScore capped)"

definition FromScore :: "f64 \<Rightarrow> mood" where
  "FromScore score =
     (if fge score (Fin 95) then MoodLeafy
      else if fge score (Fin 80) then MoodSprouting
      else if fge score (Fin 60) then MoodThirsty
      else if fge score (Fin 40) then MoodLostALeaf
      else if fge score (Fin 20) then MoodNotTooHot
      else MoodWilting)"

section \<open>Reports\<close>

text \<open>\<open>'t\<close> is the type of the wall-clock instants \<^verbatim>\<open>now\<close> returns.\<close>

record 't report =
  rMood :: mood
  rMessage :: string
  rHealthScore :: f64
  rReady :: bool
  rSpecies :: string
  rName :: string
  rUptime :: string
  rCheckedAt :: 't

definition NewReport :: "signals \<Rightarrow> string \<Rightarrow> string \<Rightarrow> duration \<Rightarrow> 't \<Rightarrow> 't report" where
  "NewReport s name species uptime now =
     (let score = Score s; m = FromScore score in
      \<lparr>rMood = m, rMessage = Message m, rHealthScore = score, rReady = Ready s,
       rSpecies = species, rName = name, rUptime = duration_string uptime, rCheckedAt = now\<rparr>)"

section \<open>The score is a bounded, monotone function of the signals\<close>

lemma latency_ratio:
  assumes "slt 0 b"
  shows "\<exists>q. fdiv (f64_of_int (sint (p :: i64))) (f64_of_int (sint (b :: i64))) = Fin q \<and> \<bar>q\<bar> \<le> 2 ^ 63"
proof -
  obtain p' where p: "f64_of_int (sint (p :: i64)) = Fin p'" "\<bar>p'\<bar> \<le> 2 ^ 63"
    using f64_of_int_i64 by blast
  obtain b' where b: "f64_of_int (sint b) = Fin b'" "1 \<le> b'"
    using f64_of_int_pos [OF assms] by blast
  have "\<bar>p' / b'\<bar> \<le> \<bar>p'\<bar>" using b(2) by (simp add: abs_divide divide_le_eq mult_le_cancel_left1)
  with p(2) have q: "\<bar>p' / b'\<bar> \<le> 2 ^ 63" by (rule order_trans [rotated])
  then have "rnd (p' / b') \<le> 2 ^ 63" "rnd (- (p' / b')) \<le> 2 ^ 63"
    by (intro rnd_le_pow2; simp only: abs_le_iff)+
  moreover have "(2 :: rat) ^ 63 \<le> 2 ^ 1000" by (rule power_increasing) simp_all
  then have "f64_of_rat (p' / b') = Fin (rnd (p' / b'))"
    using q by (intro f64_of_rat_small) (rule order_trans)
  ultimately show ?thesis using p b by (simp add: rnd_minus abs_le_iff)
qed

lemma latencyComponent_Fin: "\<exists>l. latencyComponent s = Fin l \<and> 0 \<le> l"
proof (cases "slt 0 (LatencyBudget s)")
  case True
  obtain q where q: "fdiv (f64_of_int (sint (P95Latency s))) (f64_of_int (sint (LatencyBudget s))) = Fin q"
    "\<bar>q\<bar> \<le> 2 ^ 63" using latency_ratio [OF True] by blast
  have big: "(2 :: rat) ^ 70 \<le> 2 ^ 1000" by (rule power_increasing) simp_all
  have b: "\<bar>1 - q\<bar> \<le> 2 ^ 64" using q(2) by (simp add: abs_le_iff)
  then have a: "f64_of_rat (1 - q) = Fin (rnd (1 - q))"
    using big by (intro f64_of_rat_small) simp
  have "rnd (1 - q) \<le> 2 ^ 64" "rnd (- (1 - q)) \<le> 2 ^ 64"
    using b by (intro rnd_le_pow2; simp add: abs_le_iff)+
  then have "\<bar>rnd (1 - q)\<bar> \<le> 2 ^ 64" unfolding rnd_minus by (simp add: abs_le_iff)
  then have "f64_of_rat (30 * rnd (1 - q)) = Fin (rnd (30 * rnd (1 - q)))"
    using big by (intro f64_of_rat_small) (simp add: abs_mult)
  then show ?thesis
    using True by (auto simp: latencyComponent_def q(1) fsub_def a score_consts Let_def)
qed (simp add: latencyComponent_def score_consts)

lemma restartPenalty_Fin: "\<exists>p. restartPenalty s = Fin p \<and> 0 \<le> p \<and> p \<le> 10"
proof -
  obtain r where "f64_of_int (sint (RestartCount s)) = Fin r" using f64_of_int_i64 by blast
  then show ?thesis
    by (cases "f64_of_rat (r * 2)") (auto simp: restartPenalty_def score_consts Let_def)
qed


lemma errorComponent_not_NaN: "ErrorRate s \<noteq> NaN \<Longrightarrow> errorComponent s \<noteq> NaN"
  by (cases "ErrorRate s")
    (simp_all add: errorComponent_def fsub_def score_consts fmul_not_NaN inf_of_def)

text \<open>The sum of the components before the cap and the clamp.\<close>

definition rawScore :: "signals \<Rightarrow> f64" where
  "rawScore s = fsub (fadd (fadd (errorComponent s) (latencyComponent s)) (readinessComponent s))
                  (restartPenalty s)"

lemma Score_rawScore:
  "Score s = clampScore (if \<not> Ready s \<and> fgt (rawScore s) notReadyCeiling then notReadyCeiling else rawScore s)"
  by (simp add: Score_def rawScore_def Let_def)

lemma rawScore_not_NaN: "ErrorRate s \<noteq> NaN \<Longrightarrow> rawScore s \<noteq> NaN"
  using latencyComponent_Fin [of s] restartPenalty_Fin [of s]
  by (auto simp: rawScore_def fsub_def readinessComponent_def score_consts
      fadd_not_NaN errorComponent_not_NaN)

lemma clampScore_bounds: "x \<noteq> NaN \<Longrightarrow> \<exists>r. clampScore x = Fin r \<and> 0 \<le> r \<and> r \<le> 100"
  by (cases x) (auto simp: clampScore_def)

lemma clampScore_mono: "fle x y \<Longrightarrow> fle (clampScore x) (clampScore y)"
  by (cases x; cases y) (auto simp: clampScore_def)

lemma Score_bounds: "ErrorRate s \<noteq> NaN \<Longrightarrow> \<exists>r. Score s = Fin r \<and> 0 \<le> r \<and> r \<le> 100"
  unfolding Score_rawScore by (intro clampScore_bounds) (simp add: rawScore_not_NaN score_consts)

lemma Score_unready: "\<not> Ready s \<Longrightarrow> \<not> fgt (Score s) (Fin 35)"
  by (cases "rawScore s") (auto simp: Score_rawScore clampScore_def score_consts)

lemma FromScore_low: "\<not> fgt x (Fin 35) \<Longrightarrow> FromScore x \<in> {MoodNotTooHot, MoodWilting}"
  by (cases x) (auto simp: FromScore_def)

text \<open>Each component moves the right way when a signal gets better.\<close>

lemma errorComponent_mono:
  "fle (ErrorRate s') (ErrorRate s) \<Longrightarrow> fle (errorComponent s) (errorComponent s')"
proof -
  assume "fle (ErrorRate s') (ErrorRate s)"
  then have "fle (fadd (fneg (ErrorRate s)) (Fin 1)) (fadd (fneg (ErrorRate s')) (Fin 1))"
    by (intro fadd_mono fneg_antimono) simp_all
  moreover have c: "fadd (Fin 1) x = fadd x (Fin 1)" for x by (cases x) (simp_all add: add.commute)
  ultimately show ?thesis by (simp add: errorComponent_def fsub_def c score_consts fmul_mono)
qed

lemma latencyComponent_mono:
  assumes "LatencyBudget s' = LatencyBudget s" "sle (P95Latency s') (P95Latency s)"
  shows "fle (latencyComponent s) (latencyComponent s')"
proof (cases "slt 0 (LatencyBudget s)")
  case True
  let ?q = "\<lambda>s. fdiv (f64_of_int (sint (P95Latency s))) (f64_of_int (sint (LatencyBudget s)))"
  let ?c = "\<lambda>s. fmul (fadd (fneg (?q s)) (Fin 1)) (Fin 30)"
  obtain b where b: "f64_of_int (sint (LatencyBudget s)) = Fin b" "1 \<le> b"
    using f64_of_int_pos [OF True] by blast
  obtain p p' where p: "f64_of_int (sint (P95Latency s)) = Fin p" "f64_of_int (sint (P95Latency s')) = Fin p'"
    using f64_of_int_i64 by blast
  have "fle (Fin p') (Fin p)" using f64_of_int_mono [OF assms(2)] p by simp
  then have "fle (?q s') (?q s)"
    using b p assms(1) by (simp add: f64_of_rat_mono divide_right_mono)
  then have c: "fle (?c s) (?c s')" by (intro fmul_mono fadd_mono fneg_antimono) simp_all
  have l: "latencyComponent t = (if flt (?c t) (Fin 0) then Fin 0 else ?c t)"
    if "LatencyBudget t = LatencyBudget s" for t
  proof -
    have "fmul (Fin 30) (fadd (Fin 1) x) = fmul (fadd x (Fin 1)) (Fin 30)" for x
      by (cases x; cases "fadd x (Fin 1)") (simp_all add: add.commute mult.commute inf_of_def)
    then show ?thesis using that True by (simp add: latencyComponent_def fsub_def score_consts Let_def)
  qed
  show ?thesis unfolding l [OF refl] l [OF assms(1)] using c
    by (cases "?c s"; cases "?c s'") auto
next
  case False
  then show ?thesis using assms by (simp add: latencyComponent_def score_consts)
qed

lemma restartPenalty_mono:
  assumes "sle (RestartCount s') (RestartCount s)"
  shows "fle (restartPenalty s') (restartPenalty s)"
proof -
  have "fle (fmul (f64_of_int (sint (RestartCount s'))) (Fin 2)) (fmul (f64_of_int (sint (RestartCount s))) (Fin 2))"
    using assms by (intro fmul_mono f64_of_int_mono) simp_all
  then show ?thesis
    by (cases "fmul (f64_of_int (sint (RestartCount s'))) (Fin 2)";
        cases "fmul (f64_of_int (sint (RestartCount s))) (Fin 2)")
      (auto simp: restartPenalty_def score_consts Let_def)
qed

lemma rawScore_mono:
  assumes "Ready s \<Longrightarrow> Ready s'" "fle (ErrorRate s') (ErrorRate s)"
    "LatencyBudget s' = LatencyBudget s" "sle (P95Latency s') (P95Latency s)"
    "sle (RestartCount s') (RestartCount s)"
  shows "fle (rawScore s) (rawScore s')"
proof -
  obtain l l' p p' where c: "latencyComponent s = Fin l" "latencyComponent s' = Fin l'"
    "restartPenalty s = Fin p" "restartPenalty s' = Fin p'"
    using latencyComponent_Fin restartPenalty_Fin by blast
  have "l \<le> l'" "p' \<le> p"
    using latencyComponent_mono [OF assms(3,4)] restartPenalty_mono [OF assms(5)] c by simp_all
  then show ?thesis
    using assms(1) errorComponent_mono [OF assms(2)]
    by (auto simp: rawScore_def fsub_def c readinessComponent_def score_consts intro!: fadd_mono)
qed

lemma Score_mono:
  assumes "Ready s \<Longrightarrow> Ready s'" "fle (ErrorRate s') (ErrorRate s)"
    "LatencyBudget s' = LatencyBudget s" "sle (P95Latency s') (P95Latency s)"
    "sle (RestartCount s') (RestartCount s)"
  shows "fle (Score s) (Score s')"
proof -
  have r: "fle (rawScore s) (rawScore s')" by (rule rawScore_mono [OF assms])
  show ?thesis
    unfolding Score_rawScore
    by (rule clampScore_mono) (use r assms(1) in \<open>cases "rawScore s"; cases "rawScore s'"; auto simp: score_consts\<close>)
qed


text \<open>The position of a mood on the ladder, 0 for the healthiest.\<close>

definition mood_rank :: "mood \<Rightarrow> nat" where
  "mood_rank m = length (takeWhile (\<lambda>x. x \<noteq> m) AllMoods)"

lemma mood_rank_simps [simp]:
  "mood_rank MoodLeafy = 0" "mood_rank MoodSprouting = 1" "mood_rank MoodThirsty = 2"
  "mood_rank MoodLostALeaf = 3" "mood_rank MoodNotTooHot = 4" "mood_rank MoodWilting = 5"
  by (simp_all add: mood_rank_def AllMoods_def mood_defs)

lemma FromScore_mono: "fle x y \<Longrightarrow> mood_rank (FromScore y) \<le> mood_rank (FromScore x)"
  by (cases x; cases y) (auto simp: FromScore_def)

text \<open>For every error rate that is a number (infinities included), and
  whatever the latency, the budget, the restarts and the readiness, the score is a finite
  number in the closed interval from 0 to 100.\<close>

theorem score_bounds: "ErrorRate s \<noteq> NaN \<Longrightarrow> \<exists>r. Score s = Fin r \<and> 0 \<le> r \<and> r \<le> 100"
  by (rule Score_bounds)

theorem score_bounds_witness:
  "ErrorRate \<lparr>Ready = True, ErrorRate = PInf, P95Latency = 5, LatencyBudget = 0, RestartCount = 7\<rparr> \<noteq> NaN \<and>
   (\<exists>r. Score \<lparr>Ready = True, ErrorRate = PInf, P95Latency = 5, LatencyBudget = 0, RestartCount = 7\<rparr> = Fin r
        \<and> 0 \<le> r \<and> r \<le> 100)"
  using score_bounds [of "\<lparr>Ready = True, ErrorRate = PInf, P95Latency = 5, LatencyBudget = 0, RestartCount = 7\<rparr>"]
  by simp

text \<open>A component that is not ready never scores above 35 and its mood is one
  of the two least healthy, however good its latency and error rate are; a NaN error rate
  changes nothing to that.\<close>

theorem unready_mood:
  "\<not> Ready s \<Longrightarrow> \<not> fgt (Score s) (Fin 35) \<and> FromScore (Score s) \<in> {MoodNotTooHot, MoodWilting}"
  using Score_unready FromScore_low by blast

theorem unready_mood_witness:
  "FromScore (Score \<lparr>Ready = False, ErrorRate = Fin 0, P95Latency = 0, LatencyBudget = 0, RestartCount = 0\<rparr>)
     \<in> {MoodNotTooHot, MoodWilting}"
  using unready_mood [of "\<lparr>Ready = False, ErrorRate = Fin 0, P95Latency = 0, LatencyBudget = 0, RestartCount = 0\<rparr>"]
  by simp

text \<open>When no signal gets worse (readiness is kept, the error rate, the 95th
  percentile latency and the restart count do not grow, under the same latency budget), the
  score does not drop and the mood does not move down the ladder, in spite of the rounding of
  every float operation.\<close>

theorem mood_monotone:
  assumes "Ready s \<longrightarrow> Ready s'" "fle (ErrorRate s') (ErrorRate s)"
    "LatencyBudget s' = LatencyBudget s" "sle (P95Latency s') (P95Latency s)"
    "sle (RestartCount s') (RestartCount s)"
  shows "fle (Score s) (Score s') \<and> mood_rank (FromScore (Score s')) \<le> mood_rank (FromScore (Score s))"
  using Score_mono [of s s'] FromScore_mono assms by blast

theorem mood_monotone_witness:
  "mood_rank (FromScore (Score \<lparr>Ready = True, ErrorRate = Fin 0, P95Latency = 10, LatencyBudget = 100, RestartCount = 0\<rparr>))
   \<le> mood_rank (FromScore (Score \<lparr>Ready = False, ErrorRate = Fin 1, P95Latency = 50, LatencyBudget = 100, RestartCount = 3\<rparr>))"
  using mood_monotone [of "\<lparr>Ready = False, ErrorRate = Fin 1, P95Latency = 50, LatencyBudget = 100, RestartCount = 3\<rparr>"
      "\<lparr>Ready = True, ErrorRate = Fin 0, P95Latency = 10, LatencyBudget = 100, RestartCount = 0\<rparr>"]
  by simp

text \<open>The six moods are distinct strings with distinct messages, every mood
  a score maps to is one of them, and any other string gets a fallback message that is
  non-empty and differs from all six.\<close>

theorem messages_distinct:
  "distinct AllMoods \<and> distinct (map Message AllMoods) \<and> FromScore x \<in> set AllMoods \<and>
   Message m \<noteq> [] \<and> (m \<notin> set AllMoods \<longrightarrow> Message m \<notin> Message ` set AllMoods)"
proof -
  have "distinct AllMoods" "distinct (map Message AllMoods)"
    by (simp_all add: AllMoods_def mood_defs Message_def)
  moreover have "FromScore x \<in> set AllMoods" by (simp add: FromScore_def AllMoods_def)
  moreover have "Message m \<noteq> []" by (simp add: Message_def)
  moreover have "m \<notin> set AllMoods \<Longrightarrow> Message m \<notin> Message ` set AllMoods"
    by (simp add: AllMoods_def mood_defs Message_def)
  ultimately show ?thesis by blast
qed

theorem messages_distinct_witness:
  "Message ''grumpy'' \<notin> Message ` set AllMoods"
proof -
  have "''grumpy'' \<notin> set AllMoods" by (simp add: AllMoods_def mood_defs)
  then show ?thesis using messages_distinct [of "Fin 0" "''grumpy''"] by blast
qed

end
