(* ===== verification/PlantTypes.thy ===== *)
theory PlantTypes
  imports GoStd
begin

text \<open>
  \<^verbatim>\<open>api/v1alpha1/plant_types.go\<close>, and what the operator uses of the metadata and
  the conditions of a Kubernetes object. A Go map is a partial function (a nil map is the empty
  one, which the semantic comparison of the API machinery does not tell apart), a pointer to a
  scalar an option, an instant an integer count of nanoseconds.
\<close>

section \<open>Metadata\<close>

type_synonym labels = "string \<rightharpoonup> string"

record owner_ref =
  orApiVersion :: string
  orKind :: string
  orName :: string
  orUID :: string
  orController :: bool
  orBlockOwnerDeletion :: bool

text \<open>\<open>mAnnotations\<close> stands for everything in the metadata no code of the program touches.\<close>

record object_meta =
  mName :: string
  mNamespace :: string
  mUID :: string
  mResourceVersion :: string
  mGeneration :: i64
  mDeletionTimestamp :: "int option"
  mLabels :: labels
  mOwners :: "owner_ref list"
  mAnnotations :: labels

text \<open>\<^verbatim>\<open>metav1.GetControllerOf\<close>: the first owner that is a controller.\<close>

definition GetControllerOf :: "object_meta \<Rightarrow> owner_ref option" where
  "GetControllerOf m = find orController (mOwners m)"

section \<open>Conditions\<close>

datatype condition_status = CTrue | CFalse | CUnknown

record condition =
  cType :: string
  cStatus :: condition_status
  cObservedGeneration :: i64
  cLastTransitionTime :: int
  cReason :: string
  cMessage :: string

section \<open>Plants\<close>

record plant_spec =
  spSpecies :: string
  spReplicas :: "i32 option"
  spImage :: string
  spResourceProfile :: string
  spWateringInterval :: duration
  spLatencyBudget :: duration
  spEnableEndpoints :: bool

record plant_status =
  stMood :: string
  stHealthPercent :: i32
  stReadyReplicas :: i32
  stDesiredReplicas :: i32
  stObservedGeneration :: i64
  stLastWatered :: "int option"
  stConditions :: "condition list"

record plant =
  pMeta :: object_meta
  Spec :: plant_spec
  Status :: plant_status

abbreviation pName :: "plant \<Rightarrow> string" where "pName p \<equiv> mName (pMeta p)"
abbreviation pNamespace :: "plant \<Rightarrow> string" where "pNamespace p \<equiv> mNamespace (pMeta p)"

section \<open>A concrete plant\<close>

definition demo_plant :: plant where
  "demo_plant =
     \<lparr>pMeta = \<lparr>mName = ''fernie'', mNamespace = ''plants'', mUID = ''u-1'', mResourceVersion = ''7'',
        mGeneration = 2, mDeletionTimestamp = None, mLabels = Map.empty, mOwners = [], mAnnotations = Map.empty\<rparr>,
      Spec = \<lparr>spSpecies = ''fern'', spReplicas = Some 3, spImage = ''ghcr.io/kramersean/k8s-buddy/buddy-api:dev'',
        spResourceProfile = ''small'', spWateringInterval = 30 * second, spLatencyBudget = 150 * millisecond,
        spEnableEndpoints = False\<rparr>,
      Status = \<lparr>stMood = [], stHealthPercent = 0, stReadyReplicas = 0, stDesiredReplicas = 0,
        stObservedGeneration = 0, stLastWatered = None, stConditions = []\<rparr>\<rparr>"

end
