(* ===== verification/Resources.thy ===== *)
theory Resources
  imports PlantTypes
begin

text \<open>
  \<^verbatim>\<open>internal/controller/resources.go\<close>: the desired state of the children of a Plant.

  Each Kubernetes object is a record of the fields the operator reads or writes; a field named
  \<open>...Server\<close> stands for all the others, which the API server and other controllers
  own. A resource quantity is its canonical value (milli-cores, bytes). A pointer is an option,
  a map a partial function.
\<close>

section \<open>The objects\<close>

record topology_spread =
  tsMaxSkew :: i32
  tsTopologyKey :: string
  tsWhenUnsatisfiable :: string
  tsLabelSelector :: labels

record http_get =
  hgPath :: string
  hgPort :: string
  hgScheme :: string

record probe =
  prHTTPGet :: http_get
  prTimeoutSeconds :: i32
  prPeriodSeconds :: i32
  prSuccessThreshold :: i32
  prFailureThreshold :: i32

record container_port =
  cpName :: string
  cpContainerPort :: i32
  cpProtocol :: string

record security_context =
  scRunAsNonRoot :: "bool option"
  scRunAsUser :: "i64 option"
  scAllowPrivilegeEscalation :: "bool option"
  scReadOnlyRootFilesystem :: "bool option"
  scDrop :: "string list"
  scSeccompProfile :: "string option"

record resource_requirements =
  rqCPU :: nat
  rqMemory :: nat
  limCPU :: nat
  limMemory :: nat

record container =
  coName :: string
  coImage :: string
  coImagePullPolicy :: string
  coPorts :: "container_port list"
  coEnvFrom :: "string list"
  coSecurityContext :: "security_context option"
  coResources :: resource_requirements
  coLivenessProbe :: "probe option"
  coReadinessProbe :: "probe option"
  coStartupProbe :: "probe option"
  coServer :: string

record pod_security =
  posRunAsNonRoot :: "bool option"
  posRunAsUser :: "i64 option"
  posSeccompProfile :: "string option"

record pod_spec =
  poServiceAccountName :: string
  poAutomount :: "bool option"
  poSecurityContext :: "pod_security option"
  poTopologySpread :: "topology_spread list"
  poTerminationGracePeriodSeconds :: "i64 option"
  poContainers :: "container list"
  poServer :: string

record deployment =
  dMeta :: object_meta
  dReplicas :: "i32 option"
  dSelector :: "labels option"
  dTemplateLabels :: labels
  dPodSpec :: pod_spec
  dServer :: string
  dStatusReadyReplicas :: i32
  dStatusObservedGeneration :: i64

record service_account =
  saMeta :: object_meta
  saAutomount :: "bool option"
  saServer :: string

record service_port =
  svpName :: string
  svpPort :: i32
  svpTargetPort :: string
  svpProtocol :: string

record service =
  svMeta :: object_meta
  svType :: string
  svSelector :: labels
  svPorts :: "service_port list"
  svServer :: string

record config_map =
  cmMeta :: object_meta
  cmData :: "string \<rightharpoonup> string"
  cmServer :: string

record disruption_budget =
  pdbMeta :: object_meta
  pdbMinAvailable :: "i32 option"
  pdbSelector :: "labels option"
  pdbServer :: string

text \<open>A rule's peers are the namespace selectors it names; no peer at all admits every one.\<close>

record policy_rule =
  ruPeers :: "labels list"
  ruPorts :: "(string \<times> i32) list"

record network_policy =
  npMeta :: object_meta
  npPodSelector :: labels
  npPolicyTypes :: "string list"
  npIngress :: "policy_rule list"
  npEgress :: "policy_rule list"

record service_monitor =
  smMeta :: object_meta
  smKind :: "string \<times> string \<times> string"
  smMatchLabels :: labels
  smEndpoints :: "(string \<times> string \<times> string) list"

section \<open>Names and constants\<close>

definition LabelName :: string where "LabelName = ''app.kubernetes.io/name''"
definition LabelInstance :: string where "LabelInstance = ''app.kubernetes.io/instance''"
definition LabelComponent :: string where "LabelComponent = ''app.kubernetes.io/component''"
definition LabelPartOf :: string where "LabelPartOf = ''app.kubernetes.io/part-of''"
definition LabelManagedBy :: string where "LabelManagedBy = ''app.kubernetes.io/managed-by''"
definition LabelPlant :: string where "LabelPlant = ''buddy.k8s-buddy.io/plant''"

lemmas label_keys = LabelName_def LabelInstance_def LabelComponent_def LabelPartOf_def LabelManagedBy_def
  LabelPlant_def

definition appName :: string where "appName = ''buddy-api''"
definition appComponent :: string where "appComponent = ''api''"
definition appPartOf :: string where "appPartOf = ''k8s-buddy''"
definition ManagedByValue :: string where "ManagedByValue = ''plant-operator''"
definition appManagedBy :: string where "appManagedBy = ManagedByValue"
definition containerName :: string where "containerName = ''buddy-api''"
definition containerPortName :: string where "containerPortName = ''http''"
definition containerPort :: i32 where "containerPort = 8080"
definition runAsUser :: i64 where "runAsUser = 65532"
definition dnsPortNumber :: i32 where "dnsPortNumber = 53"
definition serviceMonitorScrapeInterval :: string where "serviceMonitorScrapeInterval = ''30s''"
definition terminationGracePeriodSeconds :: i64 where "terminationGracePeriodSeconds = 30"
definition defaultReplicas :: i32 where "defaultReplicas = 3"

lemmas resource_consts = appName_def appComponent_def appPartOf_def ManagedByValue_def appManagedBy_def
  containerName_def containerPortName_def containerPort_def runAsUser_def dnsPortNumber_def
  serviceMonitorScrapeInterval_def terminationGracePeriodSeconds_def defaultReplicas_def

section \<open>The builders\<close>

definition LabelsFor :: "plant \<Rightarrow> labels" where
  "LabelsFor p =
     [LabelName \<mapsto> appName, LabelInstance \<mapsto> pName p, LabelComponent \<mapsto> appComponent,
      LabelPartOf \<mapsto> appPartOf, LabelManagedBy \<mapsto> appManagedBy, LabelPlant \<mapsto> pName p]"

definition SelectorFor :: "plant \<Rightarrow> labels" where
  "SelectorFor p = [LabelInstance \<mapsto> pName p, LabelPlant \<mapsto> pName p]"

definition replicasFor :: "plant \<Rightarrow> i32" where
  "replicasFor p = (case spReplicas (Spec p) of None \<Rightarrow> defaultReplicas | Some r \<Rightarrow> r)"

text \<open>The metadata of a child before the server has seen it.\<close>

definition new_meta :: "string \<Rightarrow> string \<Rightarrow> labels \<Rightarrow> object_meta" where
  "new_meta n ns ls =
     \<lparr>mName = n, mNamespace = ns, mUID = [], mResourceVersion = [], mGeneration = 0,
      mDeletionTimestamp = None, mLabels = ls, mOwners = [], mAnnotations = Map.empty\<rparr>"

definition ResourcesFor :: "string \<Rightarrow> resource_requirements" where
  "ResourcesFor profile =
     (if profile = ''medium'' then
        \<lparr>rqCPU = 100, rqMemory = 128 * 1024 * 1024, limCPU = 500, limMemory = 256 * 1024 * 1024\<rparr>
      else if profile = ''large'' then
        \<lparr>rqCPU = 250, rqMemory = 256 * 1024 * 1024, limCPU = 1000, limMemory = 512 * 1024 * 1024\<rparr>
      else
        \<lparr>rqCPU = 50, rqMemory = 64 * 1024 * 1024, limCPU = 200, limMemory = 128 * 1024 * 1024\<rparr>)"

text \<open>The parts of \<^verbatim>\<open>DeploymentFor\<close>, from the inside out.\<close>

definition http_probe :: "string \<Rightarrow> i32 \<Rightarrow> i32 \<Rightarrow> probe" where
  "http_probe path period failures =
     \<lparr>prHTTPGet = \<lparr>hgPath = path, hgPort = containerPortName, hgScheme = ''HTTP''\<rparr>,
      prTimeoutSeconds = 1, prPeriodSeconds = period, prSuccessThreshold = 1, prFailureThreshold = failures\<rparr>"

definition livenessProbeFor :: probe where "livenessProbeFor = http_probe ''/healthz'' 10 3"
definition readinessProbeFor :: probe where "readinessProbeFor = http_probe ''/readyz'' 2 2"
definition startupProbeFor :: probe where "startupProbeFor = http_probe ''/healthz'' 2 15"

definition containerFor :: "plant \<Rightarrow> container" where
  "containerFor p =
     \<lparr>coName = containerName, coImage = spImage (Spec p), coImagePullPolicy = ''IfNotPresent'',
      coPorts = [\<lparr>cpName = containerPortName, cpContainerPort = containerPort, cpProtocol = ''TCP''\<rparr>],
      coEnvFrom = [pName p],
      coSecurityContext = Some
        \<lparr>scRunAsNonRoot = Some True, scRunAsUser = Some runAsUser, scAllowPrivilegeEscalation = Some False,
         scReadOnlyRootFilesystem = Some True, scDrop = [''ALL''], scSeccompProfile = Some ''RuntimeDefault''\<rparr>,
      coResources = ResourcesFor (spResourceProfile (Spec p)),
      coLivenessProbe = Some livenessProbeFor, coReadinessProbe = Some readinessProbeFor,
      coStartupProbe = Some startupProbeFor, coServer = []\<rparr>"

definition podSpecFor :: "plant \<Rightarrow> pod_spec" where
  "podSpecFor p =
     \<lparr>poServiceAccountName = pName p, poAutomount = Some False,
      poSecurityContext = Some
        \<lparr>posRunAsNonRoot = Some True, posRunAsUser = Some runAsUser, posSeccompProfile = Some ''RuntimeDefault''\<rparr>,
      poTopologySpread =
        [\<lparr>tsMaxSkew = 1, tsTopologyKey = ''kubernetes.io/hostname'', tsWhenUnsatisfiable = ''ScheduleAnyway'',
          tsLabelSelector = SelectorFor p\<rparr>],
      poTerminationGracePeriodSeconds = Some terminationGracePeriodSeconds,
      poContainers = [containerFor p], poServer = []\<rparr>"

definition DeploymentFor :: "plant \<Rightarrow> deployment" where
  "DeploymentFor p =
     \<lparr>dMeta = new_meta (pName p) (pNamespace p) (LabelsFor p), dReplicas = Some (replicasFor p),
      dSelector = Some (SelectorFor p), dTemplateLabels = LabelsFor p, dPodSpec = podSpecFor p,
      dServer = [], dStatusReadyReplicas = 0, dStatusObservedGeneration = 0\<rparr>"

definition ServiceAccountFor :: "plant \<Rightarrow> service_account" where
  "ServiceAccountFor p =
     \<lparr>saMeta = new_meta (pName p) (pNamespace p) (LabelsFor p), saAutomount = Some False, saServer = []\<rparr>"

definition ServiceFor :: "plant \<Rightarrow> service" where
  "ServiceFor p =
     \<lparr>svMeta = new_meta (pName p) (pNamespace p) (LabelsFor p), svType = ''ClusterIP'',
      svSelector = SelectorFor p,
      svPorts = [\<lparr>svpName = containerPortName, svpPort = 80, svpTargetPort = containerPortName, svpProtocol = ''TCP''\<rparr>],
      svServer = []\<rparr>"

definition ConfigMapFor :: "plant \<Rightarrow> config_map" where
  "ConfigMapFor p =
     \<lparr>cmMeta = new_meta (pName p) (pNamespace p) (LabelsFor p),
      cmData =
        [''BUDDY_NAME'' \<mapsto> pName p,
         ''BUDDY_SPECIES'' \<mapsto> spSpecies (Spec p),
         ''BUDDY_LOG_LEVEL'' \<mapsto> ''info'',
         ''BUDDY_LATENCY_BUDGET'' \<mapsto> duration_string (spLatencyBudget (Spec p)),
         ''BUDDY_WORK_ERROR_RATE'' \<mapsto> ''0.05'',
         ''BUDDY_WORK_MIN_DELAY'' \<mapsto> ''10ms'',
         ''BUDDY_WORK_MAX_DELAY'' \<mapsto> ''200ms'',
         ''BUDDY_ENABLE_CHAOS_ENDPOINTS'' \<mapsto> format_bool (spEnableEndpoints (Spec p)),
         ''BUDDY_SHUTDOWN_DELAY'' \<mapsto> ''5s''],
      cmServer = []\<rparr>"

text \<open>The subtraction wraps in 32 bits.\<close>

definition PodDisruptionBudgetFor :: "plant \<Rightarrow> disruption_budget" where
  "PodDisruptionBudgetFor p =
     (let m = replicasFor p - 1; minAvailable = (if slt m 1 then 1 else m) in
      \<lparr>pdbMeta = new_meta (pName p @ ''-pdb'') (pNamespace p) (LabelsFor p),
       pdbMinAvailable = Some minAvailable, pdbSelector = Some (SelectorFor p), pdbServer = []\<rparr>)"

definition NetworkPolicyFor :: "plant \<Rightarrow> network_policy" where
  "NetworkPolicyFor p =
     \<lparr>npMeta = new_meta (pName p) (pNamespace p) (LabelsFor p), npPodSelector = SelectorFor p,
      npPolicyTypes = [''Ingress'', ''Egress''],
      npIngress = [\<lparr>ruPeers = [], ruPorts = [(''TCP'', containerPort)]\<rparr>],
      npEgress = [\<lparr>ruPeers = [[''kubernetes.io/metadata.name'' \<mapsto> ''kube-system'']],
                   ruPorts = [(''UDP'', dnsPortNumber), (''TCP'', dnsPortNumber)]\<rparr>]\<rparr>"

definition serviceMonitorGVK :: "string \<times> string \<times> string" where
  "serviceMonitorGVK = (''monitoring.coreos.com'', ''v1'', ''ServiceMonitor'')"

definition ServiceMonitorFor :: "plant \<Rightarrow> service_monitor" where
  "ServiceMonitorFor p =
     \<lparr>smMeta = new_meta (pName p) (pNamespace p) (LabelsFor p), smKind = serviceMonitorGVK,
      smMatchLabels = SelectorFor p,
      smEndpoints = [(containerPortName, ''/metrics'', serviceMonitorScrapeInterval)]\<rparr>"

section \<open>Labels and selectors\<close>

lemma LabelsFor_simps [label_simps]:
  "LabelsFor p LabelName = Some appName" "LabelsFor p LabelInstance = Some (pName p)"
  "LabelsFor p LabelComponent = Some appComponent" "LabelsFor p LabelPartOf = Some appPartOf"
  "LabelsFor p LabelManagedBy = Some appManagedBy" "LabelsFor p LabelPlant = Some (pName p)"
  by (simp_all add: LabelsFor_def label_keys)

lemma dom_LabelsFor [label_simps]:
  "dom (LabelsFor p) = {LabelName, LabelInstance, LabelComponent, LabelPartOf, LabelManagedBy, LabelPlant}"
  by (auto simp: LabelsFor_def)

lemma dom_SelectorFor [label_simps]: "dom (SelectorFor p) = {LabelInstance, LabelPlant}"
  by (auto simp: SelectorFor_def)

lemma SelectorFor_simps [label_simps]:
  "SelectorFor p LabelInstance = Some (pName p)" "SelectorFor p LabelPlant = Some (pName p)"
  by (simp_all add: SelectorFor_def label_keys)

text \<open>A label selector matches the labels that contain it.\<close>

definition selects :: "labels \<Rightarrow> labels \<Rightarrow> bool" where
  "selects sel ls \<longleftrightarrow> sel \<subseteq>\<^sub>m ls"

lemma SelectorFor_selects: "selects (SelectorFor p) ls \<longleftrightarrow> ls LabelInstance = Some (pName p) \<and> ls LabelPlant = Some (pName p)"
  by (auto simp: selects_def map_le_def label_simps)

text \<open>C39: Every selector the operator generates (of the Deployment, its topology
  spread, the Service, the disruption budget, the network policy and the ServiceMonitor) matches
  the labels of the pods of its own Plant, and matches the pods of another Plant only if that one has
  the same name; the selected set does not depend on anything but the name.\<close>

theorem selectors_isolate:
  "(let sels = [the (dSelector (DeploymentFor p)), svSelector (ServiceFor p),
                the (pdbSelector (PodDisruptionBudgetFor p)), npPodSelector (NetworkPolicyFor p),
                smMatchLabels (ServiceMonitorFor p)]
               @ map tsLabelSelector (poTopologySpread (dPodSpec (DeploymentFor p)))
    in \<forall>sel \<in> set sels. selects sel (dTemplateLabels (DeploymentFor p)) \<and>
         (\<forall>q. selects sel (dTemplateLabels (DeploymentFor q)) \<longleftrightarrow> pName q = pName p))"
  by (auto simp: Let_def DeploymentFor_def ServiceFor_def PodDisruptionBudgetFor_def NetworkPolicyFor_def
      ServiceMonitorFor_def podSpecFor_def SelectorFor_selects label_simps)

theorem selectors_isolate_witness:
  "selects (svSelector (ServiceFor demo_plant)) (dTemplateLabels (DeploymentFor demo_plant))"
  using selectors_isolate [of demo_plant] by (simp add: Let_def)

section \<open>The disruption budget\<close>

lemma sint_pred_i32: "sint r \<noteq> - (2 ^ 31) \<Longrightarrow> sint (r - 1 :: i32) = sint r - 1"
  using sint_word_of_int_i32 [of "sint r - 1"] sint_i32_lower [of r] sint_i32_upper [of r] by simp

text \<open>The disruption budget of a Plant with n replicas, for every n a 32-bit counter can
  hold except its minimum, asks for the larger of 1 and n - 1 available pods: the only pod of a
  single-replica Plant may not be evicted, of more replicas exactly one may be, and never is the
  budget higher than the replica count when that is positive. The minimum itself wraps around to
  the largest 32-bit count.\<close>

theorem pdb_keeps_one:
  "\<exists>m. pdbMinAvailable (PodDisruptionBudgetFor p) = Some m \<and>
     (sint (replicasFor p) \<noteq> - (2 ^ 31) \<longrightarrow> sint m = max 1 (sint (replicasFor p) - 1)) \<and>
     (1 \<le> sint (replicasFor p) \<longrightarrow> 1 \<le> sint m \<and> sint m \<le> sint (replicasFor p)) \<and>
     (replicasFor p = word_of_int (- (2 ^ 31)) \<longrightarrow> sint m = 2 ^ 31 - 1)"
proof -
  let ?r = "replicasFor p" and ?m = "if slt (replicasFor p - 1) 1 then 1 else replicasFor p - 1"
  have m: "pdbMinAvailable (PodDisruptionBudgetFor p) = Some ?m"
    by (simp add: PodDisruptionBudgetFor_def Let_def)
  have a: "sint ?m = max 1 (sint ?r - 1)" if "sint ?r \<noteq> - (2 ^ 31)"
    using sint_pred_i32 [OF that] by simp
  have b: "sint ?m = 2 ^ 31 - 1" if "?r = word_of_int (- (2 ^ 31))"
    using that by simp
  have c: "1 \<le> sint ?m \<and> sint ?m \<le> sint ?r" if "1 \<le> sint ?r"
  proof -
    have "sint ?r \<noteq> - (2 ^ 31)" using that by simp
    from a [OF this] that show ?thesis by simp
  qed
  show ?thesis using m a b c by blast
qed

theorem pdb_keeps_one_witness:
  "\<exists>m. pdbMinAvailable (PodDisruptionBudgetFor demo_plant) = Some m \<and> sint m = 2"
  using pdb_keeps_one [of demo_plant] by (auto simp: replicasFor_def demo_plant_def)

section \<open>Resources and ports\<close>

text \<open>Whatever the profile string, the requests of the generated container are
  positive and at most its limits; every string but the three profiles is treated as small; and
  the profiles are ordered, each at least the one before in all four quantities.\<close>

theorem resources_wellformed:
  "(let r = ResourcesFor profile in
      0 < rqCPU r \<and> 0 < rqMemory r \<and> rqCPU r \<le> limCPU r \<and> rqMemory r \<le> limMemory r) \<and>
   (profile \<notin> {''medium'', ''large''} \<longrightarrow> ResourcesFor profile = ResourcesFor ''small'') \<and>
   (\<forall>f \<in> {rqCPU, rqMemory, limCPU, limMemory}.
      f (ResourcesFor ''small'') < f (ResourcesFor ''medium'') \<and> f (ResourcesFor ''medium'') < f (ResourcesFor ''large''))"
  by (simp add: ResourcesFor_def)

theorem resources_wellformed_witness: "ResourcesFor ''huge'' = ResourcesFor ''small''"
  using resources_wellformed [of "''huge''"] by simp

text \<open>Traffic a network policy lets through, for the pods it selects.\<close>

definition ingress_allowed :: "network_policy \<Rightarrow> labels \<Rightarrow> string \<Rightarrow> i32 \<Rightarrow> bool" where
  "ingress_allowed np ns proto port \<longleftrightarrow>
     ''Ingress'' \<notin> set (npPolicyTypes np) \<or>
     list_ex (\<lambda>r. (ruPeers r = [] \<or> (\<exists>sel \<in> set (ruPeers r). selects sel ns)) \<and> (proto, port) \<in> set (ruPorts r)) (npIngress np)"

definition egress_allowed :: "network_policy \<Rightarrow> labels \<Rightarrow> string \<Rightarrow> i32 \<Rightarrow> bool" where
  "egress_allowed np ns proto port \<longleftrightarrow>
     ''Egress'' \<notin> set (npPolicyTypes np) \<or>
     list_ex (\<lambda>r. (ruPeers r = [] \<or> (\<exists>sel \<in> set (ruPeers r). selects sel ns)) \<and> (proto, port) \<in> set (ruPorts r)) (npEgress np)"

text \<open>The network policy of a Plant lets in TCP traffic to the container port from
  anywhere and nothing else, and lets out nothing but DNS (port 53, UDP or TCP) towards namespaces
  labelled as kube-system; the port it opens is the one the container listens on, and the Service
  and all three probes address that port by its name.\<close>

theorem network_posture:
  "(ingress_allowed (NetworkPolicyFor p) ns proto port \<longleftrightarrow> proto = ''TCP'' \<and> port = 8080) \<and>
   (egress_allowed (NetworkPolicyFor p) ns proto port \<longleftrightarrow>
      ns ''kubernetes.io/metadata.name'' = Some ''kube-system'' \<and> proto \<in> {''UDP'', ''TCP''} \<and> port = 53) \<and>
   (\<forall>c \<in> set (poContainers (dPodSpec (DeploymentFor p))). \<exists>cp. coPorts c = [cp] \<and>
      cpContainerPort cp = 8080 \<and> cpProtocol cp = ''TCP'' \<and>
      (\<forall>sp \<in> set (svPorts (ServiceFor p)). svpTargetPort sp = cpName cp) \<and>
      (\<forall>pr \<in> {coLivenessProbe c, coReadinessProbe c, coStartupProbe c}.
         \<exists>x. pr = Some x \<and> hgPort (prHTTPGet x) = cpName cp) \<and>
      (\<forall>ep \<in> set (smEndpoints (ServiceMonitorFor p)). fst ep \<in> svpName ` set (svPorts (ServiceFor p))))"
proof -
  have i: "ingress_allowed (NetworkPolicyFor p) ns proto port \<longleftrightarrow> proto = ''TCP'' \<and> port = 8080"
    by (simp add: ingress_allowed_def NetworkPolicyFor_def containerPort_def)
  have e: "egress_allowed (NetworkPolicyFor p) ns proto port \<longleftrightarrow>
      ns ''kubernetes.io/metadata.name'' = Some ''kube-system'' \<and> proto \<in> {''UDP'', ''TCP''} \<and> port = 53"
    by (auto simp: egress_allowed_def NetworkPolicyFor_def dnsPortNumber_def selects_def map_le_def)
  show ?thesis using i e
    by (simp add: DeploymentFor_def podSpecFor_def containerFor_def ServiceFor_def ServiceMonitorFor_def
        livenessProbeFor_def readinessProbeFor_def startupProbeFor_def http_probe_def containerPort_def)
qed

theorem network_posture_witness:
  "ingress_allowed (NetworkPolicyFor demo_plant) Map.empty ''TCP'' 8080"
  using network_posture [of demo_plant Map.empty "''TCP''" 8080] by simp

end
