(* ===== verification/PlantStatus.thy ===== *)
theory PlantStatus
  imports Mood Resources
begin

text \<open>
  \<^verbatim>\<open>internal/controller/status.go\<close>: the status of a Plant as a function of the
  Plant, its Deployment and the clock. \<^verbatim>\<open>meta.SetStatusCondition\<close> is not part of
  the repository: it is a parameter, with its documented behaviour in the locale
  \<open>status_conditions\<close>. \<^verbatim>\<open>Semantic.DeepEqual\<close> on these records is equality.
\<close>

section \<open>Conditions\<close>

definition ConditionReady :: string where "ConditionReady = ''Ready''"
definition ConditionProgressing :: string where "ConditionProgressing = ''Progressing''"
definition ConditionDegraded :: string where "ConditionDegraded = ''Degraded''"
definition ReasonAllReplicasReady :: string where "ReasonAllReplicasReady = ''AllReplicasReady''"
definition ReasonReplicasNotReady :: string where "ReasonReplicasNotReady = ''ReplicasNotReady''"
definition ReasonRolloutInProgress :: string where "ReasonRolloutInProgress = ''RolloutInProgress''"
definition ReasonRolloutComplete :: string where "ReasonRolloutComplete = ''RolloutComplete''"
definition ReasonInsufficientReplicas :: string where "ReasonInsufficientReplicas = ''InsufficientReplicas''"
definition ReasonPlantHealthy :: string where "ReasonPlantHealthy = ''PlantHealthy''"

lemmas condition_names = ConditionReady_def ConditionProgressing_def ConditionDegraded_def

definition cond_of :: "string \<Rightarrow> condition list \<Rightarrow> condition option" where
  "cond_of t cs = find (\<lambda>c. cType c = t) cs"

text \<open>
  \<^verbatim>\<open>meta.SetStatusCondition\<close> for a condition with a transition time: a condition of
  a new type is added; an existing one takes the new status, reason, message and generation, and
  the new time only when its status changes; nothing else moves.
\<close>

locale status_conditions =
  fixes sc :: "condition \<Rightarrow> condition list \<Rightarrow> condition list"
  assumes sc_same:
      "cond_of (cType c) (sc c cs) = Some (case cond_of (cType c) cs of
         None \<Rightarrow> c
       | Some old \<Rightarrow> if cStatus old = cStatus c
                     then c\<lparr>cLastTransitionTime := cLastTransitionTime old\<rparr> else c)"
    and sc_other: "t \<noteq> cType c \<Longrightarrow> cond_of t (sc c cs) = cond_of t cs"
    and sc_idle:
      "\<lbrakk>cond_of (cType c) cs = Some old; cStatus old = cStatus c; cReason old = cReason c;
        cMessage old = cMessage c; cObservedGeneration old = cObservedGeneration c\<rbrakk> \<Longrightarrow> sc c cs = cs"

section \<open>The status\<close>

definition desiredReplicas :: "plant \<Rightarrow> i32" where
  "desiredReplicas p = (case spReplicas (Spec p) of None \<Rightarrow> defaultReplicas | Some r \<Rightarrow> r)"

definition healthPercent :: "i32 \<Rightarrow> i32 \<Rightarrow> i32" where
  "healthPercent ready desired =
     (if desired = 0 then 0
      else (let pct = fround (fmul (fdiv (f64_of_int (sint ready)) (f64_of_int (sint desired))) (Fin 100))
            in word_of_int (int_of_f64 32 pct)))"

definition moodFor :: "i32 \<Rightarrow> i32 \<Rightarrow> mood" where
  "moodFor ready desired =
     (if slt 0 desired \<and> ready = 0 then MoodWilting
      else (let errorRate = (if slt 0 desired
                 then fsub (Fin 1) (fdiv (f64_of_int (sint ready)) (f64_of_int (sint desired))) else Fin 0);
                signals = \<lparr>Ready = slt 0 ready, ErrorRate = errorRate, P95Latency = 0,
                           LatencyBudget = 0, RestartCount = 0\<rparr>
            in FromScore (Score signals)))"

definition conditionsFor :: "i32 \<Rightarrow> i32 \<Rightarrow> deployment \<Rightarrow> i64 \<Rightarrow> int \<Rightarrow> condition list" where
  "conditionsFor ready desired dep generation now =
     (let mk = (\<lambda>ty st reason msg. \<lparr>cType = ty, cStatus = st, cObservedGeneration = generation,
                  cLastTransitionTime = now, cReason = reason, cMessage = msg\<rparr>);
          readyCondition =
            (if slt 0 desired \<and> ready = desired
             then mk ConditionReady CTrue ReasonAllReplicasReady ''all desired replicas are ready''
             else mk ConditionReady CFalse ReasonReplicasNotReady ''fewer replicas are ready than desired'');
          generationObserved = sle (mGeneration (dMeta dep)) (dStatusObservedGeneration dep);
          rolledOut = (generationObserved \<and> ready = desired);
          progressingCondition =
            (if rolledOut
             then mk ConditionProgressing CFalse ReasonRolloutComplete ''the Deployment is fully rolled out''
             else mk ConditionProgressing CTrue ReasonRolloutInProgress
                    ''the Deployment's rollout has not yet converged'');
          degradedCondition =
            (if ready = 0 \<and> slt 0 desired
             then mk ConditionDegraded CTrue ReasonInsufficientReplicas ''no replicas are ready''
             else mk ConditionDegraded CFalse ReasonPlantHealthy
                    ''the Plant has at least one ready replica, or none are desired'')
      in [readyCondition, progressingCondition, degradedCondition])"

text \<open>\<open>t1\<close> and \<open>t2\<close> are the two readings of the clock.\<close>

definition computeStatus ::
  "(condition \<Rightarrow> condition list \<Rightarrow> condition list) \<Rightarrow> plant \<Rightarrow> deployment \<Rightarrow> int \<Rightarrow> int \<Rightarrow> plant_status" where
  "computeStatus sc p dep t1 t2 =
     (let ready = dStatusReadyReplicas dep; desired = desiredReplicas p; generation = mGeneration (pMeta p);
          conditions = fold sc (conditionsFor ready desired dep generation t2) (stConditions (Status p))
      in \<lparr>stMood = moodFor ready desired, stHealthPercent = healthPercent ready desired,
          stReadyReplicas = ready, stDesiredReplicas = desired, stObservedGeneration = generation,
          stLastWatered = Some t1, stConditions = conditions\<rparr>)"

definition statusChanged :: "plant_status \<Rightarrow> plant_status \<Rightarrow> bool" where
  "statusChanged old new \<longleftrightarrow> old\<lparr>stLastWatered := None\<rparr> \<noteq> new\<lparr>stLastWatered := None\<rparr>"

text \<open>\<^verbatim>\<open>conditionTrue\<close> of plant_controller.go.\<close>

definition conditionTrue :: "condition list \<Rightarrow> string \<Rightarrow> bool" where
  "conditionTrue cs t = (case cond_of t cs of Some c \<Rightarrow> cStatus c = CTrue | None \<Rightarrow> False)"

section \<open>An instance of the condition contract\<close>

fun set_condition :: "condition \<Rightarrow> condition list \<Rightarrow> condition list" where
  "set_condition c [] = [c]"
| "set_condition c (x # xs) =
     (if cType x = cType c
      then (if cStatus x = cStatus c then c\<lparr>cLastTransitionTime := cLastTransitionTime x\<rparr> else c) # xs
      else x # set_condition c xs)"

interpretation conditions: status_conditions set_condition
proof unfold_locales
  fix c cs
  show "cond_of (cType c) (set_condition c cs) = Some (case cond_of (cType c) cs of
         None \<Rightarrow> c
       | Some old \<Rightarrow> if cStatus old = cStatus c
                     then c\<lparr>cLastTransitionTime := cLastTransitionTime old\<rparr> else c)"
    by (induction cs) (auto simp: cond_of_def)
  show "cond_of t (set_condition c cs) = cond_of t cs" if "t \<noteq> cType c" for t
    using that by (induction cs) (auto simp: cond_of_def)
  show "set_condition c cs = cs" if "cond_of (cType c) cs = Some old" "cStatus old = cStatus c"
    "cReason old = cReason c" "cMessage old = cMessage c" "cObservedGeneration old = cObservedGeneration c" for old
    using that by (induction cs) (auto simp: cond_of_def split: if_splits)
qed

context status_conditions begin

lemma sc_status: "cond_of t (sc c cs) = (if t = cType c then Some (case cond_of (cType c) cs of
         None \<Rightarrow> c
       | Some old \<Rightarrow> if cStatus old = cStatus c
                     then c\<lparr>cLastTransitionTime := cLastTransitionTime old\<rparr> else c) else cond_of t cs)"
  by (simp add: sc_same sc_other)

text \<open>Setting the same conditions again, whatever the clock says, changes nothing.\<close>

lemma sc_again:
  "c' = c\<lparr>cLastTransitionTime := u\<rparr> \<Longrightarrow> cond_of (cType c) cs = Some old \<Longrightarrow>
     old = c\<lparr>cLastTransitionTime := v\<rparr> \<Longrightarrow> sc c' cs = cs"
  by (rule sc_idle [of _ _ old]) simp_all

end

section \<open>The mood and the health percentage in exact arithmetic\<close>

text \<open>The ladder a Plant with \<open>0 < r \<le> d\<close> ready replicas is documented to climb.\<close>

definition exact_mood :: "int \<Rightarrow> int \<Rightarrow> mood" where
  "exact_mood r d =
     (if 9 * d \<le> 10 * r then MoodLeafy
      else if 3 * d \<le> 5 * r then MoodSprouting
      else if d \<le> 5 * r then MoodThirsty
      else if 0 < r then MoodLostALeaf
      else MoodWilting)"

text \<open>The score of a ready Plant as a function of the exact ratio, each operation rounded.\<close>

definition ratio_score :: "rat \<Rightarrow> rat" where
  "ratio_score x = rnd (rnd (rnd (rnd (rnd (1 - rnd (1 - rnd x)) * 50) + 30) + 20))"

lemma rnd_range:
  assumes "0 \<le> x" "x \<le> 2 ^ k" "k \<le> 1000"
  shows "f64_of_rat x = Fin (rnd x) \<and> 0 \<le> rnd x \<and> rnd x \<le> 2 ^ k"
proof -
  have "(2 :: rat) ^ k \<le> 2 ^ 1000" using assms(3) by (intro power_increasing) simp_all
  then have "\<bar>x\<bar> \<le> 2 ^ 1000" using assms by (simp only: abs_of_nonneg order_trans [of x "2 ^ k"])
  then show ?thesis using f64_of_rat_small rnd_nonneg [OF assms(1)] rnd_le_pow2 [OF assms(2)] by blast
qed

lemma f64_of_i32: "f64_of_int (sint (r :: i32)) = Fin (of_int (sint r))"
proof (rule f64_of_int_exact)
  have "(2 :: int) ^ 31 \<le> 2 ^ 53" by simp
  then show "\<bar>sint r\<bar> \<le> 2 ^ 53" using sint_i32_lower [of r] sint_i32_upper [of r] by linarith
qed

lemma moodFor_ratio:
  assumes "0 < a" "a \<le> b" "sint r = a" "sint d = b"
  shows "moodFor r d = FromScore (clampScore (Fin (ratio_score (of_int a / of_int b))))"
proof -
  let ?x = "of_int a / of_int b :: rat"
  have d: "0 < b" "r \<noteq> 0" using assms by auto
  have f: "f64_of_int a = Fin (of_int a)" "f64_of_int b = Fin (of_int b)"
    using f64_of_i32 [of r] f64_of_i32 [of d] assms by (simp_all only:)
  have x: "0 \<le> ?x" "?x \<le> 2 ^ 0" using assms d by (simp_all add: divide_le_eq)
  note 1 = rnd_range [OF x, simplified]
  note 2 = rnd_range [of "1 - rnd ?x" 0, simplified]
  note 3 = rnd_range [of "1 - rnd (1 - rnd ?x)" 0, simplified]
  note 4 = rnd_range [of "rnd (1 - rnd (1 - rnd ?x)) * 50" 6, simplified]
  note 5 = rnd_range [of "rnd (rnd (1 - rnd (1 - rnd ?x)) * 50) + 30" 7, simplified]
  note 6 = rnd_range [of "rnd (rnd (rnd (1 - rnd (1 - rnd ?x)) * 50) + 30) + 20" 8, simplified]
  note 7 = rnd_range [of "rnd (rnd (rnd (rnd (1 - rnd (1 - rnd ?x)) * 50) + 30) + 20)" 8, simplified]
  have z: "f64_of_rat 0 = Fin 0" by (simp add: f64_defs f64_eval Let_def)
  note ranges = 1 2 3 4 5 6 7 z
  have e: "Score \<lparr>Ready = True, ErrorRate = fsub (Fin 1) (f64_of_rat ?x),
      P95Latency = 0, LatencyBudget = 0, RestartCount = 0\<rparr> = clampScore (Fin (ratio_score ?x))"
    using ranges d
    by (simp add: Score_def errorComponent_def latencyComponent_def readinessComponent_def restartPenalty_def
        score_consts fsub_def f64_of_int_def ratio_score_def Let_def f64_eval)
  show ?thesis using d assms by (simp add: moodFor_def f e Let_def)
qed

text \<open>The ratios of at most ten replicas, evaluated.\<close>

definition ladder_ratios :: "rat list" where
  "ladder_ratios =
     [1 / 10, 1 / 9, 1 / 8, 1 / 7, 1 / 6, 1 / 5, 2 / 9, 1 / 4, 2 / 7, 3 / 10, 1 / 3, 3 / 8, 2 / 5, 3
      / 7, 4 / 9, 1 / 2, 5 / 9, 4 / 7, 3 / 5, 5 / 8, 2 / 3, 7 / 10, 5 / 7, 3 / 4, 7 / 9, 4 / 5, 5 /
      6, 6 / 7, 7 / 8, 8 / 9, 9 / 10, 1]"

definition mood_of_ratio :: "rat \<Rightarrow> mood" where
  "mood_of_ratio x = (if 9 / 10 \<le> x then MoodLeafy else if 3 / 5 \<le> x then MoodSprouting
     else if 1 / 5 \<le> x then MoodThirsty else MoodLostALeaf)"

lemma ratio_moods: "list_all (\<lambda>x. FromScore (clampScore (Fin (ratio_score x))) = mood_of_ratio x) ladder_ratios"
  unfolding ladder_ratios_def list.pred_inject
  by (intro conjI TrueI;
      simp add: ratio_score_def mood_of_ratio_def rnd_def ulp_def expo_def rne_quot_def f64_eval Let_def
        clampScore_def FromScore_def)

lemma ratio_percents: "list_all (\<lambda>x. fround (Fin (rnd (rnd x * 100))) = Fin (of_int \<lfloor>x * 100 + 1 / 2\<rfloor>)) ladder_ratios"
  unfolding ladder_ratios_def list.pred_inject
  by (intro conjI TrueI; simp add: rnd_def ulp_def expo_def rne_quot_def f64_eval Let_def)


lemma ratio_member:
  assumes "0 < a" "a \<le> b" "b \<le> 10"
  shows "of_int a / of_int b \<in> set ladder_ratios"
proof -
  have "b \<in> {1, 2, 3, 4, 5, 6, 7, 8, 9, 10}" "a \<in> {1, 2, 3, 4, 5, 6, 7, 8, 9, 10}"
    unfolding insert_iff empty_iff using assms by presburger+
  then show ?thesis using assms(2) unfolding ladder_ratios_def by (elim insertE emptyE) simp_all
qed

lemma mood_of_ratio_exact: "0 < a \<Longrightarrow> 0 < b \<Longrightarrow> mood_of_ratio (of_int a / of_int b) = exact_mood a b"
proof -
  assume a: "0 < a" "0 < b"
  have le: "(of_int n / of_int m \<le> (of_int a / of_int b :: rat)) = (n * b \<le> m * a)" if "0 < m" for n m :: int
  proof -
    have "(of_int n / of_int m \<le> (of_int a / of_int b :: rat)) = (of_int (n * b) \<le> (of_int (m * a) :: rat))"
      using that a by (simp add: field_simps)
    then show ?thesis by (simp only: of_int_le_iff)
  qed
  show ?thesis using a le [of 10 9] le [of 5 3] le [of 5 1] by (simp add: mood_of_ratio_def exact_mood_def)
qed

lemma healthPercent_ratio:
  assumes "0 < a" "a \<le> b" "b \<le> 10" "sint r = a" "sint d = b"
  shows "healthPercent r d = word_of_int ((200 * a + b) div (2 * b))"
proof -
  let ?x = "of_int a / of_int b :: rat"
  have d: "0 < b" "d \<noteq> 0" using assms by auto
  have f: "f64_of_int a = Fin (of_int a)" "f64_of_int b = Fin (of_int b)"
    using f64_of_i32 [of r] f64_of_i32 [of d] assms by (simp_all only:)
  have x: "0 \<le> ?x" "?x \<le> 2 ^ 0" using assms d by (simp_all add: divide_le_eq)
  note ranges = rnd_range [OF x, simplified] rnd_range [of "rnd ?x * 100" 7, simplified]
  have m: "?x \<in> set ladder_ratios" by (rule ratio_member [OF assms(1-3)])
  then have p: "fround (Fin (rnd (rnd ?x * 100))) = Fin (of_int \<lfloor>?x * 100 + 1 / 2\<rfloor>)"
    using ratio_percents unfolding list_all_iff by blast
  have q: "?x * 100 + 1 / 2 = of_int (200 * a + b) / of_int (2 * b)" using d by (simp add: field_simps)
  have fl: "\<lfloor>?x * 100 + 1 / 2\<rfloor> = (200 * a + b) div (2 * b)"
    unfolding q by (rule floor_divide_of_int_eq)
  have "0 \<le> (200 * a + b) div (2 * b)" using assms d by (intro pos_imp_zdiv_nonneg_iff [THEN iffD2]) simp_all
  moreover have "(200 * a + b) div (2 * b) \<le> 100"
    using zdiv_mono1 [of "200 * a + b" "201 * b" "2 * b"] assms d by simp
  ultimately have i: "int_of_f64 32 (Fin (of_int ((200 * a + b) div (2 * b)))) = (200 * a + b) div (2 * b)" by simp
  have "healthPercent r d = word_of_int (int_of_f64 32 (fround (Fin (rnd (rnd ?x * 100)))))"
    using ranges d assms(4,5) by (simp add: healthPercent_def f)
  also have "\<dots> = word_of_int ((200 * a + b) div (2 * b))" unfolding p fl i ..
  finally show ?thesis .
qed

section \<open>Properties of the status\<close>

text \<open>C26: For every Plant the schema admits (1 to 10 desired replicas) and every number of
  ready replicas up to that, the mood computed in float64 is the one exact arithmetic gives: leafy
  from 90 percent on, sprouting from 60, thirsty from 20, lost-a-leaf with any pod ready, and wilting
  exactly when none is; and the health percentage is the exact one rounded half up, between 0 and
  100.\<close>

theorem mood_ladder_exact:
  assumes "1 \<le> sint d" "sint d \<le> 10" "0 \<le> sint r" "sint r \<le> sint d"
  shows "moodFor r d = exact_mood (sint r) (sint d) \<and>
    (moodFor r d = MoodWilting \<longleftrightarrow> r = 0) \<and>
    healthPercent r d = word_of_int ((200 * sint r + sint d) div (2 * sint d))"
proof (cases "r = 0")
  case True
  obtain x where x: "f64_of_int (sint d) = Fin x" "x \<noteq> 0"
    using f64_of_i32 [of d] assms(1) by (metis not_one_le_zero of_int_eq_0_iff)
  have "f64_of_int 0 = Fin 0" "f64_of_rat 0 = Fin 0" by (simp_all add: f64_defs f64_eval Let_def)
  then have "healthPercent 0 d = 0" using x by (simp add: healthPercent_def trunc_def f64_eval)
  then show ?thesis using True assms(1)
    by (auto simp: moodFor_def exact_mood_def div_pos_pos_trivial)
next
  case False
  then have r: "0 < sint r" using assms(3) by (metis order_le_less sint_0 sint_eq_iff)
  let ?x = "of_int (sint r) / of_int (sint d) :: rat"
  have "?x \<in> set ladder_ratios" by (rule ratio_member [OF r assms(4,2)])
  then have "FromScore (clampScore (Fin (ratio_score ?x))) = mood_of_ratio ?x"
    using ratio_moods unfolding list_all_iff by blast
  moreover have "mood_of_ratio ?x = exact_mood (sint r) (sint d)"
    using mood_of_ratio_exact [of "sint r" "sint d"] r assms(1) by simp
  moreover have "moodFor r d = FromScore (clampScore (Fin (ratio_score ?x)))"
    by (rule moodFor_ratio [OF r assms(4)]) simp_all
  moreover have "exact_mood (sint r) (sint d) \<noteq> MoodWilting"
    using r by (simp add: exact_mood_def mood_defs)
  ultimately show ?thesis
    using healthPercent_ratio [OF r assms(4,2), of r d] False by simp
qed

theorem mood_ladder_exact_witness:
  "moodFor 9 10 = MoodLeafy \<and> healthPercent 1 8 = 13"
  using mood_ladder_exact [of 10 9] mood_ladder_exact [of 8 1] by (simp add: exact_mood_def)

subsection \<open>The conditions\<close>

lemma conditionsFor_cases:
  "\<exists>c1 c2 c3. conditionsFor ready desired dep g now = [c1, c2, c3] \<and>
     cType c1 = ConditionReady \<and> cType c2 = ConditionProgressing \<and> cType c3 = ConditionDegraded \<and>
     cStatus c1 = (if slt 0 desired \<and> ready = desired then CTrue else CFalse) \<and>
     cStatus c2 = (if sle (mGeneration (dMeta dep)) (dStatusObservedGeneration dep) \<and> ready = desired then CFalse else CTrue) \<and>
     cStatus c3 = (if ready = 0 \<and> slt 0 desired then CTrue else CFalse) \<and>
     cObservedGeneration c1 = g \<and> cObservedGeneration c2 = g \<and> cObservedGeneration c3 = g"
  by (simp add: conditionsFor_def Let_def)

lemma conditionsFor_table:
  "\<exists>c1 c2 c3. conditionsFor ready desired dep g now = [c1, c2, c3] \<and>
     cType c1 = ''Ready'' \<and> cType c2 = ''Progressing'' \<and> cType c3 = ''Degraded'' \<and>
     (cStatus c1, cReason c1) = (if slt 0 desired \<and> ready = desired
        then (CTrue, ''AllReplicasReady'') else (CFalse, ''ReplicasNotReady'')) \<and>
     (cStatus c2, cReason c2) = (if sle (mGeneration (dMeta dep)) (dStatusObservedGeneration dep) \<and> ready = desired
        then (CFalse, ''RolloutComplete'') else (CTrue, ''RolloutInProgress'')) \<and>
     (cStatus c3, cReason c3) = (if slt 0 desired \<and> ready = 0
        then (CTrue, ''InsufficientReplicas'') else (CFalse, ''PlantHealthy'')) \<and>
     cObservedGeneration c1 = g \<and> cObservedGeneration c2 = g \<and> cObservedGeneration c3 = g \<and>
     cLastTransitionTime c1 = now \<and> cLastTransitionTime c2 = now \<and> cLastTransitionTime c3 = now"
  by (simp add: conditionsFor_def condition_names ReasonAllReplicasReady_def ReasonReplicasNotReady_def
      ReasonRolloutInProgress_def ReasonRolloutComplete_def ReasonInsufficientReplicas_def ReasonPlantHealthy_def Let_def)

lemma conditionsFor_time:
  "conditionsFor ready desired dep g u =
     map (\<lambda>c. c\<lparr>cLastTransitionTime := u\<rparr>) (conditionsFor ready desired dep g t)"
  by (simp add: conditionsFor_def Let_def)

lemma types_distinct [simp]:
  "ConditionReady \<noteq> ConditionProgressing" "ConditionReady \<noteq> ConditionDegraded"
  "ConditionProgressing \<noteq> ConditionReady" "ConditionProgressing \<noteq> ConditionDegraded"
  "ConditionDegraded \<noteq> ConditionReady" "ConditionDegraded \<noteq> ConditionProgressing"
  by (simp_all add: condition_names)

context status_conditions begin

lemma fold_other: "t \<notin> cType ` set ns \<Longrightarrow> cond_of t (fold sc ns cs) = cond_of t cs"
  by (induction ns arbitrary: cs) (simp_all add: sc_other)

text \<open>After setting conditions of distinct types, each is found with what it was set to, its time
  apart, and the time is the old one where the status did not change.\<close>

lemma fold_lookup:
  assumes "distinct (map cType ns)" "c \<in> set ns"
  shows "cond_of (cType c) (fold sc ns cs) = Some (case cond_of (cType c) cs of
     None \<Rightarrow> c
   | Some old \<Rightarrow> if cStatus old = cStatus c then c\<lparr>cLastTransitionTime := cLastTransitionTime old\<rparr> else c)"
  using assms
proof (induction ns arbitrary: cs)
  case (Cons n ns)
  show ?case
  proof (cases "c = n")
    case True
    then have "cType c \<notin> cType ` set ns" using Cons.prems by simp
    then show ?thesis unfolding True by (simp add: fold_other sc_same)
  next
    case False
    then have "cType c \<noteq> cType n" using Cons.prems by (auto simp: image_iff)
    then show ?thesis using Cons False by (simp add: sc_other)
  qed
qed simp

lemma fold_lookup_time:
  assumes "distinct (map cType ns)" "c \<in> set ns"
  shows "\<exists>u. cond_of (cType c) (fold sc ns cs) = Some (c\<lparr>cLastTransitionTime := u\<rparr>)"
proof (cases "\<exists>old. cond_of (cType c) cs = Some old \<and> cStatus old = cStatus c")
  case True
  then show ?thesis using fold_lookup [OF assms, of cs] by auto
next
  case False
  then have "cond_of (cType c) (fold sc ns cs) = Some c"
    using fold_lookup [OF assms, of cs] by (auto split: option.splits)
  then show ?thesis by (intro exI [of _ "cLastTransitionTime c"]) simp
qed

lemma fold_idle:
  assumes "\<forall>c \<in> set ns. \<exists>old. cond_of (cType c) cs = Some old \<and> cStatus old = cStatus c \<and> cReason old = cReason c \<and>
      cMessage old = cMessage c \<and> cObservedGeneration old = cObservedGeneration c"
  shows "fold sc ns cs = cs"
  using assms
proof (induction ns)
  case (Cons n ns)
  then have "sc n cs = cs" by (auto intro: sc_idle)
  with Cons show ?case by simp
qed simp

lemma fold_again:
  assumes "distinct (map cType ns)"
  shows "fold sc (map (\<lambda>c. c\<lparr>cLastTransitionTime := u\<rparr>) ns) (fold sc ns cs) = fold sc ns cs"
proof (rule fold_idle, rule ballI)
  fix c assume "c \<in> set (map (\<lambda>c. c\<lparr>cLastTransitionTime := u\<rparr>) ns)"
  then obtain c0 where c: "c0 \<in> set ns" "c = c0\<lparr>cLastTransitionTime := u\<rparr>" by auto
  show "\<exists>old. cond_of (cType c) (fold sc ns cs) = Some old \<and> cStatus old = cStatus c \<and> cReason old = cReason c \<and>
      cMessage old = cMessage c \<and> cObservedGeneration old = cObservedGeneration c"
    using fold_lookup [OF assms c(1), of cs] c(2) by (auto split: option.splits)
qed

lemma conditionsFor_distinct: "distinct (map cType (conditionsFor ready desired dep g now))"
  using conditionsFor_cases [of ready desired dep g now] by auto

lemma computeStatus_again:
  "stConditions (computeStatus sc (p\<lparr>Status := computeStatus sc p dep t1 t2\<rparr>) dep t3 t4) =
     stConditions (computeStatus sc p dep t1 t2)"
  using fold_again [OF conditionsFor_distinct, of t4 "dStatusReadyReplicas dep" "desiredReplicas p" dep
      "mGeneration (pMeta p)" t2 "stConditions (Status p)"]
    conditionsFor_time [of "dStatusReadyReplicas dep" "desiredReplicas p" dep "mGeneration (pMeta p)" t4 t2]
  by (simp add: computeStatus_def desiredReplicas_def Let_def)

end


text \<open>C27: The three conditions of a computed status follow the conditions table for whatever
  conditions the Plant carried before. Ready is True with AllReplicasReady when replicas are desired and
  all are ready, else False with ReplicasNotReady. Progressing is False with RolloutComplete when the
  Deployment's generation is observed and the ready count is the desired one, else True with
  RolloutInProgress. Degraded is True with InsufficientReplicas when replicas are desired and none is
  ready, else False with PlantHealthy. All three name the Plant's generation and keep their transition
  time unless their status changes; Ready and Degraded are never both True, and a condition of any other
  type is kept as it was.\<close>

theorem conditions_table:
  assumes "status_conditions sc"
  shows "let cs = stConditions (computeStatus sc p dep t1 t2); before = stConditions (Status p);
      ready = dStatusReadyReplicas dep; desired = desiredReplicas p; g = mGeneration (pMeta p);
      observed = sle (mGeneration (dMeta dep)) (dStatusObservedGeneration dep);
      row = (\<lambda>ty. map_option (\<lambda>c. (cStatus c, cReason c, cObservedGeneration c)) (cond_of ty cs)) in
    row ''Ready'' = Some (if slt 0 desired \<and> ready = desired
       then (CTrue, ''AllReplicasReady'', g) else (CFalse, ''ReplicasNotReady'', g)) \<and>
    row ''Progressing'' = Some (if observed \<and> ready = desired
       then (CFalse, ''RolloutComplete'', g) else (CTrue, ''RolloutInProgress'', g)) \<and>
    row ''Degraded'' = Some (if slt 0 desired \<and> ready = 0
       then (CTrue, ''InsufficientReplicas'', g) else (CFalse, ''PlantHealthy'', g)) \<and>
    \<not> (conditionTrue cs ConditionReady \<and> conditionTrue cs ConditionDegraded) \<and>
    (\<forall>ty \<in> {''Ready'', ''Progressing'', ''Degraded''}. \<exists>c. cond_of ty cs = Some c \<and>
       cLastTransitionTime c = (case cond_of ty before of
          None \<Rightarrow> t2
        | Some old \<Rightarrow> if cStatus old = cStatus c then cLastTransitionTime old else t2)) \<and>
    (\<forall>ty. ty \<notin> {''Ready'', ''Progressing'', ''Degraded''} \<longrightarrow> cond_of ty cs = cond_of ty before)"
proof -
  let ?ready = "dStatusReadyReplicas dep" and ?desired = "desiredReplicas p" and ?g = "mGeneration (pMeta p)"
  let ?ns = "conditionsFor ?ready ?desired dep ?g t2" and ?before = "stConditions (Status p)"
  obtain c1 c2 c3 where c: "?ns = [c1, c2, c3]"
    "cType c1 = ''Ready''" "cType c2 = ''Progressing''" "cType c3 = ''Degraded''"
    "(cStatus c1, cReason c1) = (if slt 0 ?desired \<and> ?ready = ?desired then (CTrue, ''AllReplicasReady'') else (CFalse, ''ReplicasNotReady''))"
    "(cStatus c2, cReason c2) = (if sle (mGeneration (dMeta dep)) (dStatusObservedGeneration dep) \<and> ?ready = ?desired
       then (CFalse, ''RolloutComplete'') else (CTrue, ''RolloutInProgress''))"
    "(cStatus c3, cReason c3) = (if slt 0 ?desired \<and> ?ready = 0 then (CTrue, ''InsufficientReplicas'') else (CFalse, ''PlantHealthy''))"
    and g: "cObservedGeneration c1 = ?g" "cObservedGeneration c2 = ?g" "cObservedGeneration c3 = ?g"
    and t: "cLastTransitionTime c1 = t2" "cLastTransitionTime c2 = t2" "cLastTransitionTime c3 = t2"
    using conditionsFor_table [of ?ready ?desired dep ?g t2] by (elim exE conjE) (rule that; assumption)
  let ?cs = "fold sc ?ns ?before"
  have l: "\<exists>u. cond_of (cType c) ?cs = Some (c\<lparr>cLastTransitionTime := u\<rparr>) \<and>
      u = (case cond_of (cType c) ?before of None \<Rightarrow> t2 | Some old \<Rightarrow> if cStatus old = cStatus c then cLastTransitionTime old else t2)"
    if m: "c \<in> set ?ns" and tc: "cLastTransitionTime c = t2" for c
    using status_conditions.fold_lookup [OF assms status_conditions.conditionsFor_distinct [OF assms] m, of ?before] tc
    by (cases "cond_of (cType c) ?before") auto
  have m: "c1 \<in> set ?ns" "c2 \<in> set ?ns" "c3 \<in> set ?ns" unfolding c(1) by simp_all
  note look = l [OF m(1) t(1), unfolded c(2)] l [OF m(2) t(2), unfolded c(3)] l [OF m(3) t(3), unfolded c(4)]
  obtain u1 u2 u3 where u: "cond_of ''Ready'' ?cs = Some (c1\<lparr>cLastTransitionTime := u1\<rparr>)"
    "cond_of ''Progressing'' ?cs = Some (c2\<lparr>cLastTransitionTime := u2\<rparr>)"
    "cond_of ''Degraded'' ?cs = Some (c3\<lparr>cLastTransitionTime := u3\<rparr>)" using look by blast
  have other: "cond_of ty ?cs = cond_of ty ?before" if "ty \<notin> {''Ready'', ''Progressing'', ''Degraded''}" for ty
    using that by (intro status_conditions.fold_other [OF assms]) (simp add: c(1-4))
  have time: "\<exists>c. cond_of ty ?cs = Some c \<and> cLastTransitionTime c = (case cond_of ty ?before of
      None \<Rightarrow> t2 | Some old \<Rightarrow> if cStatus old = cStatus c then cLastTransitionTime old else t2)"
    if "ty \<in> {''Ready'', ''Progressing'', ''Degraded''}" for ty
    using that look by (elim insertE emptyE) (auto split: option.splits)
  have cs: "stConditions (computeStatus sc p dep t1 t2) = ?cs" by (simp add: computeStatus_def Let_def)
  show ?thesis unfolding cs Let_def conditionTrue_def
  proof (intro conjI ballI)
    show "\<exists>c. cond_of ty ?cs = Some c \<and> cLastTransitionTime c = (case cond_of ty ?before of
      None \<Rightarrow> t2 | Some old \<Rightarrow> if cStatus old = cStatus c then cLastTransitionTime old else t2)"
      if "ty \<in> {''Ready'', ''Progressing'', ''Degraded''}" for ty using that by (rule time)
  qed (use c(5-7) g in \<open>auto simp: u other condition_names split: if_splits\<close>)
qed

theorem conditions_table_witness:
  "map_option (\<lambda>c. (cStatus c, cReason c, cObservedGeneration c)) (cond_of ''Ready'' (stConditions
     (computeStatus set_condition demo_plant ((DeploymentFor demo_plant)\<lparr>dStatusReadyReplicas := 3\<rparr>) 5 6))) =
   Some (CTrue, ''AllReplicasReady'', mGeneration (pMeta demo_plant))"
proof -
  have "slt 0 (desiredReplicas demo_plant) \<and> dStatusReadyReplicas ((DeploymentFor demo_plant)\<lparr>dStatusReadyReplicas := 3\<rparr>) = desiredReplicas demo_plant"
    by (simp add: desiredReplicas_def demo_plant_def)
  then show ?thesis
    using conditions_table [OF conditions.status_conditions_axioms, of demo_plant
        "(DeploymentFor demo_plant)\<lparr>dStatusReadyReplicas := 3\<rparr>" 5 6]
    unfolding Let_def by (elim conjE) (simp only: if_True simp_thms)
qed

text \<open>C7: A status the operator has written is not written again: recomputing it from the
  same Plant, carrying that status, and the same Deployment, at any later times, differs in
  LastWatered only, which the comparison ignores. A change of the mood, the counts or the observed
  generation is always seen.\<close>

theorem status_settles:
  assumes "status_conditions sc" and s1: "s1 = computeStatus sc p dep t1 t2"
  shows "\<not> statusChanged s1 (computeStatus sc (p\<lparr>Status := s1\<rparr>) dep t3 t4) \<and>
    (\<forall>old new. statusChanged old new \<longleftrightarrow>
       (stMood old, stHealthPercent old, stReadyReplicas old, stDesiredReplicas old, stObservedGeneration old,
        stConditions old) \<noteq>
       (stMood new, stHealthPercent new, stReadyReplicas new, stDesiredReplicas new, stObservedGeneration new,
        stConditions new))"
proof -
  have eq: "statusChanged old new \<longleftrightarrow>
       (stMood old, stHealthPercent old, stReadyReplicas old, stDesiredReplicas old, stObservedGeneration old,
        stConditions old) \<noteq>
       (stMood new, stHealthPercent new, stReadyReplicas new, stDesiredReplicas new, stObservedGeneration new,
        stConditions new)" for old new
    by (cases old; cases new) (auto simp: statusChanged_def)
  have "stConditions (computeStatus sc (p\<lparr>Status := s1\<rparr>) dep t3 t4) = stConditions s1"
    using status_conditions.computeStatus_again [OF assms(1)] by (simp add: s1)
  then show ?thesis unfolding eq by (simp add: s1 computeStatus_def desiredReplicas_def Let_def)
qed

theorem status_settles_witness:
  "\<not> statusChanged (computeStatus set_condition demo_plant (DeploymentFor demo_plant) 5 6)
     (computeStatus set_condition
        (demo_plant\<lparr>Status := computeStatus set_condition demo_plant (DeploymentFor demo_plant) 5 6\<rparr>)
        (DeploymentFor demo_plant) 70 71)"
  using status_settles [OF conditions.status_conditions_axioms refl] by blast

end
