(* ===== verification/GoParse.thy ===== *)
theory GoParse
  imports GoStd GoFloat
begin

text \<open>
  What the programs use of Go's standard library to parse their environment:
  \<^verbatim>\<open>time.ParseDuration\<close>, \<^verbatim>\<open>strconv.Atoi\<close>,
  \<^verbatim>\<open>strconv.ParseFloat\<close> and \<^verbatim>\<open>strings.ToLower\<close> as far as a comparison
  with lower-case ASCII words sees it. A syntax or range error is \<open>None\<close>.
\<close>

section \<open>Digits\<close>

definition is_digit :: "char \<Rightarrow> bool" where
  "is_digit c \<longleftrightarrow> c \<in> set ''0123456789''"

definition digit_val :: "char \<Rightarrow> nat" where
  "digit_val c = (of_char c :: nat) - 48"

section \<open>time.ParseDuration\<close>

text \<open>\<^verbatim>\<open>leadingInt\<close>: the digits at the start as an unsigned 64-bit number of at most
  \<open>2 ^ 63\<close>, and the rest.\<close>

fun leadingInt :: "nat \<Rightarrow> string \<Rightarrow> (nat \<times> string) option" where
  "leadingInt x [] = Some (x, [])"
| "leadingInt x (c # s) =
     (if \<not> is_digit c then Some (x, c # s)
      else if 2 ^ 63 div 10 < x then None
      else (let y = x * 10 + digit_val c in if 2 ^ 63 < y then None else leadingInt y s))"

text \<open>\<^verbatim>\<open>leadingFraction\<close>: the digits as a number, the power of ten that scales it, and
  the rest; digits that no longer fit are dropped.\<close>

fun leadingFraction :: "nat \<Rightarrow> nat \<Rightarrow> bool \<Rightarrow> string \<Rightarrow> nat \<times> nat \<times> string" where
  "leadingFraction x k overflow [] = (x, k, [])"
| "leadingFraction x k overflow (c # s) =
     (if \<not> is_digit c then (x, k, c # s)
      else if overflow then leadingFraction x k True s
      else if (2 ^ 63 - 1) div 10 < x then leadingFraction x k True s
      else (let y = x * 10 + digit_val c in
        if 2 ^ 63 < y then leadingFraction x k True s else leadingFraction y (Suc k) False s))"

definition unitMap :: "string \<Rightarrow> nat option" where
  "unitMap u =
     (if u = ''ns'' then Some 1
      else if u = ''us'' \<or> u = micro_sign @ ''s'' \<or> u = [CHR 0xCE, CHR 0xBC] @ ''s'' then Some 1000
      else if u = ''ms'' then Some 1000000
      else if u = ''s'' then Some 1000000000
      else if u = ''m'' then Some 60000000000
      else if u = ''h'' then Some 3600000000000
      else None)"

text \<open>\<open>fraction_value f k unit\<close>: \<^verbatim>\<open>uint64(float64(f) * (float64(unit) / scale))\<close>,
  with the scale \<open>10 ^ k\<close> (at most 19 digits, so it is exact).\<close>

definition fraction_value :: "nat \<Rightarrow> nat \<Rightarrow> nat \<Rightarrow> nat" where
  "fraction_value f k unit =
     (case fmul (f64_of_int (int f)) (fdiv (f64_of_int (int unit)) (Fin (10 ^ k))) of
        Fin r \<Rightarrow> nat \<lfloor>r\<rfloor> | _ \<Rightarrow> 0)"

definition take_unit :: "string \<Rightarrow> string" where
  "take_unit s = takeWhile (\<lambda>c. c \<noteq> CHR ''.'' \<and> \<not> is_digit c) s"

text \<open>One number with its unit: its nanoseconds and the rest.\<close>

definition duration_term :: "string \<Rightarrow> (nat \<times> string) option" where
  "duration_term s =
     (case s of
        [] \<Rightarrow> None
      | c # cs \<Rightarrow>
          if \<not> (c = CHR ''.'' \<or> is_digit c) then None
          else (case leadingInt 0 s of
              None \<Rightarrow> None
            | Some (v, s1) \<Rightarrow>
                (let pre = (length s1 \<noteq> length s);
                     (f, k, s2) = (case s1 of
                         [] \<Rightarrow> (0, 0, s1)
                       | d # ds \<Rightarrow> if d = CHR ''.'' then leadingFraction 0 0 False ds else (0, 0, s1));
                     post = (case s1 of [] \<Rightarrow> False | d # ds \<Rightarrow> d = CHR ''.'' \<and> length s2 \<noteq> length ds);
                     u = take_unit s2
                 in if \<not> pre \<and> \<not> post then None
                    else if u = [] then None
                    else (case unitMap u of
                        None \<Rightarrow> None
                      | Some unit \<Rightarrow>
                          if 2 ^ 63 div unit < v then None
                          else (let w = v * unit;
                                    w' = (if 0 < f then w + fraction_value f k unit else w)
                                in if 0 < f \<and> 2 ^ 63 < w' then None else Some (w', drop (length u) s2))))))"

lemma leadingInt_length: "leadingInt x s = Some (v, r) \<Longrightarrow> length r \<le> length s"
  by (induction x s rule: leadingInt.induct) (auto split: if_splits simp: Let_def)

lemma leadingFraction_length: "leadingFraction x k ov s = (f, k', r) \<Longrightarrow> length r \<le> length s"
proof (induction x k ov s rule: leadingFraction.induct)
  case (2 x k ov c s)
  then show ?case by (auto split: if_splits simp: Let_def le_Suc_eq)
qed simp

lemma duration_term_shorter:
  assumes "duration_term s = Some (w, r)" shows "length r < length s"
proof -
  obtain c cs where s: "s = c # cs" using assms by (cases s) (auto simp: duration_term_def)
  obtain v s1 where 1: "leadingInt 0 s = Some (v, s1)"
    using assms s by (auto simp: duration_term_def split: if_splits option.splits)
  obtain f k s2 where 2: "(case s1 of [] \<Rightarrow> (0, 0, s1)
      | d # ds \<Rightarrow> if d = CHR ''.'' then leadingFraction 0 0 False ds else (0, 0, s1)) = (f, k, s2)"
    by (metis surj_pair)
  have l2: "length s2 \<le> length s1"
    using 2 leadingFraction_length by (auto split: list.splits if_splits dest!: leadingFraction_length)
  have "take_unit s2 \<noteq> []" "r = drop (length (take_unit s2)) s2"
    using assms 1 2 unfolding duration_term_def s
    by (auto simp: Let_def split: if_splits option.splits)
  moreover have "length (take_unit s2) \<le> length s2" by (simp add: take_unit_def length_takeWhile_le)
  ultimately have "length r < length s2" by (cases "take_unit s2") auto
  then show ?thesis using leadingInt_length [OF 1] l2 by linarith
qed

text \<open>The terms are summed up in 64 bits.\<close>

function duration_terms :: "nat \<Rightarrow> string \<Rightarrow> nat option" where
  "duration_terms d s =
     (if s = [] then Some d
      else (case duration_term s of
          None \<Rightarrow> None
        | Some (v, r) \<Rightarrow> (let e = (d + v) mod 2 ^ 64 in if 2 ^ 63 < e then None else duration_terms e r)))"
  by pat_completeness auto
termination
  by (relation "measure (\<lambda>(d, s). length s)") (auto dest: duration_term_shorter)

declare duration_terms.simps [simp del]

definition ParseDuration :: "string \<Rightarrow> duration option" where
  "ParseDuration orig =
     (let (neg, s) = (case orig of
            [] \<Rightarrow> (False, orig)
          | c # cs \<Rightarrow> if c = CHR ''-'' \<or> c = CHR ''+'' then (c = CHR ''-'', cs) else (False, orig))
      in if s = ''0'' then Some 0
         else if s = [] then None
         else (case duration_terms 0 s of
             None \<Rightarrow> None
           | Some d \<Rightarrow> if neg then Some (word_of_int (- int d))
                       else if 2 ^ 63 - 1 < d then None else Some (word_of_int (int d))))"

section \<open>A duration that is printed is parsed back\<close>

definition dval :: "nat \<Rightarrow> string \<Rightarrow> nat" where
  "dval x ds = foldl (\<lambda>a c. a * 10 + digit_val c) x ds"

lemma dval_simps [simp]: "dval x [] = x" "dval x (c # cs) = dval (x * 10 + digit_val c) cs" "dval x (a @ b) = dval (dval x a) b"
  by (simp_all add: dval_def)

lemma dval_split: "dval x ds = x * 10 ^ length ds + dval 0 ds"
proof (induction ds arbitrary: x)
  case (Cons c cs)
  show ?case using Cons [of "x * 10 + digit_val c"] Cons [of "digit_val c"] by (simp add: algebra_simps)
qed simp

lemma digit_props: "n < 10 \<Longrightarrow> is_digit (digit n) \<and> digit_val (digit n) = n"
proof -
  assume "n < 10"
  then have "n \<in> {0, 1, 2, 3, 4, 5, 6, 7, 8, 9}" by auto
  then show ?thesis by (elim insertE emptyE) (simp_all add: is_digit_def digit_def digit_val_def)
qed

lemma is_digit_val: "is_digit c \<Longrightarrow> digit_val c < 10"
  by (auto simp: is_digit_def digit_val_def)

lemma dval_less: "list_all is_digit ds \<Longrightarrow> dval 0 ds < 10 ^ length ds"
proof (induction ds rule: rev_induct)
  case (snoc c cs)
  then show ?case using is_digit_val [of c] by simp
qed simp

lemma dec_digits: "list_all is_digit (dec n) \<and> dval 0 (dec n) = n"
proof (induction n rule: dec.induct)
  case (1 n)
  show ?case
  proof (cases "n < 10")
    case True
    then show ?thesis using digit_props [of n] by (simp add: dec_small)
  next
    case False
    then show ?thesis using 1 digit_props [of "n mod 10"] by (simp add: dec_big)
  qed
qed

lemma leadingInt_digits:
  "list_all is_digit ds \<Longrightarrow> dval x ds \<le> 2 ^ 63 \<Longrightarrow> leadingInt x (ds @ rest) = leadingInt (dval x ds) rest"
proof (induction ds arbitrary: x)
  case (Cons c cs)
  have "x * 10 + digit_val c \<le> dval (x * 10 + digit_val c) cs"
    unfolding dval_split [of "x * 10 + digit_val c"] by (simp add: trans_le_add1)
  then have b: "x * 10 + digit_val c \<le> 2 ^ 63" using Cons.prems(2) by simp
  then have "x \<le> 2 ^ 63 div 10" by simp
  then show ?case using Cons b by (simp add: Let_def)
qed simp

definition stops :: "string \<Rightarrow> bool" where
  "stops s \<longleftrightarrow> s = [] \<or> \<not> is_digit (hd s)"

lemma leadingInt_dec: "n \<le> 2 ^ 63 \<Longrightarrow> stops rest \<Longrightarrow> leadingInt 0 (dec n @ rest) = Some (n, rest)"
  using dec_digits [of n] leadingInt_digits [of "dec n" 0 rest] by (cases rest) (auto simp: stops_def)

lemma leadingFraction_digits:
  "list_all is_digit ds \<Longrightarrow> stops rest \<Longrightarrow> x < 10 ^ k \<Longrightarrow> k + length ds \<le> 9 \<Longrightarrow>
     leadingFraction x k False (ds @ rest) = (dval x ds, k + length ds, rest)"
proof (induction ds arbitrary: x k)
  case Nil
  then show ?case by (cases rest) (auto simp: stops_def)
next
  case (Cons c cs)
  have d: "digit_val c < 10" using Cons.prems(1) is_digit_val by simp
  have "(10 :: nat) ^ k \<le> 10 ^ 9" using Cons.prems(4) by (intro power_increasing) simp_all
  then have x: "x < 10 ^ 9" using Cons.prems(3) by linarith
  then have n: "\<not> (2 ^ 63 - 1) div 10 < x" "\<not> 2 ^ 63 < x * 10 + digit_val c" using d by simp_all
  have "x * 10 + digit_val c < 10 ^ Suc k" using Cons.prems(3) d by simp
  then show ?case using Cons.IH [of "x * 10 + digit_val c" "Suc k"] Cons.prems n by (simp add: Let_def)
qed

lemma frac_digits_spec:
  assumes "list_all is_digit acc"
  shows "\<exists>ds. frac_digits k v acc = (if ds = [] then [] else CHR ''.'' # ds) \<and> list_all is_digit ds \<and>
    length ds \<le> k + length acc \<and>
    dval 0 ds * 10 ^ (k + length acc - length ds) = (v mod 10 ^ k) * 10 ^ length acc + dval 0 acc"
  using assms
proof (induction k arbitrary: v acc)
  case 0
  then show ?case by (intro exI [of _ acc]) simp
next
  case (Suc k)
  have m: "v mod 10 ^ Suc k = 10 * (v div 10 mod 10 ^ k) + v mod 10"
    using mod_mult2_eq [of v 10 "10 ^ k"] by simp
  show ?case
  proof (cases "acc = [] \<and> v mod 10 = 0")
    case True
    obtain ds where ds: "frac_digits k (v div 10) [] = (if ds = [] then [] else CHR ''.'' # ds)" "list_all is_digit ds"
      "length ds \<le> k" "dval 0 ds * 10 ^ (k - length ds) = v div 10 mod 10 ^ k"
      using Suc.IH [of "[]" "v div 10"] by auto
    have "dval 0 ds * 10 ^ (Suc k - length ds) = v mod 10 ^ Suc k"
      using ds(3,4) m True by (simp add: Suc_diff_le)
    then show ?thesis using ds True by (intro exI [of _ ds]) simp
  next
    case False
    let ?a = "digit (v mod 10) # acc"
    have d: "is_digit (digit (v mod 10))" "digit_val (digit (v mod 10)) = v mod 10" using digit_props [of "v mod 10"] by simp_all
    then obtain ds where ds: "frac_digits k (v div 10) ?a = (if ds = [] then [] else CHR ''.'' # ds)" "list_all is_digit ds"
      "length ds \<le> k + length ?a"
      "dval 0 ds * 10 ^ (k + length ?a - length ds) = (v div 10 mod 10 ^ k) * 10 ^ length ?a + dval 0 ?a"
      using Suc.IH [of ?a "v div 10"] Suc.prems by auto
    have "(v div 10 mod 10 ^ k) * 10 ^ length ?a + dval 0 ?a = (v mod 10 ^ Suc k) * 10 ^ length acc + dval 0 acc"
      unfolding m using dval_split [of "v mod 10" acc] d by (simp add: algebra_simps)
    then show ?thesis using ds False by (intro exI [of _ ds]) auto
  qed
qed

lemma fraction_value_exact:
  assumes "k \<le> p" "p \<le> 9" "f < 10 ^ k"
  shows "fraction_value f k (10 ^ p) = f * 10 ^ (p - k)"
proof -
  have p: "(10 :: nat) ^ p \<le> 10 ^ 9" "(10 :: nat) ^ k \<le> 10 ^ 9" using assms by (intro power_increasing; simp)+
  have e: "(10 :: nat) ^ p = 10 ^ (p - k) * 10 ^ k" using assms(1) by (simp flip: power_add)
  have "f * 10 ^ (p - k) \<le> 10 ^ p" unfolding e using assms(3) by simp
  then have fb: "f * 10 ^ (p - k) \<le> 10 ^ 9" using p(1) by (rule order_trans)
  have x: "f64_of_int (int n) = Fin (of_nat n)" if "n \<le> 10 ^ 9" for n
    using f64_of_int_exact [of "int n"] that by simp
  have f9: "f \<le> 10 ^ 9" using assms(3) p by linarith
  have q: "(10 :: nat) ^ (p - k) \<le> 10 ^ 9" using assms by (intro power_increasing) simp_all
  have d: "of_nat (10 ^ p) / (10 :: rat) ^ k = of_nat (10 ^ (p - k))" unfolding e by simp
  have 1: "fdiv (f64_of_int (int (10 ^ p))) (Fin (10 ^ k)) = Fin (of_nat (10 ^ (p - k)))"
    using x [OF p(1)] x [OF q] d by (simp only: fdiv.simps) (simp add: f64_of_int_def)
  have 2: "fmul (f64_of_int (int f)) (Fin (of_nat (10 ^ (p - k)))) = Fin (of_nat (f * 10 ^ (p - k)))"
    using x [OF f9] x [OF fb] by (simp only: fmul.simps) (simp add: f64_of_int_def)
  show ?thesis unfolding fraction_value_def 1 2 f64.case by (simp only: floor_of_nat nat_int)
qed

text \<open>A whole number with a unit, and a number with a fraction of at most the unit's digits.\<close>

definition unit_name :: "string \<Rightarrow> bool" where
  "unit_name u \<longleftrightarrow> u \<noteq> [] \<and> list_all (\<lambda>c. c \<noteq> CHR ''.'' \<and> \<not> is_digit c) u"

lemma take_unit_name: "unit_name u \<Longrightarrow> rest = [] \<or> is_digit (hd rest) \<Longrightarrow> take_unit (u @ rest) = u"
  by (cases rest) (auto simp: unit_name_def take_unit_def list_all_iff takeWhile_append)

lemma unit_stops: "unit_name u \<Longrightarrow> stops (u @ rest)" "unit_name u \<Longrightarrow> hd (u @ rest) \<noteq> CHR ''.''" "unit_name u \<Longrightarrow> u @ rest \<noteq> []"
  by (cases u; auto simp: unit_name_def stops_def)+

lemma dec_cons: "\<exists>c cs. dec n = c # cs \<and> is_digit c"
  using dec_digits [of n] dec_nonempty [of n] by (cases "dec n") auto

lemma duration_term_whole:
  assumes "unitMap u = Some unit" "unit_name u" "rest = [] \<or> is_digit (hd rest)" "0 < unit" "n * unit \<le> 2 ^ 63"
  shows "duration_term (dec n @ u @ rest) = Some (n * unit, rest)"
proof -
  obtain c cs where c: "dec n = c # cs" "is_digit c" using dec_cons by blast
  have n: "n \<le> 2 ^ 63 div unit" using assms(4,5) by (simp add: less_eq_div_iff_mult_less_eq)
  have "n \<le> n * unit" using assms(4) by simp
  then have "n \<le> 2 ^ 63" using assms(5) by (rule order_trans)
  then have l: "leadingInt 0 (dec n @ u @ rest) = Some (n, u @ rest)" using unit_stops(1) [OF assms(2)] by (rule leadingInt_dec)
  obtain d ds where d: "u @ rest = d # ds" "d \<noteq> CHR ''.''" using unit_stops(2,3) [OF assms(2), of rest] by (cases "u @ rest") auto
  have t: "take_unit (d # ds) = u" using take_unit_name [OF assms(2,3)] unfolding d(1) .
  have r: "drop (length u) (d # ds) = rest" unfolding d(1) [symmetric] by simp
  have "length (dec n @ d # ds) \<noteq> length (d # ds)" using dec_nonempty [of n] by simp
  then show ?thesis using l t r n assms(1,2) c unfolding d(1)
    by (simp add: duration_term_def Let_def d(2) unit_name_def)
qed

lemma duration_term_fraction:
  assumes "unitMap u = Some (10 ^ p)" "unit_name u" "rest = [] \<or> is_digit (hd rest)" "p \<le> 9"
    "n * 10 ^ p + v mod 10 ^ p \<le> 2 ^ 63"
  shows "duration_term (dec n @ frac_digits p v [] @ u @ rest) = Some (n * 10 ^ p + v mod 10 ^ p, rest)"
proof -
  obtain ds where ds: "frac_digits p v [] = (if ds = [] then [] else CHR ''.'' # ds)" "list_all is_digit ds"
    "length ds \<le> p" "dval 0 ds * 10 ^ (p - length ds) = v mod 10 ^ p"
    using frac_digits_spec [of "[]" p v] by auto
  show ?thesis
  proof (cases "ds = []")
    case True
    then have "v mod 10 ^ p = 0" using ds(4) by simp
    then show ?thesis using duration_term_whole [OF assms(1-3), of n] assms(5) ds(1) True by simp
  next
    case False
    obtain c cs where c: "dec n = c # cs" "is_digit c" using dec_cons by blast
    have n: "n * 10 ^ p \<le> 2 ^ 63" using assms(5) by linarith
    then have n1: "n \<le> 2 ^ 63 div 10 ^ p" by (simp add: less_eq_div_iff_mult_less_eq)
    have "n \<le> n * 10 ^ p" by simp
    then have "n \<le> 2 ^ 63" using n by linarith
    moreover have "stops (CHR ''.'' # ds @ u @ rest)" by (simp add: stops_def is_digit_def)
    ultimately have l: "leadingInt 0 (dec n @ CHR ''.'' # ds @ u @ rest) = Some (n, CHR ''.'' # ds @ u @ rest)"
      by (rule leadingInt_dec)
    have f: "leadingFraction 0 0 False (ds @ u @ rest) = (dval 0 ds, length ds, u @ rest)"
      using leadingFraction_digits [OF ds(2) unit_stops(1) [OF assms(2)], of 0 0 rest] ds(3) assms(4) by simp
    have w: "fraction_value (dval 0 ds) (length ds) (10 ^ p) = v mod 10 ^ p"
      using fraction_value_exact [OF ds(3) assms(4) dval_less [OF ds(2)]] ds(4) by simp
    have t: "take_unit (u @ rest) = u" by (rule take_unit_name [OF assms(2,3)])
    have z: "v mod 10 ^ p = 0" if "dval 0 ds = 0" using ds(4) that by simp
    have "length (dec n @ CHR ''.'' # ds @ u @ rest) \<noteq> length (CHR ''.'' # ds @ u @ rest)" using dec_nonempty [of n] by simp
    then show ?thesis using l f w t n1 assms(1,2,5) c ds(1) False z
      by (simp add: duration_term_def Let_def unit_name_def)
  qed
qed

lemma duration_terms_step:
  "duration_term s = Some (v, r) \<Longrightarrow> d + v \<le> 2 ^ 63 \<Longrightarrow> duration_terms d s = duration_terms (d + v) r"
  by (subst duration_terms.simps) (auto simp: Let_def duration_term_def)

lemma duration_terms_end [simp]: "duration_terms d [] = Some d"
  by (simp add: duration_terms.simps)

lemma units:
  "unitMap ''ns'' = Some 1" "unitMap (micro_sign @ ''s'') = Some (10 ^ 3)" "unitMap ''ms'' = Some (10 ^ 6)"
  "unitMap ''s'' = Some (10 ^ 9)" "unitMap ''m'' = Some 60000000000" "unitMap ''h'' = Some 3600000000000"
  "unit_name ''ns''" "unit_name (micro_sign @ ''s'')" "unit_name ''ms''" "unit_name ''s''" "unit_name ''m''" "unit_name ''h''"
  by (simp_all add: unitMap_def micro_sign_def unit_name_def is_digit_def)

lemma dec_hd: "is_digit (hd (dec n @ s))"
  using dec_cons [of n] by auto

lemma seconds_term:
  assumes "d + n * 10 ^ 9 + u mod 10 ^ 9 \<le> 2 ^ 63"
  shows "duration_terms d (dec n @ frac_digits 9 u [] @ ''s'') = Some (d + n * 10 ^ 9 + u mod 10 ^ 9)"
proof -
  have "duration_term (dec n @ frac_digits 9 u [] @ ''s'' @ []) = Some (n * 10 ^ 9 + u mod 10 ^ 9, [])"
    by (rule duration_term_fraction [OF units(4,10)]) (use assms in simp_all)
  then have "duration_terms d (dec n @ frac_digits 9 u [] @ ''s'' @ []) = duration_terms (d + (n * 10 ^ 9 + u mod 10 ^ 9)) []"
    by (rule duration_terms_step) (use assms in simp)
  then show ?thesis by (simp add: add.assoc)
qed

lemma whole_term:
  assumes "unitMap un = Some unit" "unit_name un" "0 < unit" "d + n * unit \<le> 2 ^ 63" "rest = [] \<or> is_digit (hd rest)"
  shows "duration_terms d (dec n @ un @ rest) = duration_terms (d + n * unit) rest"
  using duration_terms_step [OF duration_term_whole [OF assms(1,2,5,3)]] assms(4) by simp

lemma fraction_term:
  assumes "unitMap un = Some (10 ^ p)" "unit_name un" "p \<le> 9" "u \<le> 2 ^ 63"
  shows "duration_terms 0 (dec (u div 10 ^ p) @ frac_digits p u [] @ un) = Some u"
proof -
  have e: "u div 10 ^ p * 10 ^ p + u mod 10 ^ p = u" by (rule div_mult_mod_eq)
  have "duration_term (dec (u div 10 ^ p) @ frac_digits p u [] @ un @ []) = Some (u div 10 ^ p * 10 ^ p + u mod 10 ^ p, [])"
    by (rule duration_term_fraction [OF assms(1,2) _ assms(3)]) (use assms(4) e in simp_all)
  then have "duration_term (dec (u div 10 ^ p) @ frac_digits p u [] @ un) = Some (u, [])" unfolding e by simp
  then show ?thesis using duration_terms_step [of _ u "[]" 0] assms(4) by simp
qed

lemma hms_terms:
  assumes u: "h * 3600000000000 + m * 60000000000 + n * 1000000000 + u mod 1000000000 = u" "u \<le> 2 ^ 63"
    and z: "\<not> sm \<Longrightarrow> m = 0" "0 < h \<Longrightarrow> sm"
  shows "duration_terms 0 ((if 0 < h then dec h @ ''h'' else []) @ (if sm then dec m @ ''m'' else []) @
    dec n @ frac_digits 9 u [] @ ''s'') = Some u"
proof -
  let ?S = "dec n @ frac_digits 9 u [] @ ''s''"
  let ?M = "(if sm then dec m @ ''m'' else []) @ ?S"
  have S: "duration_terms (h * 3600000000000 + m * 60000000000) ?S = Some u"
    using seconds_term [of "h * 3600000000000 + m * 60000000000" n u] u by simp
  have M: "duration_terms (h * 3600000000000) ?M = Some u"
  proof (cases sm)
    case True
    have "duration_terms (h * 3600000000000) (dec m @ ''m'' @ ?S) = duration_terms (h * 3600000000000 + m * 60000000000) ?S"
      by (rule whole_term [OF units(5,11)]) (use u dec_hd in simp_all)
    then show ?thesis using S True by simp
  next
    case False
    then show ?thesis using S z(1) by simp
  qed
  show ?thesis
  proof (cases "0 < h")
    case True
    have "duration_terms 0 (dec h @ ''h'' @ ?M) = duration_terms (0 + h * 3600000000000) ?M"
      by (rule whole_term [OF units(6,12)]) (use u z(2) True dec_hd in simp_all)
    then show ?thesis using M True by simp
  next
    case False
    then show ?thesis using M by simp
  qed
qed

lemma hms_sum:
  "h * 60 + m = (M :: nat) \<Longrightarrow> M * 60 + n = S \<Longrightarrow> S * 1000000000 + f = u \<Longrightarrow>
     h * 3600000000000 + m * 60000000000 + n * 1000000000 + f = u"
  by simp

lemma duration_terms_abs:
  assumes "u \<le> 2 ^ 63" shows "duration_terms 0 (duration_abs_string u) = Some u"
proof -
  consider "u = 0" | "u \<noteq> 0" "u < 1000" | "1000 \<le> u" "u < 1000000" | "1000000 \<le> u" "u < 1000000000" | "1000000000 \<le> u" by linarith
  then show ?thesis
  proof cases
    case 1
    then show ?thesis using seconds_term [of 0 0 0] by (simp add: duration_abs_string_def dec_small digit_def frac_digits_numeral)
  next
    case 2
    then show ?thesis using whole_term [OF units(1,7), of 0 u "[]"] assms by (simp add: duration_abs_string_def)
  next
    case 3
    then show ?thesis using fraction_term [OF units(2,8) _ assms] by (simp add: duration_abs_string_def)
  next
    case 4
    then show ?thesis using fraction_term [OF units(3,9) _ assms] by (simp add: duration_abs_string_def)
  next
    case 5
    define S M where "S = u div 1000000000" and "M = S div 60"
    have str: "duration_abs_string u = (if 0 < M div 60 then dec (M div 60) @ ''h'' else []) @
        (if 0 < M then dec (M mod 60) @ ''m'' else []) @ dec (S mod 60) @ frac_digits 9 u [] @ ''s''"
      using 5 by (simp only: duration_abs_string_def Let_def S_def M_def) simp
    have "M div 60 * 3600000000000 + M mod 60 * 60000000000 + S mod 60 * 1000000000 + u mod 1000000000 = u"
      by (rule hms_sum [of _ _ M _ S]) (simp_all only: S_def M_def div_mult_mod_eq)
    then show ?thesis unfolding str using assms by (rule hms_terms) auto
  qed
qed

lemma duration_abs_hd: "\<exists>c cs. duration_abs_string u = c # cs \<and> is_digit c \<and> cs \<noteq> []"
proof -
  have d: "\<exists>c cs. dec n @ s = c # cs \<and> is_digit c \<and> cs \<noteq> []" if "s \<noteq> []" for n s
    using dec_cons [of n] that by auto
  have z: "is_digit (CHR ''0'')" by (simp add: is_digit_def)
  show ?thesis unfolding duration_abs_string_def Let_def
    by (simp only: append_assoc split: if_split) (auto simp: z intro!: d)
qed

text \<open>Every duration the program can print is parsed back unchanged: for each of the 2^64
  durations, negative ones and the minimum included, parsing the text of
  \<^verbatim>\<open>Duration.String\<close> gives the duration, although the parser computes a fraction in
  float64.\<close>

theorem duration_roundtrip: "ParseDuration (duration_string d) = Some d"
proof (cases "sint d < 0")
  case True
  have b: "nat (- sint d) \<le> 2 ^ 63" using sint_i64_lower [of d] by simp
  obtain c cs where c: "duration_abs_string (nat (- sint d)) = c # cs" "is_digit c" "cs \<noteq> []" using duration_abs_hd by blast
  then show ?thesis using True duration_terms_abs [OF b]
    by (simp add: ParseDuration_def duration_string_def Let_def)
next
  case False
  have b: "nat (sint d) \<le> 2 ^ 63 - 1" using sint_i64_upper [of d] by simp
  then have b': "nat (sint d) \<le> 2 ^ 63" by simp
  obtain c cs where c: "duration_abs_string (nat (sint d)) = c # cs" "is_digit c" "cs \<noteq> []" using duration_abs_hd by blast
  have "c \<noteq> CHR ''-'' \<and> c \<noteq> CHR ''+''" using c(2) by (auto simp: is_digit_def)
  then show ?thesis using False c duration_terms_abs [OF b'] b
    by (simp add: ParseDuration_def duration_string_def Let_def)
qed

section \<open>strconv.Atoi\<close>

definition split_sign :: "string \<Rightarrow> bool \<times> bool \<times> string" where
  "split_sign s =
     (case s of
        [] \<Rightarrow> (False, False, s)
      | c # cs \<Rightarrow> if c = CHR ''-'' \<or> c = CHR ''+'' then (True, c = CHR ''-'', cs) else (False, False, s))"

definition Atoi :: "string \<Rightarrow> i64 option" where
  "Atoi s =
     (let (signed, neg, ds) = split_sign s; n = int (dval 0 ds); v = (if neg then - n else n) in
      if ds = [] \<or> \<not> list_all is_digit ds then None
      else if - (2 ^ 63) \<le> v \<and> v < 2 ^ 63 then Some (word_of_int v) else None)"

section \<open>strconv.ParseFloat\<close>

text \<open>
  The syntax of \<^verbatim>\<open>special\<close> and \<^verbatim>\<open>readFloat\<close>: an infinity or NaN in any
  case, or a decimal or hexadecimal number with an optional fraction and exponent, its digits
  separated by single underscores. The value is the rational number, rounded once; a value that
  overflows is an error.
\<close>

definition ascii_lower :: "char \<Rightarrow> char" where
  "ascii_lower c = (if c \<in> set ''ABCDEFGHIJKLMNOPQRSTUVWXYZ'' then char_of ((of_char c :: nat) + 32) else c)"

definition special :: "string \<Rightarrow> f64 option" where
  "special s =
     (let (signed, neg, t) = split_sign s; w = map ascii_lower t in
      if w = ''inf'' \<or> w = ''infinity'' then Some (if neg then NInf else PInf)
      else if \<not> signed \<and> w = ''nan'' then Some NaN else None)"

definition hex_val :: "char \<Rightarrow> nat" where
  "hex_val c = (if is_digit c then digit_val c else (of_char (ascii_lower c) :: nat) - 87)"

definition is_hex :: "char \<Rightarrow> bool" where
  "is_hex c \<longleftrightarrow> is_digit c \<or> c \<in> set ''abcdefABCDEF''"

definition base_digit :: "bool \<Rightarrow> char \<Rightarrow> bool" where
  "base_digit hex c \<longleftrightarrow> (if hex then is_hex c else is_digit c)"

text \<open>\<^verbatim>\<open>underscoreOK\<close>: the second argument is what was seen last.\<close>

datatype seen = SawStart | SawDigit | SawUnderscore | SawOther

fun underscores_ok :: "bool \<Rightarrow> seen \<Rightarrow> string \<Rightarrow> bool" where
  "underscores_ok hex i [] \<longleftrightarrow> i \<noteq> SawUnderscore"
| "underscores_ok hex i (c # s) \<longleftrightarrow>
     (if base_digit hex c then underscores_ok hex SawDigit s
      else if c = CHR ''_'' then i = SawDigit \<and> underscores_ok hex SawUnderscore s
      else i \<noteq> SawUnderscore \<and> underscores_ok hex SawOther s)"

definition underscoreOK :: "string \<Rightarrow> bool" where
  "underscoreOK s =
     (case s of
        z # x # t \<Rightarrow>
          if z = CHR ''0'' \<and> x \<in> set ''bBoOxX'' then underscores_ok (x \<in> set ''xX'') SawDigit t
          else underscores_ok False SawStart s
      | _ \<Rightarrow> underscores_ok False SawStart s)"

text \<open>The exponent stops growing at five digits.\<close>

definition exponent_val :: "string \<Rightarrow> nat" where
  "exponent_val ds = foldl (\<lambda>e c. if e < 10000 then e * 10 + digit_val c else e) 0 ds"

definition read_exponent :: "bool \<Rightarrow> string \<Rightarrow> int option" where
  "read_exponent hex r =
     (case r of
        [] \<Rightarrow> if hex then None else Some 0
      | c # t \<Rightarrow>
          if c \<notin> set (if hex then ''pP'' else ''eE'') then None
          else (let (signed, neg, ds) = split_sign t; e = int (exponent_val (filter (\<lambda>c. c \<noteq> CHR ''_'') ds)) in
            if ds = [] \<or> \<not> is_digit (hd ds) \<or> \<not> list_all (\<lambda>c. is_digit c \<or> c = CHR ''_'') ds then None
            else Some (if neg then - e else e)))"

definition read_mantissa :: "bool \<Rightarrow> string \<Rightarrow> string \<times> string \<times> string" where
  "read_mantissa hex s =
     (let ok = (\<lambda>c. c = CHR ''_'' \<or> base_digit hex c); whole = takeWhile ok s; r = dropWhile ok s in
      case r of
        [] \<Rightarrow> (whole, [], r)
      | c # t \<Rightarrow> if c = CHR ''.'' then (whole, takeWhile ok t, dropWhile ok t) else (whole, [], r))"

definition read_float :: "string \<Rightarrow> rat option" where
  "read_float s =
     (let (signed, neg, t) = split_sign s;
          hex = (case t of z # x # y # u \<Rightarrow> z = CHR ''0'' \<and> x \<in> set ''xX'' | _ \<Rightarrow> False);
          (whole, frac, r) = read_mantissa hex (if hex then drop 2 t else t);
          plain = filter (\<lambda>c. c \<noteq> CHR ''_'');
          sig = foldl (\<lambda>a c. a * (if hex then 16 else 10) + hex_val c) 0 (plain whole @ plain frac);
          scale = int (length (plain frac)) * (if hex then 4 else 1)
      in if plain whole = [] \<and> plain frac = [] then None
         else if CHR ''_'' \<in> set s \<and> \<not> underscoreOK t then None
         else (case read_exponent hex r of
             None \<Rightarrow> None
           | Some e \<Rightarrow> (let v = of_nat sig * (if hex then 2 else 10) powi (e - scale) in Some (if neg then - v else v))))"

definition ParseFloat :: "string \<Rightarrow> f64 option" where
  "ParseFloat s =
     (case special s of
        Some v \<Rightarrow> Some v
      | None \<Rightarrow> (case read_float s of
          None \<Rightarrow> None
        | Some q \<Rightarrow> (let v = f64_of_rat q in if v = PInf \<or> v = NInf then None else Some v)))"

lemmas parse_float_eval = ParseFloat_def special_def split_sign_def ascii_lower_def read_float_def read_mantissa_def
  read_exponent_def base_digit_def is_digit_def is_hex_def hex_val_def digit_val_def exponent_val_def underscoreOK_def

section \<open>strings.ToLower\<close>

text \<open>Besides the ASCII letters only two characters have an ASCII letter as their lower case.\<close>

fun to_lower :: "string \<Rightarrow> string" where
  "to_lower [] = []"
| "to_lower (a # s) =
     (case s of
        b # t \<Rightarrow>
          if a = CHR 0xC4 \<and> b = CHR 0xB0 then CHR ''i'' # to_lower t
          else (case t of
              c # u \<Rightarrow> if a = CHR 0xE2 \<and> b = CHR 0x84 \<and> c = CHR 0xAA then CHR ''k'' # to_lower u
                        else ascii_lower a # to_lower s
            | [] \<Rightarrow> ascii_lower a # to_lower s)
      | [] \<Rightarrow> ascii_lower a # to_lower s)"

lemma parse_rate: "ParseFloat ''0.05'' = Some (f64_of_rat (1 / 20))"
  by (simp add: parse_float_eval f64_of_rat_def rnd_def ulp_def expo_def rne_quot_def f64_eval overflow_bound_def Let_def)

section \<open>os.LookupEnv\<close>

type_synonym environ = "string \<rightharpoonup> string"

end
