(* ===== verification/Children.thy ===== *)
theory Children
  imports PlantStatus GoParse
begin

text \<open>
  The part of \<^verbatim>\<open>internal/controller/plant_controller.go\<close> that decides about one
  child object: whether the operator may touch it (\<open>assertOwnership\<close>), and what it makes of
  it (\<open>mergeLabels\<close>, \<open>mergeContainers\<close> and the seven \<open>mutate\<close> functions).

  \<^verbatim>\<open>controllerutil.SetControllerReference\<close> is a parameter \<open>set_ref\<close> with
  its documented behaviour in the locale \<open>controller_reference\<close>.
\<close>

section \<open>Objects of any kind\<close>

datatype object =
    ODeployment deployment
  | OService service
  | OConfigMap config_map
  | OPodDisruptionBudget disruption_budget
  | OServiceAccount service_account
  | ONetworkPolicy network_policy
  | OServiceMonitor service_monitor

fun obj_meta :: "object \<Rightarrow> object_meta" where
  "obj_meta (ODeployment d) = dMeta d"
| "obj_meta (OService v) = svMeta v"
| "obj_meta (OConfigMap c) = cmMeta c"
| "obj_meta (OPodDisruptionBudget b) = pdbMeta b"
| "obj_meta (OServiceAccount a) = saMeta a"
| "obj_meta (ONetworkPolicy n) = npMeta n"
| "obj_meta (OServiceMonitor m) = smMeta m"

fun obj_kind :: "object \<Rightarrow> string" where
  "obj_kind (ODeployment d) = ''Deployment''"
| "obj_kind (OService v) = ''Service''"
| "obj_kind (OConfigMap c) = ''ConfigMap''"
| "obj_kind (OPodDisruptionBudget b) = ''PodDisruptionBudget''"
| "obj_kind (OServiceAccount a) = ''ServiceAccount''"
| "obj_kind (ONetworkPolicy n) = ''NetworkPolicy''"
| "obj_kind (OServiceMonitor m) = ''ServiceMonitor''"

text \<open>\<^verbatim>\<open>client.ObjectKeyFromObject\<close>: namespace and name.\<close>

definition obj_key :: "object \<Rightarrow> string \<times> string" where
  "obj_key obj = (mNamespace (obj_meta obj), mName (obj_meta obj))"

section \<open>Ownership\<close>

record conflicting_resource =
  crKind :: string
  crNamespace :: string
  crName :: string
  crWhy :: string

definition conflict_text :: "conflicting_resource \<Rightarrow> string" where
  "conflict_text e = ''refusing to adopt existing '' @ crKind e @ '' '' @ crNamespace e @ ''/'' @ crName e
     @ '': '' @ crWhy e"

text \<open>The owner reference first, the label second; \<open>None\<close> is permission.\<close>

definition assertOwnership :: "plant \<Rightarrow> object \<Rightarrow> conflicting_resource option" where
  "assertOwnership p obj =
     (let m = obj_meta obj; owner = GetControllerOf m in
      if (\<exists>w. owner = Some w \<and> orUID w = mUID (pMeta p)) then None
      else if mLabels m LabelManagedBy = Some appManagedBy then None
      else (let provenance = (case owner of
                  None \<Rightarrow> ''has no controller owner reference''
                | Some w \<Rightarrow> ''is controlled by '' @ orKind w @ ''/'' @ orName w)
            in Some \<lparr>crKind = obj_kind obj, crNamespace = mNamespace m, crName = mName m,
                     crWhy = ''it already exists, '' @ provenance @ '', and does not carry ''
                       @ LabelManagedBy @ ''='' @ appManagedBy
                       @ '', so it was not created by this operator''\<rparr>))"

section \<open>Merging\<close>

definition mergeLabels :: "labels \<Rightarrow> labels \<Rightarrow> labels" where
  "mergeLabels existing owned = existing ++ owned"

text \<open>The index by name keeps the last container of a name.\<close>

definition existing_by_name :: "container list \<Rightarrow> string \<Rightarrow> container option" where
  "existing_by_name existing n = find (\<lambda>c. coName c = n) (rev existing)"

definition merge_container :: "container \<Rightarrow> container \<Rightarrow> container" where
  "merge_container have want =
     have\<lparr>coImage := coImage want, coImagePullPolicy := coImagePullPolicy want, coPorts := coPorts want,
          coEnvFrom := coEnvFrom want, coSecurityContext := coSecurityContext want,
          coResources := coResources want, coLivenessProbe := coLivenessProbe want,
          coReadinessProbe := coReadinessProbe want, coStartupProbe := coStartupProbe want\<rparr>"

definition mergeContainers :: "container list \<Rightarrow> container list \<Rightarrow> container list" where
  "mergeContainers existing desired =
     map (\<lambda>want. case existing_by_name existing (coName want) of
            Some have \<Rightarrow> merge_container have want | None \<Rightarrow> want) desired
     @ filter (\<lambda>have. coName have \<notin> set (map coName desired)) existing"

section \<open>The mutate functions\<close>

type_synonym set_ref = "plant \<Rightarrow> object_meta \<Rightarrow> string + object_meta"

text \<open>Every mutate function first sets the owner reference, then merges the labels.\<close>

definition owned_meta :: "set_ref \<Rightarrow> plant \<Rightarrow> object_meta \<Rightarrow> labels \<Rightarrow> string + object_meta" where
  "owned_meta set_ref p m desired =
     (case set_ref p m of
        Inl e \<Rightarrow> Inl e
      | Inr m1 \<Rightarrow> Inr (m1\<lparr>mLabels := mergeLabels (mLabels m1) desired\<rparr>))"

definition mutateDeployment :: "set_ref \<Rightarrow> plant \<Rightarrow> deployment \<Rightarrow> string + deployment" where
  "mutateDeployment set_ref p d =
     (let desired = DeploymentFor p in
      case owned_meta set_ref p (dMeta d) (mLabels (dMeta desired)) of
        Inl e \<Rightarrow> Inl (''setting owner reference on deployment: '' @ e)
      | Inr m \<Rightarrow>
          (let podSpec = dPodSpec d; desiredPodSpec = dPodSpec desired in
           Inr (d\<lparr>dMeta := m,
                  dSelector := (if dSelector d = None then dSelector desired else dSelector d),
                  dReplicas := dReplicas desired,
                  dTemplateLabels := mergeLabels (dTemplateLabels d) (dTemplateLabels desired),
                  dPodSpec := podSpec
                    \<lparr>poServiceAccountName := poServiceAccountName desiredPodSpec,
                     poAutomount := poAutomount desiredPodSpec,
                     poSecurityContext := poSecurityContext desiredPodSpec,
                     poTopologySpread := poTopologySpread desiredPodSpec,
                     poTerminationGracePeriodSeconds := poTerminationGracePeriodSeconds desiredPodSpec,
                     poContainers := mergeContainers (poContainers podSpec) (poContainers desiredPodSpec)\<rparr>\<rparr>)))"

definition mutateService :: "set_ref \<Rightarrow> plant \<Rightarrow> service \<Rightarrow> string + service" where
  "mutateService set_ref p v =
     (let desired = ServiceFor p in
      case owned_meta set_ref p (svMeta v) (mLabels (svMeta desired)) of
        Inl e \<Rightarrow> Inl (''setting owner reference on service: '' @ e)
      | Inr m \<Rightarrow> Inr (v\<lparr>svMeta := m, svType := svType desired, svSelector := svSelector desired,
                        svPorts := svPorts desired\<rparr>))"

definition mutateConfigMap :: "set_ref \<Rightarrow> plant \<Rightarrow> config_map \<Rightarrow> string + config_map" where
  "mutateConfigMap set_ref p c =
     (let desired = ConfigMapFor p in
      case owned_meta set_ref p (cmMeta c) (mLabels (cmMeta desired)) of
        Inl e \<Rightarrow> Inl (''setting owner reference on configmap: '' @ e)
      | Inr m \<Rightarrow> Inr (c\<lparr>cmMeta := m, cmData := cmData desired\<rparr>))"

definition mutatePodDisruptionBudget :: "set_ref \<Rightarrow> plant \<Rightarrow> disruption_budget \<Rightarrow> string + disruption_budget" where
  "mutatePodDisruptionBudget set_ref p b =
     (let desired = PodDisruptionBudgetFor p in
      case owned_meta set_ref p (pdbMeta b) (mLabels (pdbMeta desired)) of
        Inl e \<Rightarrow> Inl (''setting owner reference on poddisruptionbudget: '' @ e)
      | Inr m \<Rightarrow> Inr (b\<lparr>pdbMeta := m, pdbMinAvailable := pdbMinAvailable desired,
                        pdbSelector := (if pdbSelector b = None then pdbSelector desired else pdbSelector b)\<rparr>))"

definition mutateServiceAccount :: "set_ref \<Rightarrow> plant \<Rightarrow> service_account \<Rightarrow> string + service_account" where
  "mutateServiceAccount set_ref p a =
     (let desired = ServiceAccountFor p in
      case owned_meta set_ref p (saMeta a) (mLabels (saMeta desired)) of
        Inl e \<Rightarrow> Inl (''setting owner reference on serviceaccount: '' @ e)
      | Inr m \<Rightarrow> Inr (a\<lparr>saMeta := m, saAutomount := saAutomount desired\<rparr>))"

definition mutateNetworkPolicy :: "set_ref \<Rightarrow> plant \<Rightarrow> network_policy \<Rightarrow> string + network_policy" where
  "mutateNetworkPolicy set_ref p n =
     (let desired = NetworkPolicyFor p in
      case owned_meta set_ref p (npMeta n) (mLabels (npMeta desired)) of
        Inl e \<Rightarrow> Inl (''setting owner reference on networkpolicy: '' @ e)
      | Inr m \<Rightarrow> Inr (n\<lparr>npMeta := m, npPodSelector := npPodSelector desired,
                        npPolicyTypes := npPolicyTypes desired, npIngress := npIngress desired,
                        npEgress := npEgress desired\<rparr>))"

text \<open>The spec of a ServiceMonitor is its selector and its endpoints, copied whole.\<close>

definition mutateServiceMonitor :: "set_ref \<Rightarrow> plant \<Rightarrow> service_monitor \<Rightarrow> string + service_monitor" where
  "mutateServiceMonitor set_ref p sm =
     (let desired = ServiceMonitorFor p in
      case owned_meta set_ref p (smMeta sm) (mLabels (smMeta desired)) of
        Inl e \<Rightarrow> Inl (''setting owner reference on servicemonitor: '' @ e)
      | Inr m \<Rightarrow> Inr (sm\<lparr>smMeta := m, smMatchLabels := smMatchLabels desired, smEndpoints := smEndpoints desired\<rparr>))"

fun mutate :: "set_ref \<Rightarrow> plant \<Rightarrow> object \<Rightarrow> string + object" where
  "mutate set_ref p (ODeployment d) = map_sum id ODeployment (mutateDeployment set_ref p d)"
| "mutate set_ref p (OService v) = map_sum id OService (mutateService set_ref p v)"
| "mutate set_ref p (OConfigMap c) = map_sum id OConfigMap (mutateConfigMap set_ref p c)"
| "mutate set_ref p (OPodDisruptionBudget b) = map_sum id OPodDisruptionBudget (mutatePodDisruptionBudget set_ref p b)"
| "mutate set_ref p (OServiceAccount a) = map_sum id OServiceAccount (mutateServiceAccount set_ref p a)"
| "mutate set_ref p (ONetworkPolicy n) = map_sum id ONetworkPolicy (mutateNetworkPolicy set_ref p n)"
| "mutate set_ref p (OServiceMonitor m) = map_sum id OServiceMonitor (mutateServiceMonitor set_ref p m)"

section \<open>The objects before they are read\<close>

definition objectMeta :: "string \<Rightarrow> string \<Rightarrow> object_meta" where
  "objectMeta n ns = new_meta n ns Map.empty"

definition empty_pod_spec :: pod_spec where
  "empty_pod_spec =
     \<lparr>poServiceAccountName = [], poAutomount = None, poSecurityContext = None, poTopologySpread = [],
      poTerminationGracePeriodSeconds = None, poContainers = [], poServer = []\<rparr>"

text \<open>The children of a Plant, in the order they are applied; the zero value of every other field.\<close>

definition blank_children :: "plant \<Rightarrow> object list" where
  "blank_children p =
     (let m = objectMeta (pName p) (pNamespace p) in
      [ODeployment \<lparr>dMeta = m, dReplicas = None, dSelector = None, dTemplateLabels = Map.empty,
         dPodSpec = empty_pod_spec, dServer = [], dStatusReadyReplicas = 0, dStatusObservedGeneration = 0\<rparr>,
       OService \<lparr>svMeta = m, svType = [], svSelector = Map.empty, svPorts = [], svServer = []\<rparr>,
       OConfigMap \<lparr>cmMeta = m, cmData = Map.empty, cmServer = []\<rparr>,
       OPodDisruptionBudget \<lparr>pdbMeta = objectMeta (pName p @ ''-pdb'') (pNamespace p), pdbMinAvailable = None,
         pdbSelector = None, pdbServer = []\<rparr>,
       OServiceAccount \<lparr>saMeta = m, saAutomount = None, saServer = []\<rparr>,
       ONetworkPolicy \<lparr>npMeta = m, npPodSelector = Map.empty, npPolicyTypes = [], npIngress = [], npEgress = []\<rparr>])"

section \<open>The contract of SetControllerReference\<close>

text \<open>The reference to a Plant, of the group and version of groupversion\_info.go.\<close>

definition GroupVersion :: string where "GroupVersion = ''buddy.k8s-buddy.io/v1alpha1''"

definition plant_ref :: "plant \<Rightarrow> owner_ref" where
  "plant_ref p = \<lparr>orApiVersion = GroupVersion, orKind = ''Plant'', orName = pName p,
     orUID = mUID (pMeta p), orController = True, orBlockOwnerDeletion = True\<rparr>"

text \<open>
  It changes nothing but the owners; it makes the Plant the controller; in the Plant's own namespace
  it fails only on an object that has another controller, and an object that has the owners it has set
  is left as it is.
\<close>

locale controller_reference =
  fixes set_ref :: set_ref
  assumes ref_frame: "set_ref p m = Inr m' \<Longrightarrow> m' = m\<lparr>mOwners := mOwners m'\<rparr>"
    and ref_owns: "set_ref p m = Inr m' \<Longrightarrow> GetControllerOf m' = Some (plant_ref p)"
    and ref_total: "\<lbrakk>GetControllerOf m = None \<or> GetControllerOf m = Some (plant_ref p); mNamespace m = pNamespace p\<rbrakk>
      \<Longrightarrow> \<exists>m'. set_ref p m = Inr m'"
    and ref_settled:
      "\<lbrakk>set_ref p m = Inr m'; plant_ref q = plant_ref p; pNamespace q = pNamespace p;
        mOwners x = mOwners m'; mNamespace x = mNamespace m'\<rbrakk> \<Longrightarrow> set_ref q x = Inr x"

text \<open>The documented algorithm: an owner in another namespace is refused, then an object with
  another controller; a reference to the same object is replaced, a new one appended.\<close>

definition same_object :: "owner_ref \<Rightarrow> owner_ref \<Rightarrow> bool" where
  "same_object a b \<longleftrightarrow> takeWhile (\<lambda>c. c \<noteq> CHR ''/'') (orApiVersion a) = takeWhile (\<lambda>c. c \<noteq> CHR ''/'') (orApiVersion b) \<and>
     orKind a = orKind b \<and> orName a = orName b"

fun upsert_ref :: "owner_ref \<Rightarrow> owner_ref list \<Rightarrow> owner_ref list" where
  "upsert_ref r [] = [r]"
| "upsert_ref r (x # xs) = (if same_object x r then r # xs else x # upsert_ref r xs)"

definition set_controller_reference :: set_ref where
  "set_controller_reference p m =
     (if pNamespace p \<noteq> [] \<and> mNamespace m \<noteq> pNamespace p then Inl ''cross-namespace owner references are disallowed''
      else case GetControllerOf m of
        Some w \<Rightarrow> if same_object w (plant_ref p) then Inr (m\<lparr>mOwners := upsert_ref (plant_ref p) (mOwners m)\<rparr>)
                  else Inl ''Object is already owned by another controller''
      | None \<Rightarrow> Inr (m\<lparr>mOwners := upsert_ref (plant_ref p) (mOwners m)\<rparr>))"

lemma upsert_again: "upsert_ref r (upsert_ref r xs) = upsert_ref r xs"
  by (induction xs) (auto simp: same_object_def)

lemma same_object_refl: "same_object r r"
  by (simp add: same_object_def)

lemma find_upsert:
  "orController r \<Longrightarrow> find orController xs = None \<or> (\<exists>w. find orController xs = Some w \<and> same_object w r) \<Longrightarrow>
     find orController (upsert_ref r xs) = Some r"
  by (induction xs) (auto split: if_splits)

interpretation owner: controller_reference set_controller_reference
proof unfold_locales
  fix p m m' ls
  have c: "orController (plant_ref p)" by (simp add: plant_ref_def)
  show "m' = m\<lparr>mOwners := mOwners m'\<rparr>" if "set_controller_reference p m = Inr m'"
    using that by (auto simp: set_controller_reference_def split: option.splits if_splits)
  show o: "GetControllerOf m' = Some (plant_ref p)" if "set_controller_reference p m = Inr m'" for m m'
    using that find_upsert [OF c, of "mOwners m"]
    by (auto simp: set_controller_reference_def GetControllerOf_def split: option.splits if_splits)
  show "\<exists>m'. set_controller_reference p m = Inr m'"
    if "GetControllerOf m = None \<or> GetControllerOf m = Some (plant_ref p)" "mNamespace m = pNamespace p"
    using that by (auto simp: set_controller_reference_def same_object_refl)
  show "set_controller_reference q x = Inr x"
    if s: "set_controller_reference p m = Inr m'" and q: "plant_ref q = plant_ref p" 
      and n: "pNamespace q = pNamespace p" and x: "mOwners x = mOwners m'" "mNamespace x = mNamespace m'" for q x
  proof -
    have "GetControllerOf x = Some (plant_ref q)" using o [OF s] x q by (simp add: GetControllerOf_def)
    moreover have "mOwners m' = upsert_ref (plant_ref p) (mOwners m)"
      using s by (auto simp: set_controller_reference_def split: option.splits if_splits)
    then have "upsert_ref (plant_ref q) (mOwners x) = mOwners x" using x q by (simp add: upsert_again)
    moreover have "pNamespace q = [] \<or> mNamespace x = pNamespace q"
      using s x(2) n by (auto simp: set_controller_reference_def split: option.splits if_splits)
    ultimately show ?thesis by (auto simp: set_controller_reference_def same_object_refl)
  qed
qed

section \<open>Merging is idempotent and keeps what it does not own\<close>

lemma mergeLabels_again [simp]: "mergeLabels (mergeLabels ls o1) o1 = mergeLabels ls o1"
  by (simp add: mergeLabels_def fun_eq_iff map_add_def split: option.split)

lemma mergeLabels_keeps: "k \<notin> dom owned \<Longrightarrow> mergeLabels ls owned k = ls k"
  by (simp add: mergeLabels_def map_add_dom_app_simps)

lemma mergeLabels_owned: "owned k = Some v \<Longrightarrow> mergeLabels ls owned k = Some v"
  by (simp add: mergeLabels_def)

lemma merge_container_again [simp]: "merge_container (merge_container h w) w = merge_container h w"
  by (simp add: merge_container_def)

lemma merge_container_self [simp]: "merge_container w w = w"
  by (simp add: merge_container_def)

lemma coName_merge [simp]: "coName (merge_container h w) = coName h"
  by (simp add: merge_container_def)

lemma find_filter_not: "n \<in> N \<Longrightarrow> find (\<lambda>c. coName c = n) (rev (filter (\<lambda>c. coName c \<notin> N) xs)) = None"
  by (auto simp: find_None_iff)

lemma existing_by_name_name: "existing_by_name cs n = Some c \<Longrightarrow> coName c = n"
  by (auto simp: existing_by_name_def find_Some_iff)

lemma find_append: "find P (xs @ ys) = (case find P xs of None \<Rightarrow> find P ys | Some x \<Rightarrow> Some x)"
  by (induction xs) auto

lemma mergeContainers_one:
  "mergeContainers cs [w] =
     (case existing_by_name cs (coName w) of Some h \<Rightarrow> merge_container h w | None \<Rightarrow> w)
     # filter (\<lambda>c. coName c \<noteq> coName w) cs"
  by (simp add: mergeContainers_def)

lemma mergeContainers_again [simp]: "mergeContainers (mergeContainers cs [w]) [w] = mergeContainers cs [w]"
proof -
  let ?h = "case existing_by_name cs (coName w) of Some h \<Rightarrow> merge_container h w | None \<Rightarrow> w"
  let ?r = "filter (\<lambda>c. coName c \<noteq> coName w) cs"
  have n: "coName ?h = coName w" using existing_by_name_name by (auto split: option.split)
  have "find (\<lambda>c. coName c = coName w) (rev ?r) = None" using find_filter_not [of "coName w" "{coName w}" cs] by simp
  then have e: "existing_by_name (?h # ?r) (coName w) = Some ?h"
    using n by (simp add: existing_by_name_def find_append)
  have "merge_container ?h w = ?h" by (simp split: option.split)
  then show ?thesis unfolding mergeContainers_one using e n by simp
qed

section \<open>Lemmas on the mutate functions\<close>

lemmas mutate_defs = mutateDeployment_def mutateService_def mutateConfigMap_def mutatePodDisruptionBudget_def
  mutateServiceAccount_def mutateNetworkPolicy_def mutateServiceMonitor_def

text \<open>The desired labels are those of the Plant, for every kind.\<close>

lemma desired_labels [builder_defs]:
  "mLabels (dMeta (DeploymentFor p)) = LabelsFor p" "mLabels (svMeta (ServiceFor p)) = LabelsFor p"
  "mLabels (cmMeta (ConfigMapFor p)) = LabelsFor p" "mLabels (pdbMeta (PodDisruptionBudgetFor p)) = LabelsFor p"
  "mLabels (saMeta (ServiceAccountFor p)) = LabelsFor p" "mLabels (npMeta (NetworkPolicyFor p)) = LabelsFor p"
  "mLabels (smMeta (ServiceMonitorFor p)) = LabelsFor p"
  by (simp_all add: DeploymentFor_def ServiceFor_def ConfigMapFor_def PodDisruptionBudgetFor_def
      ServiceAccountFor_def NetworkPolicyFor_def ServiceMonitorFor_def new_meta_def Let_def)

lemma mutate_meta:
  assumes "mutate set_ref p obj = Inr obj'"
  shows "owned_meta set_ref p (obj_meta obj) (LabelsFor p) = Inr (obj_meta obj')"
  using assms
  by (cases obj; cases "owned_meta set_ref p (obj_meta obj) (LabelsFor p)") (auto simp: mutate_defs builder_defs Let_def)

lemma mutate_kind: "mutate set_ref p obj = Inr obj' \<Longrightarrow> obj_kind obj' = obj_kind obj"
  by (cases obj; cases "owned_meta set_ref p (obj_meta obj) (LabelsFor p)") (auto simp: mutate_defs builder_defs Let_def)

lemma mutate_fails_iff:
  "(\<exists>obj'. mutate set_ref p obj = Inr obj') \<longleftrightarrow> (\<exists>m. set_ref p (obj_meta obj) = Inr m)"
  by (cases obj; cases "set_ref p (obj_meta obj)") (simp_all add: mutate_defs builder_defs owned_meta_def Let_def)

text \<open>A failure is that of SetControllerReference, with the kind of the child before it.\<close>

lemma kinds_lower:
  "map ascii_lower ''Deployment'' = ''deployment''"
  "map ascii_lower ''Service'' = ''service''"
  "map ascii_lower ''ConfigMap'' = ''configmap''"
  "map ascii_lower ''PodDisruptionBudget'' = ''poddisruptionbudget''"
  "map ascii_lower ''ServiceAccount'' = ''serviceaccount''"
  "map ascii_lower ''NetworkPolicy'' = ''networkpolicy''"
  "map ascii_lower ''ServiceMonitor'' = ''servicemonitor''"
  by code_simp+

lemma mutate_error:
  "mutate set_ref p obj = Inl e \<longleftrightarrow> (\<exists>why. set_ref p (obj_meta obj) = Inl why \<and>
     e = ''setting owner reference on '' @ map ascii_lower (obj_kind obj) @ '': '' @ why)"
proof (cases "set_ref p (obj_meta obj)")
  case (Inl why)
  then show ?thesis by (cases obj) (auto simp only: obj_kind.simps kinds_lower mutate.simps mutate_defs builder_defs owned_meta_def Let_def obj_meta.simps sum.case map_sum.simps sum.inject id_apply append.simps)
next
  case (Inr m)
  then obtain obj' where "mutate set_ref p obj = Inr obj'" using mutate_fails_iff by blast
  then show ?thesis using Inr by simp
qed

lemma poContainers_DeploymentFor [builder_defs]: "poContainers (dPodSpec (DeploymentFor p)) = [containerFor p]"
  by (simp add: DeploymentFor_def podSpecFor_def)

text \<open>On an object of the Plant's namespace that has no controller the mutation succeeds.\<close>

lemma unowned_mutates:
  "GetControllerOf (obj_meta obj) = None \<Longrightarrow> mNamespace (obj_meta obj) = pNamespace p \<Longrightarrow>
     \<exists>obj'. mutate set_controller_reference p obj = Inr obj'"
  unfolding mutate_fails_iff by (intro owner.ref_total disjI1)

context controller_reference begin

lemma owned_meta_frame:
  assumes "owned_meta set_ref p m ls = Inr m'"
  shows "m' = m\<lparr>mOwners := mOwners m', mLabels := mergeLabels (mLabels m) ls\<rparr>"
proof -
  obtain m1 where m1: "set_ref p m = Inr m1" "m' = m1\<lparr>mLabels := mergeLabels (mLabels m1) ls\<rparr>"
    using assms by (auto simp: owned_meta_def split: sum.splits)
  then show ?thesis using ref_frame [OF m1(1)] by (cases m; cases m1) simp
qed

lemma owned_meta_owner:
  "owned_meta set_ref p m ls = Inr m' \<Longrightarrow> GetControllerOf m' = Some (plant_ref p)"
  using ref_owns [of p m] by (auto simp: owned_meta_def GetControllerOf_def split: sum.splits)

text \<open>What is settled stays settled, whatever else changes in the metadata or in the Plant.\<close>

lemma owned_meta_settled:
  assumes "owned_meta set_ref p m ls = Inr m'" "plant_ref q = plant_ref p" "pNamespace q = pNamespace p"
    "mOwners x = mOwners m'" "mNamespace x = mNamespace m'" "mLabels x = mLabels m'"
  shows "owned_meta set_ref q x ls = Inr x"
proof -
  obtain m1 where m1: "set_ref p m = Inr m1" "m' = m1\<lparr>mLabels := mergeLabels (mLabels m1) ls\<rparr>"
    using assms(1) by (auto simp: owned_meta_def split: sum.splits)
  then have "set_ref q x = Inr x" using assms(2-5) by (intro ref_settled [OF m1(1)]) simp_all
  then show ?thesis using m1(2) assms(6) by (simp add: owned_meta_def)
qed

lemma owned_meta_again:
  "owned_meta set_ref p m ls = Inr m' \<Longrightarrow> owned_meta set_ref p m' ls = Inr m'"
  by (rule owned_meta_settled) simp_all

lemma mutate_again:
  assumes "mutate set_ref p obj = Inr obj'"
  shows "mutate set_ref p obj' = Inr obj'"
proof -
  obtain m where m: "owned_meta set_ref p (obj_meta obj) (LabelsFor p) = Inr m"
    using mutate_meta [OF assms] by blast
  note m' = owned_meta_again [OF m]
  show ?thesis using assms m m' by (cases obj) (auto simp: mutate_defs builder_defs Let_def)
qed


text \<open>What is left of a read object: all but the fields of the desired state.\<close>

lemma mutate_meta_frame:
  assumes "mutate set_ref p obj = Inr obj'"
  shows "obj_meta obj' = (obj_meta obj)\<lparr>mOwners := mOwners (obj_meta obj'),
    mLabels := mergeLabels (mLabels (obj_meta obj)) (LabelsFor p)\<rparr>"
  using owned_meta_frame [OF mutate_meta [OF assms]] .

lemma mutate_labels:
  assumes "mutate set_ref p obj = Inr obj'"
  shows "mLabels (obj_meta obj') = mergeLabels (mLabels (obj_meta obj)) (LabelsFor p)"
  by (subst mutate_meta_frame [OF assms]) simp

lemma mutate_key:
  assumes "mutate set_ref p obj = Inr obj'" shows "obj_key obj' = obj_key obj"
  unfolding obj_key_def by (subst (1 2) mutate_meta_frame [OF assms]) simp

lemma mutate_owner:
  "mutate set_ref p obj = Inr obj' \<Longrightarrow> GetControllerOf (obj_meta obj') = Some (plant_ref p)"
  using owned_meta_owner [OF mutate_meta] .

end

lemma assertOwnership_ours:
  assumes "GetControllerOf (obj_meta obj) = Some (plant_ref p)" shows "assertOwnership p obj = None"
  using assms by (simp add: assertOwnership_def plant_ref_def)

lemma assertOwnership_None:
  "assertOwnership p obj = None \<longleftrightarrow>
     (\<exists>w. GetControllerOf (obj_meta obj) = Some w \<and> orUID w = mUID (pMeta p)) \<or>
     mLabels (obj_meta obj) LabelManagedBy = Some appManagedBy"
  by (simp add: assertOwnership_def Let_def)

section \<open>Properties\<close>

text \<open>C2: The ownership check permits an object exactly when its controller has the UID of
  this Plant, whatever its labels say, or it carries the operator's managed-by label; a refusal
  names the kind, namespace and name of the object. An object the operator has itself brought in
  line passes the check for good, also after somebody has removed or changed any of its labels, and the
  next mutation restores all the labels the operator owns and leaves the others as they are then.\<close>

theorem ownership_guard:
  assumes "controller_reference set_ref"
  shows "(assertOwnership p obj = None \<longleftrightarrow>
      (\<exists>w. GetControllerOf (obj_meta obj) = Some w \<and> orUID w = mUID (pMeta p)) \<or>
      mLabels (obj_meta obj) LabelManagedBy = Some ''plant-operator'') \<and>
    (\<forall>e. assertOwnership p obj = Some e \<longrightarrow> crKind e = obj_kind obj \<and> (crNamespace e, crName e) = obj_key obj) \<and>
    (\<forall>obj'. mutate set_ref p obj = Inr obj' \<longrightarrow>
      assertOwnership p obj' = None \<and>
      (\<forall>relabelled ls. obj_meta relabelled = (obj_meta obj')\<lparr>mLabels := ls\<rparr> \<longrightarrow>
         assertOwnership p relabelled = None \<and>
         (\<forall>healed. mutate set_ref p relabelled = Inr healed \<longrightarrow>
            mLabels (obj_meta healed) LabelManagedBy = Some ''plant-operator'' \<and>
            (\<forall>l. mLabels (obj_meta healed) l = (case LabelsFor p l of Some v \<Rightarrow> Some v | None \<Rightarrow> ls l)))))"
proof -
  have v: "appManagedBy = ''plant-operator''" by (simp add: resource_consts)
  have own: "assertOwnership p obj' = None" "GetControllerOf (obj_meta obj') = Some (plant_ref p)"
    if "mutate set_ref p obj = Inr obj'" for obj'
    using controller_reference.mutate_owner [OF assms that] assertOwnership_ours by blast+
  have heal: "mLabels (obj_meta healed) l = (case LabelsFor p l of Some v \<Rightarrow> Some v | None \<Rightarrow> ls l)"
    if "obj_meta relabelled = m\<lparr>mLabels := ls\<rparr>" "mutate set_ref p relabelled = Inr healed" for relabelled healed m ls l
    unfolding controller_reference.mutate_labels [OF assms that(2)] that(1) by (simp add: mergeLabels_def map_add_def)
  have owned: "LabelsFor p LabelManagedBy = Some ''plant-operator''" using v by (simp add: label_simps)
  have strip: "assertOwnership p relabelled = None"
    if "mutate set_ref p obj = Inr obj'" "obj_meta relabelled = (obj_meta obj')\<lparr>mLabels := ls\<rparr>" for obj' relabelled ls
    using own(2) [OF that(1)] that(2) by (intro assertOwnership_ours) (simp add: GetControllerOf_def)
  have key: "crKind e = obj_kind obj \<and> (crNamespace e, crName e) = obj_key obj"
    if "assertOwnership p obj = Some e" for e
    using that by (auto simp: assertOwnership_def obj_key_def Let_def split: if_splits)
  show ?thesis
    using assertOwnership_None [of p obj] own(1) key
    by (auto simp: v strip heal owned)
qed

theorem ownership_guard_witness:
  "assertOwnership demo_plant (OConfigMap (ConfigMapFor demo_plant)) = None \<and>
   (\<exists>e. assertOwnership demo_plant (OConfigMap ((ConfigMapFor demo_plant)\<lparr>cmMeta := objectMeta ''fernie'' ''plants''\<rparr>)) = Some e)"
proof -
  have l: "mLabels (obj_meta (OConfigMap (ConfigMapFor demo_plant))) LabelManagedBy = Some ''plant-operator''"
    by (simp add: builder_defs label_simps resource_consts)
  have n: "GetControllerOf (objectMeta ''fernie'' ''plants'') = None"
    "mLabels (objectMeta ''fernie'' ''plants'') LabelManagedBy = None"
    by (simp_all add: objectMeta_def new_meta_def GetControllerOf_def)
  show ?thesis
    using ownership_guard [OF owner.controller_reference_axioms, of demo_plant "OConfigMap (ConfigMapFor demo_plant)"] l
      ownership_guard [OF owner.controller_reference_axioms, of demo_plant
        "OConfigMap ((ConfigMapFor demo_plant)\<lparr>cmMeta := objectMeta ''fernie'' ''plants''\<rparr>)"] n
    by auto
qed

text \<open>C8: Bringing a child in line is idempotent: mutating an already mutated object gives the
  same object, for each of the seven kinds and whatever the object held before. The result has the kind,
  the namespace and the name of the object, the Plant as its controller, and the labels of the object
  with those of the operator over them. It fails exactly when SetControllerReference does, with that
  error behind the kind of the child.\<close>

theorem mutate_converges:
  assumes "controller_reference set_ref"
  shows "(\<forall>obj'. mutate set_ref p obj = Inr obj' \<longrightarrow>
      mutate set_ref p obj' = Inr obj' \<and> obj_kind obj' = obj_kind obj \<and> obj_key obj' = obj_key obj \<and>
      GetControllerOf (obj_meta obj') = Some (plant_ref p) \<and>
      mLabels (obj_meta obj') = mLabels (obj_meta obj) ++ LabelsFor p) \<and>
    (\<forall>e. mutate set_ref p obj = Inl e \<longleftrightarrow> (\<exists>why. set_ref p (obj_meta obj) = Inl why \<and>
      e = ''setting owner reference on '' @ map ascii_lower (obj_kind obj) @ '': '' @ why))"
proof (intro conjI allI impI)
  fix obj' assume m: "mutate set_ref p obj = Inr obj'"
  show "mutate set_ref p obj' = Inr obj'" by (rule controller_reference.mutate_again [OF assms m])
  show "obj_kind obj' = obj_kind obj" by (rule mutate_kind [OF m])
  show "obj_key obj' = obj_key obj" by (rule controller_reference.mutate_key [OF assms m])
  show "GetControllerOf (obj_meta obj') = Some (plant_ref p)" by (rule controller_reference.mutate_owner [OF assms m])
  show "mLabels (obj_meta obj') = mLabels (obj_meta obj) ++ LabelsFor p"
    unfolding controller_reference.mutate_labels [OF assms m] mergeLabels_def ..
qed (rule mutate_error)

theorem mutate_converges_witness:
  "\<exists>obj'. mutate set_controller_reference demo_plant (hd (blank_children demo_plant)) = Inr obj' \<and>
     mutate set_controller_reference demo_plant obj' = Inr obj'"
proof -
  have "GetControllerOf (obj_meta (hd (blank_children demo_plant))) = None"
    "mNamespace (obj_meta (hd (blank_children demo_plant))) = pNamespace demo_plant"
    by (simp_all add: blank_children_def objectMeta_def new_meta_def GetControllerOf_def Let_def)
  from unowned_mutates [OF this] obtain obj' where m: "mutate set_controller_reference demo_plant (hd (blank_children demo_plant)) = Inr obj'" ..
  then show ?thesis
    using mutate_converges [OF owner.controller_reference_axioms, of demo_plant "hd (blank_children demo_plant)"] by blast
qed

text \<open>Bringing a live Deployment in line sets every field the operator owns
  (replicas, service account, token mounting, security context, spread, grace period, and the image,
  ports, environment, security context, resources and probes of the buddy-api container) to the
  desired value, and keeps the rest: an existing selector, the labels it does not own, the identity,
  annotations, status and server-owned fields, the server-owned fields of the container, and every
  container of another name.\<close>

theorem mutate_deployment_frame:
  assumes "controller_reference set_ref" "mutateDeployment set_ref p d = Inr d'"
  shows "dReplicas d' = Some (replicasFor p) \<and>
    dSelector d' = (case dSelector d of None \<Rightarrow> Some (SelectorFor p) | Some sel \<Rightarrow> Some sel) \<and>
    poServiceAccountName (dPodSpec d') = pName p \<and> poAutomount (dPodSpec d') = Some False \<and>
    (\<exists>c cs. poContainers (dPodSpec d') = c # cs \<and> coName c = ''buddy-api'' \<and>
       coImage c = spImage (Spec p) \<and> coEnvFrom c = [pName p] \<and>
       coReadinessProbe c = Some readinessProbeFor \<and> coLivenessProbe c = Some livenessProbeFor \<and>
       coServer c = (case existing_by_name (poContainers (dPodSpec d)) ''buddy-api'' of None \<Rightarrow> [] | Some h \<Rightarrow> coServer h) \<and>
       cs = filter (\<lambda>c. coName c \<noteq> ''buddy-api'') (poContainers (dPodSpec d))) \<and>
    dServer d' = dServer d \<and> poServer (dPodSpec d') = poServer (dPodSpec d) \<and>
    dStatusReadyReplicas d' = dStatusReadyReplicas d \<and>
    mUID (dMeta d') = mUID (dMeta d) \<and> mResourceVersion (dMeta d') = mResourceVersion (dMeta d) \<and>
    mAnnotations (dMeta d') = mAnnotations (dMeta d) \<and>
    (\<forall>k. k \<notin> dom (LabelsFor p) \<longrightarrow> mLabels (dMeta d') k = mLabels (dMeta d) k \<and> dTemplateLabels d' k = dTemplateLabels d k) \<and>
    LabelsFor p \<subseteq>\<^sub>m mLabels (dMeta d') \<and> LabelsFor p \<subseteq>\<^sub>m dTemplateLabels d'"
proof -
  obtain m where m: "owned_meta set_ref p (dMeta d) (LabelsFor p) = Inr m"
    using mutate_meta [of set_ref p "ODeployment d" "ODeployment d'"] assms(2) by auto
  note f = controller_reference.owned_meta_frame [OF assms(1) m]
  have mm: "mUID m = mUID (dMeta d)" "mResourceVersion m = mResourceVersion (dMeta d)"
    "mAnnotations m = mAnnotations (dMeta d)" "mLabels m = mergeLabels (mLabels (dMeta d)) (LabelsFor p)"
    by (subst f, simp)+
  have des: "dSelector (DeploymentFor p) = Some (SelectorFor p)" "dReplicas (DeploymentFor p) = Some (replicasFor p)"
    "dTemplateLabels (DeploymentFor p) = LabelsFor p" "mLabels (dMeta (DeploymentFor p)) = LabelsFor p"
    "poServiceAccountName (dPodSpec (DeploymentFor p)) = pName p" "poAutomount (dPodSpec (DeploymentFor p)) = Some False"
    "poSecurityContext (dPodSpec (DeploymentFor p)) = poSecurityContext (podSpecFor p)"
    "poTopologySpread (dPodSpec (DeploymentFor p)) = poTopologySpread (podSpecFor p)"
    "poTerminationGracePeriodSeconds (dPodSpec (DeploymentFor p)) = Some terminationGracePeriodSeconds"
    "poContainers (dPodSpec (DeploymentFor p)) = [containerFor p]"
    by (simp_all add: DeploymentFor_def podSpecFor_def new_meta_def)
  have d': "d' = d\<lparr>dMeta := m, dSelector := (if dSelector d = None then Some (SelectorFor p) else dSelector d),
      dReplicas := Some (replicasFor p), dTemplateLabels := mergeLabels (dTemplateLabels d) (LabelsFor p),
      dPodSpec := (dPodSpec d)
        \<lparr>poServiceAccountName := pName p, poAutomount := Some False,
         poSecurityContext := poSecurityContext (podSpecFor p), poTopologySpread := poTopologySpread (podSpecFor p),
         poTerminationGracePeriodSeconds := Some terminationGracePeriodSeconds,
         poContainers := mergeContainers (poContainers (dPodSpec d)) [containerFor p]\<rparr>\<rparr>"
    using assms(2) m des by (cases "dSelector d = None") (auto simp: mutateDeployment_def Let_def)
  let ?cs = "poContainers (dPodSpec d)"
  have n: "coName (containerFor p) = ''buddy-api''" by (simp add: containerFor_def resource_consts)
  have c: "\<exists>c cs. mergeContainers ?cs [containerFor p] = c # cs \<and> coName c = ''buddy-api'' \<and>
       coImage c = spImage (Spec p) \<and> coEnvFrom c = [pName p] \<and>
       coReadinessProbe c = Some readinessProbeFor \<and> coLivenessProbe c = Some livenessProbeFor \<and>
       coServer c = (case existing_by_name ?cs ''buddy-api'' of None \<Rightarrow> [] | Some h \<Rightarrow> coServer h) \<and>
       cs = filter (\<lambda>c. coName c \<noteq> ''buddy-api'') ?cs"
    using existing_by_name_name [of ?cs "''buddy-api''"]
    by (cases "existing_by_name ?cs ''buddy-api''")
      (simp_all add: mergeContainers_one n, simp_all add: containerFor_def merge_container_def resource_consts)
  have l: "k \<notin> dom (LabelsFor p) \<Longrightarrow> mergeLabels ls (LabelsFor p) k = ls k"
    "LabelsFor p \<subseteq>\<^sub>m mergeLabels ls (LabelsFor p)" for k ls
    by (simp add: mergeLabels_keeps) (simp add: mergeLabels_def)
  show ?thesis unfolding d' using c l mm
    by (auto split: option.split)
qed

theorem mutate_deployment_frame_witness:
  "\<exists>d'. mutateDeployment set_controller_reference demo_plant
     ((DeploymentFor demo_plant)\<lparr>dReplicas := Some 9, dServer := ''RollingUpdate''\<rparr>) = Inr d' \<and>
     dReplicas d' = Some 3 \<and> dServer d' = ''RollingUpdate''"
proof -
  let ?d = "(DeploymentFor demo_plant)\<lparr>dReplicas := Some 9, dServer := ''RollingUpdate''\<rparr>"
  have "GetControllerOf (obj_meta (ODeployment ?d)) = None" "mNamespace (obj_meta (ODeployment ?d)) = pNamespace demo_plant"
    by (simp_all add: DeploymentFor_def new_meta_def GetControllerOf_def)
  then have "\<exists>x. mutate set_controller_reference demo_plant (ODeployment ?d) = Inr x"
    by (rule unowned_mutates)
  then obtain d' where d: "mutateDeployment set_controller_reference demo_plant ?d = Inr d'"
    unfolding mutate.simps by (cases rule: sum.exhaust [of "mutateDeployment set_controller_reference demo_plant ?d"]) (simp_all only: map_sum.simps sum.simps simp_thms)
  obtain d where dd: "d = ?d" by blast
  have f: "dReplicas d' = Some (replicasFor demo_plant) \<and> dServer d' = dServer d"
    using mutate_deployment_frame [OF owner.controller_reference_axioms d [folded dd]] by (elim conjE) (intro conjI)
  moreover have "dServer d = ''RollingUpdate''" unfolding dd by simp
  moreover have "replicasFor demo_plant = 3" by (simp add: replicasFor_def demo_plant_def)
  ultimately show ?thesis using d by (intro exI [of _ d']) (simp only: simp_thms)
qed

end
