(* ===== verification/Reconciler.thy ===== *)
theory Reconciler
  imports ApiErrors Children
begin

text \<open>
  The reconciler of \<^verbatim>\<open>internal/controller/plant_controller.go\<close>. Its state is what
  outlives a call: the world it talks to, the deadline of the negative probe cache, the once-flag
  of the log line, and the observable output (API calls with their results, events, log lines).

  The Kubernetes client, its uncached reader, the RESTMapper, the clock,
  \<^verbatim>\<open>SetControllerReference\<close>, \<^verbatim>\<open>SetStatusCondition\<close> and
  \<^verbatim>\<open>RetryOnConflict\<close> are fields of the reconciler. Each call may change the world in
  any way, so anything may happen between two calls.
\<close>

section \<open>Errors\<close>

datatype error =
    ApiError api_error
  | ConflictingResource conflicting_resource
  | Plain string
  | Wrapped string error

fun error_text :: "error \<Rightarrow> string" where
  "error_text (ApiError e) = api_error_text e"
| "error_text (ConflictingResource e) = conflict_text e"
| "error_text (Plain m) = m"
| "error_text (Wrapped m e) = m @ '': '' @ error_text e"

text \<open>\<^verbatim>\<open>errors.As\<close> through the wrapping.\<close>

fun as_conflicting :: "error \<Rightarrow> conflicting_resource option" where
  "as_conflicting (ConflictingResource e) = Some e"
| "as_conflicting (Wrapped m e) = as_conflicting e"
| "as_conflicting (ApiError e) = None"
| "as_conflicting (Plain m) = None"

section \<open>The reconciler and its state\<close>

type_synonym key = "string \<times> string"

definition key_text :: "key \<Rightarrow> string" where
  "key_text k = fst k @ ''/'' @ snd k"

abbreviation plant_key :: "plant \<Rightarrow> key" where
  "plant_key p \<equiv> (pNamespace p, pName p)"

datatype call =
    GetPlant key "api_error + plant"
  | ReadPlant key "api_error + plant"
  | ReadObject string key "api_error + object"
  | CreateObject object "api_error + object"
  | UpdateObject object "api_error + object"
  | UpdateStatus plant "api_error + plant"
  | MapServiceMonitor "string option"

datatype event_type = Normal | Warning

datatype event = Event key event_type string string

datatype log_line = LogOverlongName string nat | LogNoServiceMonitor string | LogStatusUnchanged string

record 'w state =
  world :: 'w
  serviceMonitorNegativeCacheUntil :: i64
  serviceMonitorUnavailableLogged :: bool
  calls :: "call list"
  events :: "event list"
  logs :: "log_line list"

record 'w reader =
  rdPlant :: "key \<Rightarrow> 'w \<Rightarrow> (api_error + plant) \<times> 'w"
  rdObject :: "string \<Rightarrow> key \<Rightarrow> 'w \<Rightarrow> (api_error + object) \<times> 'w"

text \<open>A write answers with the object as the server now has it.\<close>

record 'w client = "'w reader" +
  clCreate :: "object \<Rightarrow> 'w \<Rightarrow> (api_error + object) \<times> 'w"
  clUpdate :: "object \<Rightarrow> 'w \<Rightarrow> (api_error + object) \<times> 'w"
  clUpdateStatus :: "plant \<Rightarrow> 'w \<Rightarrow> (api_error + plant) \<times> 'w"
  clRESTMapping :: "'w \<Rightarrow> string option \<times> 'w"

type_synonym 'w attempt = "plant \<times> 'w state \<Rightarrow> api_error option \<times> plant \<times> 'w state"

record 'w reconciler =
  rClient :: "'w client"
  rAPIReader :: "'w reader option"
  rNow :: "'w \<Rightarrow> int \<times> 'w"
  rSetControllerReference :: set_ref
  rSetStatusCondition :: "condition \<Rightarrow> condition list \<Rightarrow> condition list"
  rRetryOnConflict :: "'w attempt \<Rightarrow> 'w attempt"

definition minRequeueInterval :: duration where "minRequeueInterval = 30 * second"
definition maxPlantNameLength :: nat where "maxPlantNameLength = 63"
definition serviceMonitorProbeTTL :: duration where "serviceMonitorProbeTTL = 30 * second"

definition eventPlantCreated :: string where "eventPlantCreated = ''PlantCreated''"
definition eventPlantUpdated :: string where "eventPlantUpdated = ''PlantUpdated''"
definition eventPlantDegraded :: string where "eventPlantDegraded = ''PlantDegraded''"
definition eventPlantRecovered :: string where "eventPlantRecovered = ''PlantRecovered''"
definition eventPlantBlocked :: string where "eventPlantBlocked = ''PlantBlocked''"
definition ReasonInvalidName :: string where "ReasonInvalidName = ''InvalidName''"
definition ReasonConflictingResource :: string where "ReasonConflictingResource = ''ConflictingResource''"

lemmas event_names = eventPlantCreated_def eventPlantUpdated_def eventPlantDegraded_def
  eventPlantRecovered_def eventPlantBlocked_def

section \<open>Single calls\<close>

definition emit :: "plant \<Rightarrow> event_type \<Rightarrow> string \<Rightarrow> string \<Rightarrow> 'w state \<Rightarrow> 'w state" where
  "emit p ty reason message s = s\<lparr>events := events s @ [Event (plant_key p) ty reason message]\<rparr>"

definition log_info :: "log_line \<Rightarrow> 'w state \<Rightarrow> 'w state" where
  "log_info l s = s\<lparr>logs := logs s @ [l]\<rparr>"

definition invoke :: "('w \<Rightarrow> 'a \<times> 'w) \<Rightarrow> ('a \<Rightarrow> call) \<Rightarrow> 'w state \<Rightarrow> 'a \<times> 'w state" where
  "invoke f c s = (let (r, w) = f (world s) in (r, s\<lparr>world := w, calls := calls s @ [c r]\<rparr>))"

definition now :: "'w reconciler \<Rightarrow> 'w state \<Rightarrow> int \<times> 'w state" where
  "now r s = (let (t, w) = rNow r (world s) in (t, s\<lparr>world := w\<rparr>))"

text \<open>The uncached reader, or the client when there is none.\<close>

definition reader_of :: "'w reconciler \<Rightarrow> 'w reader" where
  "reader_of r = (case rAPIReader r of None \<Rightarrow> reader.truncate (rClient r) | Some rd \<Rightarrow> rd)"

section \<open>Requeue interval\<close>

definition requeueIntervalFor :: "plant \<Rightarrow> duration" where
  "requeueIntervalFor p =
     (if slt (spWateringInterval (Spec p)) minRequeueInterval then minRequeueInterval
      else spWateringInterval (Spec p))"

section \<open>One child\<close>

datatype operation_result = ResultNone | ResultCreated | ResultUpdated

definition applyChild :: "'w reconciler \<Rightarrow> plant \<Rightarrow> object \<Rightarrow> 'w state
    \<Rightarrow> (error + operation_result \<times> object) \<times> 'w state" where
  "applyChild r p obj s =
     (let kind = obj_kind obj; key = obj_key obj; ref = rSetControllerReference r in
      case invoke (rdObject (reader_of r) kind key) (ReadObject kind key) s of
        (Inl e, s1) \<Rightarrow>
          if \<not> IsNotFound e
          then (Inl (Wrapped (''reading existing '' @ kind @ '' '' @ key_text key) (ApiError e)), s1)
          else (case mutate ref p obj of
              Inl m \<Rightarrow> (Inl (Plain m), s1)
            | Inr want \<Rightarrow> (case invoke (clCreate (rClient r) want) (CreateObject want) s1 of
                  (Inl e, s2) \<Rightarrow> (Inl (ApiError e), s2)
                | (Inr stored, s2) \<Rightarrow> (Inr (ResultCreated, stored), s2)))
      | (Inr existing, s1) \<Rightarrow>
          (case assertOwnership p existing of
             Some c \<Rightarrow> (Inl (ConflictingResource c), s1)
           | None \<Rightarrow> (case mutate ref p existing of
               Inl m \<Rightarrow> (Inl (Plain m), s1)
             | Inr want \<Rightarrow>
                 if obj_key want \<noteq> key
                 then (Inl (Plain (''mutate function moved '' @ kind @ '' from '' @ key_text key
                         @ '' to '' @ key_text (obj_key want))), s1)
                 else if existing = want then (Inr (ResultNone, want), s1)
                 else (case invoke (clUpdate (rClient r) want) (UpdateObject want) s1 of
                     (Inl e, s2) \<Rightarrow> (Inl (ApiError e), s2)
                   | (Inr stored, s2) \<Rightarrow> (Inr (ResultUpdated, stored), s2)))))"

section \<open>All children\<close>

definition serviceMonitorCRDAvailable :: "'w reconciler \<Rightarrow> 'w state \<Rightarrow> bool \<times> 'w state" where
  "serviceMonitorCRDAvailable r s =
     (let until = serviceMonitorNegativeCacheUntil s;
          (cached, s1) = (if until = 0 then (False, s)
                          else (let (t, s1) = now r s in (slt (word_of_int t) until, s1)))
      in if cached then (False, s1)
         else (case invoke (clRESTMapping (rClient r)) MapServiceMonitor s1 of
             (Some err, s2) \<Rightarrow>
               (let (t, s3) = now r s2;
                    s4 = s3\<lparr>serviceMonitorNegativeCacheUntil := word_of_int (t + sint serviceMonitorProbeTTL)\<rparr>;
                    s5 = (if serviceMonitorUnavailableLogged s4 then s4
                          else log_info (LogNoServiceMonitor err) (s4\<lparr>serviceMonitorUnavailableLogged := True\<rparr>))
                in (False, s5))
           | (None, s2) \<Rightarrow> (True, s2\<lparr>serviceMonitorNegativeCacheUntil := 0\<rparr>)))"

text \<open>\<open>note\<close>: what the two flags \<open>(created, updated)\<close> become.\<close>

fun note_result :: "operation_result \<Rightarrow> bool \<times> bool \<Rightarrow> bool \<times> bool" where
  "note_result ResultCreated f = (True, snd f)"
| "note_result ResultUpdated f = (fst f, True)"
| "note_result ResultNone f = f"

definition reconciling :: "string \<Rightarrow> plant \<Rightarrow> error \<Rightarrow> error" where
  "reconciling kind p e =
     Wrapped (''reconciling '' @ kind @ '' for plant '' @ pNamespace p @ ''/'' @ pName p) e"

text \<open>The loop over the table; it answers with the objects as last seen, in the order of the table.\<close>

fun applyChildren :: "'w reconciler \<Rightarrow> plant \<Rightarrow> object list \<Rightarrow> bool \<times> bool \<Rightarrow> 'w state
    \<Rightarrow> (error + object list \<times> bool \<times> bool) \<times> 'w state" where
  "applyChildren r p [] f s = (Inr ([], f), s)"
| "applyChildren r p (child # children) f s =
     (case applyChild r p child s of
        (Inl e, s1) \<Rightarrow> (Inl (reconciling (obj_kind child) p e), s1)
      | (Inr (res, obj), s1) \<Rightarrow>
          (case applyChildren r p children (note_result res f) s1 of
             (Inl e, s2) \<Rightarrow> (Inl e, s2)
           | (Inr (objs, f2), s2) \<Rightarrow> (Inr (obj # objs, f2), s2)))"

text \<open>The Deployment variable is the first object of the table; a client answers a call on a
  Deployment with a Deployment, so the last branch, the variable as declared, is not reached.\<close>

fun deployment_of :: "plant \<Rightarrow> object list \<Rightarrow> deployment" where
  "deployment_of p (ODeployment d # objs) = d"
| "deployment_of p objs = (case blank_children p of ODeployment d # rest \<Rightarrow> d)"

definition reconcileChildren :: "'w reconciler \<Rightarrow> plant \<Rightarrow> 'w state
    \<Rightarrow> (error + deployment \<times> bool \<times> bool) \<times> 'w state" where
  "reconcileChildren r p s =
     (case applyChildren r p (blank_children p) (False, False) s of
        (Inl e, s1) \<Rightarrow> (Inl e, s1)
      | (Inr (objs, f), s1) \<Rightarrow>
          (case serviceMonitorCRDAvailable r s1 of
             (False, s2) \<Rightarrow> (Inr (deployment_of p objs, f), s2)
           | (True, s2) \<Rightarrow>
               (case applyChild r p (OServiceMonitor (ServiceMonitorFor p)) s2 of
                  (Inl e, s3) \<Rightarrow> (Inl (reconciling ''ServiceMonitor'' p e), s3)
                | (Inr (res, obj), s3) \<Rightarrow> (Inr (deployment_of p objs, note_result res f), s3))))"

section \<open>The status\<close>

definition markDegraded :: "'w reconciler \<Rightarrow> plant \<Rightarrow> string \<Rightarrow> string \<Rightarrow> 'w state
    \<Rightarrow> error option \<times> 'w state" where
  "markDegraded r p reason message s =
     (let (t, s1) = now r s;
          newStatus = (Status p)\<lparr>stConditions := rSetStatusCondition r
            \<lparr>cType = ConditionDegraded, cStatus = CTrue, cObservedGeneration = mGeneration (pMeta p),
             cLastTransitionTime = t, cReason = reason, cMessage = message\<rparr> (stConditions (Status p))\<rparr>
      in if \<not> statusChanged (Status p) newStatus then (None, s1)
         else (let s2 = emit p Warning eventPlantBlocked message s1; p' = p\<lparr>Status := newStatus\<rparr> in
           case invoke (clUpdateStatus (rClient r) p') (UpdateStatus p') s2 of
             (Inl e, s3) \<Rightarrow> (Some (Wrapped (''marking plant '' @ key_text (plant_key p) @ '' degraded ('' @ reason @ '')'')
                 (ApiError e)), s3)
           | (Inr stored, s3) \<Rightarrow> (None, s3)))"

definition emitHealthEvents :: "plant \<Rightarrow> plant_status \<Rightarrow> plant_status \<Rightarrow> 'w state \<Rightarrow> 'w state" where
  "emitHealthEvents p oldStatus newStatus s =
     (let wasDegraded = conditionTrue (stConditions oldStatus) ConditionDegraded;
          isDegraded = conditionTrue (stConditions newStatus) ConditionDegraded
      in if isDegraded \<and> \<not> wasDegraded
         then emit p Warning eventPlantDegraded ''plant has no ready replicas'' s
         else if wasDegraded \<and> \<not> isDegraded
         then emit p Normal eventPlantRecovered ''plant has at least one ready replica again'' s
         else s)"

text \<open>The function handed to \<^verbatim>\<open>RetryOnConflict\<close>; the Plant is a captured variable.\<close>

definition status_attempt :: "'w reconciler \<Rightarrow> plant_status \<Rightarrow> 'w attempt" where
  "status_attempt r newStatus = (\<lambda>(p, s).
     case invoke (clUpdateStatus (rClient r) p) (UpdateStatus p) s of
       (Inr stored, s1) \<Rightarrow> (None, stored, s1)
     | (Inl e, s1) \<Rightarrow>
         if \<not> IsConflict e then (Some e, p, s1)
         else (case invoke (rdPlant (reader_of r) (plant_key p)) (ReadPlant (plant_key p)) s1 of
             (Inl getErr, s2) \<Rightarrow> (Some getErr, p, s2)
           | (Inr latest, s2) \<Rightarrow> (Some e, latest\<lparr>Status := newStatus\<rparr>, s2)))"

definition reconcileStatus :: "'w reconciler \<Rightarrow> plant \<Rightarrow> deployment \<Rightarrow> 'w state
    \<Rightarrow> (error + plant) \<times> 'w state" where
  "reconcileStatus r p dep s =
     (let (t1, s1) = now r s; (t2, s2) = now r s1;
          newStatus = computeStatus (rSetStatusCondition r) p dep t1 t2
      in if \<not> statusChanged (Status p) newStatus then (Inr p, log_info (LogStatusUnchanged (pName p)) s2)
         else (let s3 = emitHealthEvents p (Status p) newStatus s2 in
           case rRetryOnConflict r (status_attempt r newStatus) (p\<lparr>Status := newStatus\<rparr>, s3) of
             (None, p', s4) \<Rightarrow> (Inr p', s4)
           | (Some e, p', s4) \<Rightarrow>
               (Inl (Wrapped (''updating status for plant '' @ key_text (plant_key p')) (ApiError e)), s4)))"

section \<open>Reconcile\<close>

definition overlong_message :: "string \<Rightarrow> string" where
  "overlong_message n = ''plant name is '' @ itoa (int (length n))
     @ '' characters; it is used as a label value on every child and Kubernetes caps label values at ''
     @ itoa (int maxPlantNameLength)"

definition created_message :: string where
  "created_message =
     ''created Deployment, Service, ConfigMap, PodDisruptionBudget, ServiceAccount, and NetworkPolicy''"

definition updated_message :: string where
  "updated_message = ''corrected drift on one or more owned children''"

text \<open>The result is the interval to requeue after; zero stands for no requeue.\<close>

definition Reconcile :: "'w reconciler \<Rightarrow> key \<Rightarrow> 'w state \<Rightarrow> (error + duration) \<times> 'w state" where
  "Reconcile r req s =
     (case invoke (rdPlant (reader.truncate (rClient r)) req) (GetPlant req) s of
        (Inl e, s1) \<Rightarrow>
          if IsNotFound e then (Inr 0, s1)
          else (Inl (Wrapped (''fetching plant '' @ key_text req) (ApiError e)), s1)
      | (Inr p, s1) \<Rightarrow>
          if mDeletionTimestamp (pMeta p) \<noteq> None then (Inr 0, s1)
          else if maxPlantNameLength < length (pName p)
          then (case markDegraded r p ReasonInvalidName (overlong_message (pName p))
                    (log_info (LogOverlongName (pName p) (length (pName p))) s1) of
                  (Some e, s2) \<Rightarrow> (Inl e, s2)
                | (None, s2) \<Rightarrow> (Inr 0, s2))
          else (case reconcileChildren r p s1 of
              (Inl e, s2) \<Rightarrow>
                (case as_conflicting e of
                   None \<Rightarrow> (Inl e, s2)
                 | Some c \<Rightarrow>
                     (case markDegraded r p ReasonConflictingResource (conflict_text c) s2 of
                        (Some markErr, s3) \<Rightarrow> (Inl markErr, s3)
                      | (None, s3) \<Rightarrow> (Inl e, s3)))
            | (Inr (deployment, created, updated), s2) \<Rightarrow>
                (let s3 = (if created then emit p Normal eventPlantCreated created_message s2
                           else if updated then emit p Normal eventPlantUpdated updated_message s2
                           else s2)
                 in case reconcileStatus r p deployment s3 of
                      (Inl e, s4) \<Rightarrow> (Inl e, s4)
                    | (Inr p', s4) \<Rightarrow> (Inr (requeueIntervalFor p'), s4))))"

section \<open>Which calls follow which\<close>

text \<open>
  \<open>permitted\<close>: a write of a child comes directly after the read of the same object; an update
  only of an object that passed the ownership check, with what mutating it gave; a creation only
  of an object that was not found.
\<close>

fun permitted :: "set_ref \<Rightarrow> plant \<Rightarrow> call option \<Rightarrow> call \<Rightarrow> bool" where
  "permitted ref p before (UpdateObject obj res) \<longleftrightarrow>
     (case before of
        Some (ReadObject kind key (Inr existing)) \<Rightarrow>
          assertOwnership p existing = None \<and> mutate ref p existing = Inr obj \<and> existing \<noteq> obj \<and> obj_key obj = key
      | _ \<Rightarrow> False)"
| "permitted ref p before (CreateObject obj res) \<longleftrightarrow>
     (case before of
        Some (ReadObject kind key (Inl e)) \<Rightarrow>
          IsNotFound e \<and> (\<exists>blank. obj_kind blank = kind \<and> obj_key blank = key \<and> mutate ref p blank = Inr obj)
      | _ \<Rightarrow> False)"
| "permitted ref p before (UpdateStatus q res) \<longleftrightarrow> True"
| "permitted ref p before (GetPlant k res) \<longleftrightarrow> True"
| "permitted ref p before (ReadPlant k res) \<longleftrightarrow> True"
| "permitted ref p before (ReadObject kind key res) \<longleftrightarrow> True"
| "permitted ref p before (MapServiceMonitor res) \<longleftrightarrow> True"

fun guarded_from :: "set_ref \<Rightarrow> plant \<Rightarrow> call option \<Rightarrow> call list \<Rightarrow> bool" where
  "guarded_from ref p before [] \<longleftrightarrow> True"
| "guarded_from ref p before (c # cs) \<longleftrightarrow> permitted ref p before c \<and> guarded_from ref p (Some c) cs"

text \<open>The new calls of a step, and a property of them that is closed under concatenation.\<close>

definition extends :: "(call list \<Rightarrow> bool) \<Rightarrow> 'w state \<Rightarrow> 'w state \<Rightarrow> bool" where
  "extends P s s' \<longleftrightarrow> (\<exists>tr. calls s' = calls s @ tr \<and> P tr)"

locale trace_property =
  fixes P :: "call list \<Rightarrow> bool"
  assumes empty: "P []" and concat: "P a \<Longrightarrow> P b \<Longrightarrow> P (a @ b)"
begin

lemma extends_refl: "calls s' = calls s \<Longrightarrow> extends P s s'"
  using empty by (simp add: extends_def)

lemma extends_trans: "extends P s1 s2 \<Longrightarrow> extends P s2 s3 \<Longrightarrow> extends P s1 s3"
  using concat by (fastforce simp: extends_def)

lemma extends_invoke: "invoke f c s = (r, s') \<Longrightarrow> P [c r] \<Longrightarrow> extends P s s'"
  by (auto simp: extends_def invoke_def split: prod.splits)

lemma extends_invoke_snd: "(\<And>r. P [c r]) \<Longrightarrow> extends P s (snd (invoke f c s))"
  by (auto simp: extends_def invoke_def split: prod.splits)

end

lemma guarded_weaken: "guarded_from ref p None cs \<Longrightarrow> guarded_from ref p before cs"
proof (cases cs)
  case (Cons c cs')
  assume "guarded_from ref p None cs"
  then show ?thesis unfolding Cons by (cases c) simp_all
qed simp

lemma guarded_append:
  "guarded_from ref p before a \<Longrightarrow> guarded_from ref p None b \<Longrightarrow> guarded_from ref p before (a @ b)"
  by (induction a arbitrary: before) (simp_all add: guarded_weaken)

text \<open>The children of a Plant, and the calls that bring them in line.\<close>

definition child_ids :: "plant \<Rightarrow> (string \<times> key) set" where
  "child_ids p = set (map (\<lambda>obj. (obj_kind obj, obj_key obj)) (blank_children p @ [OServiceMonitor (ServiceMonitorFor p)]))"

fun child_call :: "plant \<Rightarrow> call \<Rightarrow> bool" where
  "child_call p (ReadObject kind key res) \<longleftrightarrow> (kind, key) \<in> child_ids p"
| "child_call p (CreateObject obj res) \<longleftrightarrow> True"
| "child_call p (UpdateObject obj res) \<longleftrightarrow> True"
| "child_call p (MapServiceMonitor res) \<longleftrightarrow> True"
| "child_call p (GetPlant k res) \<longleftrightarrow> False"
| "child_call p (ReadPlant k res) \<longleftrightarrow> False"
| "child_call p (UpdateStatus q res) \<longleftrightarrow> False"

definition child_trace :: "set_ref \<Rightarrow> plant \<Rightarrow> call list \<Rightarrow> bool" where
  "child_trace ref p tr \<longleftrightarrow> guarded_from ref p None tr \<and> list_all (child_call p) tr"

interpretation child: trace_property "child_trace ref p" for ref p
  by unfold_locales (simp_all add: guarded_append child_trace_def)

lemma guarded_update:
  assumes "guarded_from ref p before (xs @ UpdateObject obj res # ys)"
  shows "\<exists>kind existing. (if xs = [] then before else Some (last xs)) = Some (ReadObject kind (obj_key obj) (Inr existing)) \<and>
     assertOwnership p existing = None \<and> mutate ref p existing = Inr obj \<and> existing \<noteq> obj"
  using assms
  by (induction xs arbitrary: before) (auto split: option.splits call.splits sum.splits if_splits)

lemma guarded_create:
  assumes "guarded_from ref p before (xs @ CreateObject obj res # ys)"
  shows "\<exists>blank e. (if xs = [] then before else Some (last xs)) =
       Some (ReadObject (obj_kind blank) (obj_key blank) (Inl e)) \<and> IsNotFound e \<and> mutate ref p blank = Inr obj"
  using assms
  by (induction xs arbitrary: before) (fastforce split: option.splits call.splits sum.splits if_splits)+

section \<open>The calls of each operation\<close>

lemma now_calls [simp]: "calls (snd (now r s)) = calls s" "now r s = (t, s') \<Longrightarrow> calls s' = calls s"
  by (auto simp: now_def split: prod.splits)

lemma emit_calls [simp]: "calls (emit p ty a b s) = calls s" "calls (log_info l s) = calls s"
  by (simp_all add: emit_def log_info_def)

lemma emitHealthEvents_calls [simp]: "calls (emitHealthEvents p a b s) = calls s"
  by (simp add: emitHealthEvents_def Let_def)

lemma invoke_calls: "invoke f c s = (r, s') \<Longrightarrow> calls s' = calls s @ [c r]"
  by (auto simp: invoke_def split: prod.splits)

lemma applyChild_trace:
  assumes "applyChild r p obj s = (res, s')" "(obj_kind obj, obj_key obj) \<in> child_ids p"
  shows "extends (child_trace (rSetControllerReference r) p) s s'"
proof -
  obtain rd s1 where rd: "invoke (rdObject (reader_of r) (obj_kind obj) (obj_key obj)) (ReadObject (obj_kind obj) (obj_key obj)) s = (rd, s1)"
    by fastforce
  note c1 = invoke_calls [OF rd]
  show ?thesis
  proof (cases rd)
    case (Inl e)
    show ?thesis
      using assms rd Inl c1 unfolding applyChild_def Let_def
      by (auto simp: extends_def child_trace_def split: sum.splits prod.splits if_splits dest!: invoke_calls)
  next
    case (Inr existing)
    show ?thesis
      using assms rd Inr c1 unfolding applyChild_def Let_def
      by (auto simp: extends_def child_trace_def split: sum.splits prod.splits if_splits option.splits dest!: invoke_calls)
  qed
qed

lemma serviceMonitorCRDAvailable_trace:
  "serviceMonitorCRDAvailable r s = (b, s') \<Longrightarrow> extends (child_trace ref p) s s'"
  unfolding serviceMonitorCRDAvailable_def Let_def
  by (auto simp: extends_def child_trace_def log_info_def now_def
      split: option.splits prod.splits if_splits dest!: invoke_calls)

lemma applyChildren_trace:
  "applyChildren r p cs f s = (res, s') \<Longrightarrow> (\<forall>c \<in> set cs. (obj_kind c, obj_key c) \<in> child_ids p) \<Longrightarrow>
     extends (child_trace (rSetControllerReference r) p) s s'"
proof (induction cs arbitrary: f s res s')
  case Nil
  then show ?case by (auto intro: child.extends_refl)
next
  case (Cons c cs)
  obtain res1 s1 where s1: "applyChild r p c s = (res1, s1)" by fastforce
  have e: "extends (child_trace (rSetControllerReference r) p) s s1"
    using applyChild_trace [OF s1] Cons.prems(2) by simp
  show ?case
  proof (cases res1)
    case (Inl x)
    then show ?thesis using Cons.prems s1 e by auto
  next
    case (Inr y)
    obtain op obj where y: "y = (op, obj)" by fastforce
    obtain res2 s2 where s2: "applyChildren r p cs (note_result op f) s1 = (res2, s2)" by fastforce
    have "s' = s2" using Cons.prems(1) s1 s2 Inr y by (auto split: sum.splits prod.splits)
    then show ?thesis using child.extends_trans [OF e Cons.IH [OF s2]] Cons.prems(2) by simp
  qed
qed

lemma reconcileChildren_trace:
  assumes "reconcileChildren r p s = (res, s')"
  shows "extends (child_trace (rSetControllerReference r) p) s s'"
proof -
  let ?E = "extends (child_trace (rSetControllerReference r) p)"
  have m: "(obj_kind (OServiceMonitor (ServiceMonitorFor p)), obj_key (OServiceMonitor (ServiceMonitorFor p))) \<in> child_ids p"
    and b: "\<forall>c \<in> set (blank_children p). (obj_kind c, obj_key c) \<in> child_ids p" by (simp_all add: child_ids_def)
  obtain r1 s1 where 1: "applyChildren r p (blank_children p) (False, False) s = (r1, s1)" by fastforce
  obtain a s2 where 2: "serviceMonitorCRDAvailable r s1 = (a, s2)" by fastforce
  obtain r3 s3 where 3: "applyChild r p (OServiceMonitor (ServiceMonitorFor p)) s2 = (r3, s3)" by fastforce
  note e1 = applyChildren_trace [OF 1 b]
  note e2 = child.extends_trans [OF e1 serviceMonitorCRDAvailable_trace [OF 2]]
  note e3 = child.extends_trans [OF e2 applyChild_trace [OF 3 m]]
  have "s' \<in> {s1, s2, s3}" using assms 1 2 3
    by (cases r1; cases a; cases r3) (auto simp: reconcileChildren_def)
  then show ?thesis using e1 e2 e3 by blast
qed

section \<open>Retrying on a conflict\<close>

text \<open>
  \<^verbatim>\<open>retry.RetryOnConflict\<close> with \<^verbatim>\<open>retry.DefaultRetry\<close>: the function runs up to
  five times, again only after a conflict, with a pause between two runs, and the last result is
  the result. \<open>idle\<close> is the pause, in which the world moves on.
\<close>

inductive retried :: "('s \<Rightarrow> api_error option \<times> 's) \<Rightarrow> ('s \<Rightarrow> 's) \<Rightarrow> nat \<Rightarrow> 's \<Rightarrow> api_error option \<times> 's \<Rightarrow> bool"
  for fn idle where
  stop: "fn s = (e, s') \<Longrightarrow> \<not> (\<exists>x. e = Some x \<and> IsConflict x) \<Longrightarrow> retried fn idle (Suc n) s (e, s')"
| exhausted: "fn s = (Some e, s') \<Longrightarrow> IsConflict e \<Longrightarrow> retried fn idle (Suc 0) s (Some e, s')"
| again: "fn s = (Some e, s') \<Longrightarrow> IsConflict e \<Longrightarrow> retried fn idle n (idle s') res \<Longrightarrow> retried fn idle (Suc n) s res"

definition idle :: "('w \<Rightarrow> 'w) \<Rightarrow> plant \<times> 'w state \<Rightarrow> plant \<times> 'w state" where
  "idle pause = (\<lambda>(p, s). (p, s\<lparr>world := pause (world s)\<rparr>))"

locale conflict_retry =
  fixes retry :: "'w attempt \<Rightarrow> 'w attempt" and pause :: "'w \<Rightarrow> 'w"
  assumes retried_five: "retried fn (idle pause) 5 x (retry fn x)"

text \<open>An instance.\<close>

fun attempts :: "('w \<Rightarrow> 'w) \<Rightarrow> nat \<Rightarrow> 'w attempt \<Rightarrow> 'w attempt" where
  "attempts pause 0 fn x = fn x"
| "attempts pause (Suc n) fn x =
     (case fn x of
        (Some e, y) \<Rightarrow> if IsConflict e then attempts pause n fn (idle pause y) else (Some e, y)
      | (None, y) \<Rightarrow> (None, y))"

lemma attempts_retried: "retried fn (idle pause) (Suc n) x (attempts pause n fn x)"
proof (induction n arbitrary: x)
  case 0
  show ?case by (cases "fn x"; cases "\<exists>e. fst (fn x) = Some e \<and> IsConflict e") (auto intro: retried.intros)
next
  case (Suc n)
  show ?case
    by (cases "fn x"; cases "\<exists>e. fst (fn x) = Some e \<and> IsConflict e")
      (auto intro: retried.again [OF _ _ Suc] retried.stop split: option.split)
qed

interpretation retrying: conflict_retry "attempts pause 4" pause for pause
  by unfold_locales (use attempts_retried [where n = 4] in simp)

section \<open>The calls of a status write\<close>

text \<open>
  \<open>status_run ns before tr\<close>: only writes of the status \<open>ns\<close> and fresh reads of the
  Plant; a write directly after a read writes what was read, with the status replaced.
\<close>

fun status_run :: "plant_status \<Rightarrow> call option \<Rightarrow> call list \<Rightarrow> bool" where
  "status_run ns before [] \<longleftrightarrow> True"
| "status_run ns before (UpdateStatus q res # cs) \<longleftrightarrow>
     Status q = ns \<and>
     (\<forall>k latest. before = Some (ReadPlant k (Inr latest)) \<longrightarrow> q = latest\<lparr>Status := ns\<rparr>) \<and>
     status_run ns (Some (UpdateStatus q res)) cs"
| "status_run ns before (ReadPlant k res # cs) \<longleftrightarrow> status_run ns (Some (ReadPlant k res)) cs"
| "status_run ns before (GetPlant k res # cs) \<longleftrightarrow> False"
| "status_run ns before (ReadObject kind k res # cs) \<longleftrightarrow> False"
| "status_run ns before (CreateObject obj res # cs) \<longleftrightarrow> False"
| "status_run ns before (UpdateObject obj res # cs) \<longleftrightarrow> False"
| "status_run ns before (MapServiceMonitor res # cs) \<longleftrightarrow> False"

fun is_status_update :: "call \<Rightarrow> bool" where
  "is_status_update (UpdateStatus q res) \<longleftrightarrow> True"
| "is_status_update (GetPlant k res) \<longleftrightarrow> False"
| "is_status_update (ReadPlant k res) \<longleftrightarrow> False"
| "is_status_update (ReadObject kind key res) \<longleftrightarrow> False"
| "is_status_update (CreateObject obj res) \<longleftrightarrow> False"
| "is_status_update (UpdateObject obj res) \<longleftrightarrow> False"
| "is_status_update (MapServiceMonitor res) \<longleftrightarrow> False"

definition status_updates :: "call list \<Rightarrow> nat" where
  "status_updates tr = length (filter is_status_update tr)"

lemma status_updates_simps [simp]:
  "status_updates [] = 0" "status_updates (a @ b) = status_updates a + status_updates b"
  "status_updates (c # cs) = (if is_status_update c then 1 else 0) + status_updates cs"
  by (simp_all add: status_updates_def)

text \<open>What the reconciler keeps besides its world and its trace.\<close>

definition same_frame :: "'w state \<Rightarrow> 'w state \<Rightarrow> bool" where
  "same_frame s s' \<longleftrightarrow> events s' = events s \<and> logs s' = logs s \<and>
     serviceMonitorNegativeCacheUntil s' = serviceMonitorNegativeCacheUntil s \<and>
     serviceMonitorUnavailableLogged s' = serviceMonitorUnavailableLogged s"

lemma same_frame_refl [simp]: "same_frame s s" by (simp add: same_frame_def)

lemma same_frame_trans: "same_frame a b \<Longrightarrow> same_frame b c \<Longrightarrow> same_frame a c"
  by (simp add: same_frame_def)

lemma invoke_frame: "invoke f c s = (r, s') \<Longrightarrow> same_frame s s'"
  by (auto simp: invoke_def same_frame_def split: prod.splits)

lemma now_frame: "now r s = (t, s') \<Longrightarrow> same_frame s s'"
  by (auto simp: now_def same_frame_def split: prod.splits)


lemma status_attempt_calls:
  assumes "status_attempt r ns (p, s) = (e, p', s')"
  shows "same_frame s s' \<and> (
    e = None \<and> calls s' = calls s @ [UpdateStatus p (Inr p')] \<or>
    (\<exists>x. e = Some x \<and> \<not> IsConflict x \<and> p' = p \<and> calls s' = calls s @ [UpdateStatus p (Inl x)]) \<or>
    (\<exists>x y. e = Some y \<and> p' = p \<and> calls s' = calls s @ [UpdateStatus p (Inl x), ReadPlant (plant_key p) (Inl y)]) \<or>
    (\<exists>x latest. e = Some x \<and> IsConflict x \<and> p' = latest\<lparr>Status := ns\<rparr> \<and>
       calls s' = calls s @ [UpdateStatus p (Inl x), ReadPlant (plant_key p) (Inr latest)]))"
proof -
  obtain r1 s1 where 1: "invoke (clUpdateStatus (rClient r) p) (UpdateStatus p) s = (r1, s1)" by fastforce
  obtain r2 s2 where 2: "invoke (rdPlant (reader_of r) (plant_key p)) (ReadPlant (plant_key p)) s1 = (r2, s2)" by fastforce
  note f = invoke_frame [OF 1] same_frame_trans [OF invoke_frame [OF 1] invoke_frame [OF 2]]
  show ?thesis using assms 1 2 f invoke_calls [OF 1] invoke_calls [OF 2]
    by (cases r1; cases r2) (auto simp: status_attempt_def split: if_splits)
qed

lemma retried_status:
  assumes "retried (status_attempt r ns) (idle pause) n x res" "Status (fst x) = ns"
  shows "\<exists>res0 tr. calls (snd (snd res)) = calls (snd x) @ UpdateStatus (fst x) res0 # tr \<and>
    status_run ns None (UpdateStatus (fst x) res0 # tr) \<and> 1 + status_updates tr \<le> n \<and>
    (fst res = None \<longrightarrow> (\<exists>q. last (UpdateStatus (fst x) res0 # tr) = UpdateStatus q (Inr (fst (snd res))))) \<and>
    same_frame (snd x) (snd (snd res))"
  using assms
proof (induction rule: retried.induct)
  case (stop x e s' n)
  obtain p s where x: "x = (p, s)" by fastforce
  obtain p' t' where s': "s' = (p', t')" by fastforce
  have "\<And>y. e = Some y \<Longrightarrow> \<not> IsConflict y" using stop by blast
  then show ?case using status_attempt_calls [of r ns p s e p' t'] stop unfolding x s'
    by (auto 0 3)
next
  case (exhausted x e s')
  obtain p s where x: "x = (p, s)" by fastforce
  obtain p' t' where s': "s' = (p', t')" by fastforce
  then show ?case using status_attempt_calls [of r ns p s "Some e" p' t'] exhausted unfolding x s'
    by auto
next
  case (again x e s' n res)
  obtain p s where x: "x = (p, s)" by fastforce
  obtain p' t' where s': "s' = (p', t')" by fastforce
  have c: "same_frame s t' \<and> (\<exists>x rd. calls t' = calls s @ [UpdateStatus p (Inl x), ReadPlant (plant_key p) rd] \<and>
      (case rd of Inl y \<Rightarrow> p' = p | Inr latest \<Rightarrow> p' = latest\<lparr>Status := ns\<rparr>))"
    using status_attempt_calls [of r ns p s "Some e" p' t'] again(1,2) unfolding x s' by fastforce
  obtain x0 rd where t: "calls t' = calls s @ [UpdateStatus p (Inl x0), ReadPlant (plant_key p) rd]"
    "case rd of Inl y \<Rightarrow> p' = p | Inr latest \<Rightarrow> p' = latest\<lparr>Status := ns\<rparr>" "same_frame s t'"
    using c by blast
  have "Status p' = ns" using again.prems t(2) x by (cases rd) auto
  then obtain res0 tr where ih: "calls (snd (snd res)) = calls (snd (idle pause s')) @ UpdateStatus p' res0 # tr"
    "status_run ns None (UpdateStatus p' res0 # tr)" "1 + status_updates tr \<le> n"
    "fst res = None \<longrightarrow> (\<exists>q. last (UpdateStatus p' res0 # tr) = UpdateStatus q (Inr (fst (snd res))))"
    "same_frame (snd (idle pause s')) (snd (snd res))"
    using again.IH by (auto simp: idle_def s')
  have i: "calls (snd (idle pause s')) = calls t'" "same_frame t' (snd (idle pause s'))"
    by (simp_all add: idle_def s' same_frame_def)
  have "status_run ns (Some (ReadPlant (plant_key p) rd)) (UpdateStatus p' res0 # tr)"
    using ih(2) t(2) by (auto split: sum.splits)
  then show ?case using ih t i again.prems unfolding x
    by (intro exI [of _ "Inl x0"] exI [of _ "ReadPlant (plant_key p) rd # UpdateStatus p' res0 # tr"])
      (auto intro: same_frame_trans)
qed

section \<open>The operator under its contracts\<close>

locale plant_operator =
  controller_reference "rSetControllerReference r" + status_conditions "rSetStatusCondition r" +
  conflict_retry "rRetryOnConflict r" pause
  for r :: "'w reconciler" and pause :: "'w \<Rightarrow> 'w"
begin

lemma reconcileStatus_cases:
  assumes "reconcileStatus r p dep s = (res, s')"
  obtains t1 t2 ns tr where "ns = computeStatus (rSetStatusCondition r) p dep t1 t2"
    "calls s' = calls s @ tr" "status_run ns None tr" "status_updates tr \<le> 5"
    "statusChanged (Status p) ns \<longleftrightarrow> tr \<noteq> []"
    "events s' = (if tr = [] then events s else events (emitHealthEvents p (Status p) ns s))"
    "\<And>p'. res = Inr p' \<Longrightarrow> if tr = [] then p' = p else (\<exists>q. last tr = UpdateStatus q (Inr p'))"
    "\<And>e. res = Inl e \<Longrightarrow> as_conflicting e = None"
    "tr \<noteq> [] \<Longrightarrow> \<exists>res0. hd tr = UpdateStatus (p\<lparr>Status := ns\<rparr>) res0"
proof -
  obtain t1 s1 where 1: "now r s = (t1, s1)" by fastforce
  obtain t2 s2 where 2: "now r s1 = (t2, s2)" by fastforce
  let ?ns = "computeStatus (rSetStatusCondition r) p dep t1 t2"
  have c: "calls s2 = calls s" "events s2 = events s"
    using 1 2 now_frame [OF 1] now_frame [OF 2] by (simp_all add: same_frame_def)
  show ?thesis
  proof (cases "statusChanged (Status p) ?ns")
    case False
    then have "res = Inr p" "calls s' = calls s" "events s' = events s"
      using assms 1 2 c by (auto simp: reconcileStatus_def log_info_def)
    then show ?thesis using False by (intro that [of ?ns t1 t2 "[]"]) simp_all
  next
    case True
    let ?s3 = "emitHealthEvents p (Status p) ?ns s2"
    obtain e p' s4 where 4: "rRetryOnConflict r (status_attempt r ?ns) (p\<lparr>Status := ?ns\<rparr>, ?s3) = (e, p', s4)"
      using prod_cases3 by blast
    have q: "retried (status_attempt r ?ns) (idle pause) 5 (p\<lparr>Status := ?ns\<rparr>, ?s3) (e, p', s4)"
      using retried_five [of "status_attempt r ?ns" "(p\<lparr>Status := ?ns\<rparr>, ?s3)"] unfolding 4 .
    obtain res0 tr where tr: "calls s4 = calls s @ UpdateStatus (p\<lparr>Status := ?ns\<rparr>) res0 # tr"
      "status_run ?ns None (UpdateStatus (p\<lparr>Status := ?ns\<rparr>) res0 # tr)" "1 + status_updates tr \<le> 5"
      "e = None \<longrightarrow> (\<exists>q. last (UpdateStatus (p\<lparr>Status := ?ns\<rparr>) res0 # tr) = UpdateStatus q (Inr p'))"
      "same_frame ?s3 s4"
      using retried_status [OF q] c by auto
    have r: "s' = s4" "res = (case e of None \<Rightarrow> Inr p' | Some x \<Rightarrow>
        Inl (Wrapped (''updating status for plant '' @ key_text (plant_key p')) (ApiError x)))"
      using assms 1 2 4 True by (auto simp: reconcileStatus_def Let_def split: option.splits)
    have ev: "events (emitHealthEvents p (Status p) ?ns s2) = events (emitHealthEvents p (Status p) ?ns s)"
      using c by (simp add: emitHealthEvents_def emit_def Let_def)
    show ?thesis
    proof (rule that [of ?ns t1 t2 "UpdateStatus (p\<lparr>Status := ?ns\<rparr>) res0 # tr"])
      show "events s' = (if UpdateStatus (p\<lparr>Status := ?ns\<rparr>) res0 # tr = [] then events s
          else events (emitHealthEvents p (Status p) ?ns s))"
        using tr(5) ev r(1) by (simp add: same_frame_def)
    qed (use tr r True in \<open>auto split: option.splits\<close>)
  qed
qed

end

lemma markDegraded_cases:
  assumes "markDegraded r p reason message s = (e, s')"
  obtains t ns where "ns = (Status p)\<lparr>stConditions := rSetStatusCondition r
      \<lparr>cType = ConditionDegraded, cStatus = CTrue, cObservedGeneration = mGeneration (pMeta p),
       cLastTransitionTime = t, cReason = reason, cMessage = message\<rparr> (stConditions (Status p))\<rparr>"
    "\<not> statusChanged (Status p) ns \<Longrightarrow> e = None \<and> calls s' = calls s \<and> events s' = events s"
    "statusChanged (Status p) ns \<Longrightarrow> \<exists>res. calls s' = calls s @ [UpdateStatus (p\<lparr>Status := ns\<rparr>) res] \<and>
       events s' = events s @ [Event (plant_key p) Warning eventPlantBlocked message] \<and>
       (e = None \<longleftrightarrow> isl res = False)"
    "logs s' = logs s" "\<And>x. e = Some x \<Longrightarrow> as_conflicting x = None"
proof -
  obtain t s1 where 1: "now r s = (t, s1)" by fastforce
  let ?ns = "(Status p)\<lparr>stConditions := rSetStatusCondition r
      \<lparr>cType = ConditionDegraded, cStatus = CTrue, cObservedGeneration = mGeneration (pMeta p),
       cLastTransitionTime = t, cReason = reason, cMessage = message\<rparr> (stConditions (Status p))\<rparr>"
  let ?s2 = "emit p Warning eventPlantBlocked message s1"
  obtain res s3 where 3: "invoke (clUpdateStatus (rClient r) (p\<lparr>Status := ?ns\<rparr>)) (UpdateStatus (p\<lparr>Status := ?ns\<rparr>)) ?s2 = (res, s3)"
    by fastforce
  have c: "calls s1 = calls s" "events s1 = events s" "logs s1 = logs s"
    using now_frame [OF 1] 1 by (simp_all add: same_frame_def)
  have d: "calls s3 = calls s @ [UpdateStatus (p\<lparr>Status := ?ns\<rparr>) res]" "logs s3 = logs s"
    "events s3 = events s @ [Event (plant_key p) Warning eventPlantBlocked message]"
    using invoke_calls [OF 3] invoke_frame [OF 3] c by (simp_all add: same_frame_def emit_def)
  show ?thesis
  proof (rule that [of ?ns t])
    show "logs s' = logs s" "\<And>x. e = Some x \<Longrightarrow> as_conflicting x = None"
      using assms 1 3 c d by (auto simp: markDegraded_def Let_def split: sum.splits if_splits)
  qed (use assms 1 3 c d in \<open>auto simp: markDegraded_def Let_def split: sum.splits if_splits\<close>)
qed

section \<open>The calls of a whole Reconcile\<close>

text \<open>A Plant that is neither being deleted nor refused for its name.\<close>

definition active :: "plant \<Rightarrow> bool" where
  "active p \<longleftrightarrow> mDeletionTimestamp (pMeta p) = None \<and> length (pName p) \<le> maxPlantNameLength"

abbreviation fetch :: "'w reconciler \<Rightarrow> key \<Rightarrow> 'w state \<Rightarrow> (api_error + plant) \<times> 'w state" where
  "fetch r req s \<equiv> invoke (rdPlant (reader.truncate (rClient r)) req) (GetPlant req) s"

lemma Reconcile_missing:
  "fetch r req s = (Inl e, s1) \<Longrightarrow> Reconcile r req s =
     (if IsNotFound e then Inr 0 else Inl (Wrapped (''fetching plant '' @ key_text req) (ApiError e)), s1)"
  by (simp add: Reconcile_def)

lemma Reconcile_deleting:
  "fetch r req s = (Inr p, s1) \<Longrightarrow> mDeletionTimestamp (pMeta p) \<noteq> None \<Longrightarrow> Reconcile r req s = (Inr 0, s1)"
  by (simp add: Reconcile_def)

lemma Reconcile_overlong:
  "fetch r req s = (Inr p, s1) \<Longrightarrow> mDeletionTimestamp (pMeta p) = None \<Longrightarrow> maxPlantNameLength < length (pName p) \<Longrightarrow>
     Reconcile r req s =
       (case markDegraded r p ReasonInvalidName (overlong_message (pName p))
          (log_info (LogOverlongName (pName p) (length (pName p))) s1) of
          (Some e, s2) \<Rightarrow> (Inl e, s2) | (None, s2) \<Rightarrow> (Inr 0, s2))"
  by (simp add: Reconcile_def)

lemma Reconcile_children_failed:
  "fetch r req s = (Inr p, s1) \<Longrightarrow> active p \<Longrightarrow> reconcileChildren r p s1 = (Inl e, s2) \<Longrightarrow>
     Reconcile r req s =
       (case as_conflicting e of
          None \<Rightarrow> (Inl e, s2)
        | Some c \<Rightarrow> (case markDegraded r p ReasonConflictingResource (conflict_text c) s2 of
            (Some markErr, s3) \<Rightarrow> (Inl markErr, s3) | (None, s3) \<Rightarrow> (Inl e, s3)))"
  by (simp add: Reconcile_def active_def)

definition drift_event :: "plant \<Rightarrow> bool \<times> bool \<Rightarrow> 'w state \<Rightarrow> 'w state" where
  "drift_event p f s =
     (if fst f then emit p Normal eventPlantCreated created_message s
      else if snd f then emit p Normal eventPlantUpdated updated_message s
      else s)"

lemma Reconcile_children_applied:
  "fetch r req s = (Inr p, s1) \<Longrightarrow> active p \<Longrightarrow> reconcileChildren r p s1 = (Inr (dep, f), s2) \<Longrightarrow>
     Reconcile r req s =
       (case reconcileStatus r p dep (drift_event p f s2) of
          (Inl e, s4) \<Rightarrow> (Inl e, s4) | (Inr p', s4) \<Rightarrow> (Inr (requeueIntervalFor p'), s4))"
  by (cases f) (simp add: Reconcile_def active_def drift_event_def)

lemma drift_event_calls [simp]: "calls (drift_event p f s) = calls s"
  by (simp add: drift_event_def)

lemma Reconcile_exhaust:
  assumes "Reconcile r req s = (res, s')"
  obtains (missing) e where "fetch r req s = (Inl e, s')"
      "res = (if IsNotFound e then Inr 0 else Inl (Wrapped (''fetching plant '' @ key_text req) (ApiError e)))"
  | (deleting) p where "fetch r req s = (Inr p, s')" "mDeletionTimestamp (pMeta p) \<noteq> None" "res = Inr 0"
  | (overlong) p s1 e where "fetch r req s = (Inr p, s1)" "mDeletionTimestamp (pMeta p) = None"
      "maxPlantNameLength < length (pName p)"
      "markDegraded r p ReasonInvalidName (overlong_message (pName p))
         (log_info (LogOverlongName (pName p) (length (pName p))) s1) = (e, s')"
      "res = (case e of Some x \<Rightarrow> Inl x | None \<Rightarrow> Inr 0)"
  | (failed) p s1 e where "fetch r req s = (Inr p, s1)" "active p" "reconcileChildren r p s1 = (Inl e, s')"
      "as_conflicting e = None" "res = Inl e"
  | (blocked) p s1 e s2 c m where "fetch r req s = (Inr p, s1)" "active p" "reconcileChildren r p s1 = (Inl e, s2)"
      "as_conflicting e = Some c" "markDegraded r p ReasonConflictingResource (conflict_text c) s2 = (m, s')"
      "res = Inl (case m of Some x \<Rightarrow> x | None \<Rightarrow> e)"
  | (applied) p s1 dep f s2 st where "fetch r req s = (Inr p, s1)" "active p"
      "reconcileChildren r p s1 = (Inr (dep, f), s2)" "reconcileStatus r p dep (drift_event p f s2) = (st, s')"
      "res = map_sum id requeueIntervalFor st"
proof -
  obtain rd s1 where f: "fetch r req s = (rd, s1)" by fastforce
  show ?thesis
  proof (cases rd)
    case (Inl e)
    then show ?thesis using missing [of e] assms f Reconcile_missing [of r req s e s1] by auto
  next
    case p: (Inr p)
    note f = f [unfolded p]
    consider "mDeletionTimestamp (pMeta p) \<noteq> None" | "mDeletionTimestamp (pMeta p) = None" "maxPlantNameLength < length (pName p)"
      | "active p" unfolding active_def by force
    then show ?thesis
    proof cases
      case 1
      then show ?thesis using deleting f assms Reconcile_deleting [OF f] by auto
    next
      case 2
      then show ?thesis using overlong [OF f 2] assms Reconcile_overlong [OF f 2] by (fastforce split: prod.splits option.splits)
    next
      case 3
      obtain cr s2 where c: "reconcileChildren r p s1 = (cr, s2)" by fastforce
      show ?thesis
      proof (cases cr)
        case (Inl e)
        note c = c [unfolded Inl]
        show ?thesis
        proof (cases "as_conflicting e")
          case None
          then show ?thesis using failed [OF f 3, of e] c assms Reconcile_children_failed [OF f 3 c] by auto
        next
          case (Some x)
          then show ?thesis using blocked [OF f 3 c Some] assms Reconcile_children_failed [OF f 3 c]
            by (fastforce split: prod.splits option.splits)
        qed
      next
        case (Inr y)
        obtain dep fl where y: "y = (dep, fl)" by (cases y)
        note c = c [unfolded Inr y]
        obtain st s3 where st: "reconcileStatus r p dep (drift_event p fl s2) = (st, s3)" by fastforce
        then show ?thesis using applied [OF f 3 c] assms Reconcile_children_applied [OF f 3 c]
          by (cases st) auto
      qed
    qed
  qed
qed

lemma status_run_guarded: "status_run ns before tr \<Longrightarrow> guarded_from ref p before' tr"
  by (induction ns before tr arbitrary: before' rule: status_run.induct) simp_all

context plant_operator begin

lemma Reconcile_trace:
  assumes "Reconcile r req s = (res, s')"
  shows "\<exists>rd tr1 tr2. calls s' = calls s @ GetPlant req rd # tr1 @ tr2 \<and>
    (\<forall>e. rd = Inl e \<longrightarrow> tr1 = [] \<and> tr2 = []) \<and>
    (\<forall>p. rd = Inr p \<longrightarrow> child_trace (rSetControllerReference r) p tr1 \<and> (tr1 = [] \<or> active p) \<and>
       (\<exists>ns. status_run ns None tr2) \<and> status_updates tr2 \<le> 5 \<and> (mDeletionTimestamp (pMeta p) \<noteq> None \<longrightarrow> tr2 = []))"
  using assms
proof (cases rule: Reconcile_exhaust)
  case missing
  then show ?thesis using invoke_calls by fastforce
next
  case (deleting p)
  note c = invoke_calls [OF deleting(1)]
  then show ?thesis using child.empty by (intro exI [of _ "Inr p"] exI [of _ "[]"]) simp
next
  case (overlong p s1 e)
  note c = invoke_calls [OF overlong(1)]
  obtain tr2 ns where "calls s' = calls s1 @ tr2" "status_run ns None tr2" "status_updates tr2 \<le> 5"
    using overlong(4) by (cases rule: markDegraded_cases) (case_tac "statusChanged (Status p) ns"; fastforce)
  then show ?thesis using c overlong(2) child.empty
    by (intro exI [of _ "Inr p"] exI [of _ "[]"] exI [of _ tr2]) auto
next
  case (failed p s1 e)
  obtain tr1 where "calls s' = calls s1 @ tr1" "child_trace (rSetControllerReference r) p tr1"
    using reconcileChildren_trace [OF failed(3)] by (auto simp: extends_def)
  then show ?thesis using invoke_calls [OF failed(1)] failed(2)
    by (intro exI [of _ "Inr p"] exI [of _ tr1] exI [of _ "[]"]) auto
next
  case (blocked p s1 e s2 c m)
  obtain tr1 where t: "calls s2 = calls s1 @ tr1" "child_trace (rSetControllerReference r) p tr1"
    using reconcileChildren_trace [OF blocked(3)] by (auto simp: extends_def)
  obtain tr2 ns where "calls s' = calls s2 @ tr2" "status_run ns None tr2" "status_updates tr2 \<le> 5"
    using blocked(5) by (cases rule: markDegraded_cases) (case_tac "statusChanged (Status p) ns"; fastforce)
  then show ?thesis using t invoke_calls [OF blocked(1)] blocked(2)
    by (intro exI [of _ "Inr p"] exI [of _ tr1] exI [of _ tr2]) (auto simp: active_def)
next
  case (applied p s1 dep f s2 st)
  obtain tr1 where t: "calls s2 = calls s1 @ tr1" "child_trace (rSetControllerReference r) p tr1"
    using reconcileChildren_trace [OF applied(3)] by (auto simp: extends_def)
  obtain tr2 ns where "calls s' = calls s2 @ tr2" "status_run ns None tr2" "status_updates tr2 \<le> 5"
    using applied(4) by (cases rule: reconcileStatus_cases) (rule that; simp)
  then show ?thesis using t invoke_calls [OF applied(1)] applied(2)
    by (intro exI [of _ "Inr p"] exI [of _ tr1] exI [of _ tr2]) (auto simp: active_def)
qed

end

section \<open>A cluster that is a plain store\<close>

text \<open>The instance of the contracts: Plants and objects by key, no other actor, a clock that ticks.\<close>

record store =
  storePlants :: "key \<Rightarrow> plant option"
  storeObjects :: "string \<times> key \<Rightarrow> object option"
  storeClock :: int
  storeServiceMonitors :: bool

definition store_client :: "store client" where
  "store_client =
     \<lparr>rdPlant = (\<lambda>k w. (case storePlants w k of Some p \<Rightarrow> Inr p | None \<Rightarrow> Inl (NotFound ''not found''), w)),
      rdObject = (\<lambda>kind k w. (case storeObjects w (kind, k) of Some x \<Rightarrow> Inr x | None \<Rightarrow> Inl (NotFound ''not found''), w)),
      clCreate = (\<lambda>obj w. case storeObjects w (obj_kind obj, obj_key obj) of
          Some x \<Rightarrow> (Inl (OtherError ''already exists''), w)
        | None \<Rightarrow> (Inr obj, w\<lparr>storeObjects := (storeObjects w)((obj_kind obj, obj_key obj) \<mapsto> obj)\<rparr>)),
      clUpdate = (\<lambda>obj w. case storeObjects w (obj_kind obj, obj_key obj) of
          None \<Rightarrow> (Inl (NotFound ''not found''), w)
        | Some x \<Rightarrow> (Inr obj, w\<lparr>storeObjects := (storeObjects w)((obj_kind obj, obj_key obj) \<mapsto> obj)\<rparr>)),
      clUpdateStatus = (\<lambda>p w. case storePlants w (plant_key p) of
          None \<Rightarrow> (Inl (NotFound ''not found''), w)
        | Some q \<Rightarrow> (let q' = q\<lparr>Status := Status p\<rparr> in
            (Inr q', w\<lparr>storePlants := (storePlants w)(plant_key p \<mapsto> q')\<rparr>))),
      clRESTMapping = (\<lambda>w. (if storeServiceMonitors w then None else Some ''no matches for kind'', w))\<rparr>"

definition store_reconciler :: "store reconciler" where
  "store_reconciler =
     \<lparr>rClient = store_client, rAPIReader = None, rNow = (\<lambda>w. (storeClock w, w\<lparr>storeClock := storeClock w + 1\<rparr>)),
      rSetControllerReference = set_controller_reference, rSetStatusCondition = set_condition,
      rRetryOnConflict = attempts (\<lambda>w. w) 4\<rparr>"

definition store_state :: "plant list \<Rightarrow> object list \<Rightarrow> store state" where
  "store_state ps objs =
     \<lparr>world = \<lparr>storePlants = map_of (map (\<lambda>p. (plant_key p, p)) ps),
        storeObjects = map_of (map (\<lambda>x. ((obj_kind x, obj_key x), x)) objs), storeClock = 1700000000000000000,
        storeServiceMonitors = False\<rparr>,
      serviceMonitorNegativeCacheUntil = 0, serviceMonitorUnavailableLogged = False, calls = [], events = [], logs = []\<rparr>"

interpretation op: plant_operator store_reconciler "\<lambda>w. w"
proof -
  show "plant_operator store_reconciler (\<lambda>w. w)"
    by (simp add: plant_operator_def store_reconciler_def owner.controller_reference_axioms
        conditions.status_conditions_axioms retrying.conflict_retry_axioms)
qed

section \<open>Properties\<close>

lemma mutate_owned:
  assumes "controller_reference ref" "mutate ref p obj = Inr obj'"
  shows "GetControllerOf (obj_meta obj') = Some (plant_ref p) \<and> LabelsFor p \<subseteq>\<^sub>m mLabels (obj_meta obj')"
  using controller_reference.mutate_owner [OF assms] controller_reference.mutate_labels [OF assms]
  by (simp add: mergeLabels_def)

text \<open>Where a call that only occurs among the calls on the children stands in a Reconcile.\<close>

lemma status_run_none:
  "status_run ns before (xs @ c # ys) \<Longrightarrow> (\<exists>q res. c = UpdateStatus q res) \<or> (\<exists>k res. c = ReadPlant k res)"
proof (induction xs arbitrary: before)
  case Nil
  then show ?case by (cases c) auto
next
  case (Cons a xs)
  then show ?case by (cases a) auto
qed

context plant_operator begin

lemma Reconcile_child_call:
  assumes "calls (snd (Reconcile r req s)) = calls s @ xs @ c # ys"
    and c: "(\<exists>obj res. c = UpdateObject obj res) \<or> (\<exists>obj res. c = CreateObject obj res)"
  shows "\<exists>p xs' ys'. xs = GetPlant req (Inr p) # xs' \<and> active p \<and> xs' \<noteq> [] \<and>
    child_trace (rSetControllerReference r) p (xs' @ c # ys')"
proof -
  obtain res s' where R: "Reconcile r req s = (res, s')" by fastforce
  obtain rd tr1 tr2 where t: "calls s' = calls s @ GetPlant req rd # tr1 @ tr2"
    "\<forall>e. rd = Inl e \<longrightarrow> tr1 = [] \<and> tr2 = []"
    "\<forall>p. rd = Inr p \<longrightarrow> child_trace (rSetControllerReference r) p tr1 \<and> (tr1 = [] \<or> active p) \<and> (\<exists>ns. status_run ns None tr2)"
    using Reconcile_trace [OF R] by blast
  have e: "xs @ c # ys = GetPlant req rd # tr1 @ tr2" using assms(1) R t(1) by simp
  then obtain xs' where x: "xs = GetPlant req rd # xs'" "xs' @ c # ys = tr1 @ tr2" using c by (cases xs) auto
  have "rd \<noteq> Inl z" for z using t(2) x(2) by auto
  then obtain p where p: "rd = Inr p" by (cases rd) auto
  obtain ns where ns: "status_run ns None tr2" using t(3) p by blast
  have "\<exists>ys'. tr1 = xs' @ c # ys'"
  proof (rule ccontr)
    assume n: "\<nexists>ys'. tr1 = xs' @ c # ys'"
    obtain us where "tr1 = xs' @ us \<and> c # ys = us @ tr2 \<or> tr2 = us @ c # ys"
      using x(2) by (auto simp: append_eq_append_conv2)
    then have "\<exists>us. tr2 = us @ c # ys" using n by (cases us) auto
    then show False using status_run_none ns c by blast
  qed
  then obtain ys' where y: "tr1 = xs' @ c # ys'" by blast
  have g: "child_trace (rSetControllerReference r) p (xs' @ c # ys')" "active p" using t(3) p y by auto
  then have "xs' \<noteq> []" using c by (auto simp: child_trace_def)
  then show ?thesis using x(1) p g by blast
qed

end

end
