(* ===== verification/Operator.thy ===== *)
theory Operator
  imports Reconciler
begin

text \<open>
  What a Reconcile does, branch by branch: which calls it makes, what it returns, what it writes to
  the status and which events it emits. Each property holds for every cluster that meets the
  contracts of \<open>plant_operator\<close>; the witnesses run on the plain store.
\<close>

section \<open>The branches of applyChild\<close>

lemma applyChild_unreadable:
  "rdObject (reader_of r) (obj_kind obj) (obj_key obj) (world s) = (Inl e, w) \<Longrightarrow> \<not> IsNotFound e \<Longrightarrow> applyChild r p obj s =
     (Inl (Wrapped (''reading existing '' @ obj_kind obj @ '' '' @ key_text (obj_key obj)) (ApiError e)),
      s\<lparr>world := w, calls := calls s @ [ReadObject (obj_kind obj) (obj_key obj) (Inl e)]\<rparr>)"
  by (simp add: applyChild_def invoke_def Let_def)

lemma applyChild_absent:
  "rdObject (reader_of r) (obj_kind obj) (obj_key obj) (world s) = (Inl e, w) \<Longrightarrow> IsNotFound e \<Longrightarrow> mutate (rSetControllerReference r) p obj = Inr want \<Longrightarrow>
     clCreate (rClient r) want w = (cr, w') \<Longrightarrow> applyChild r p obj s =
     (map_sum ApiError (\<lambda>stored. (ResultCreated, stored)) cr,
      s\<lparr>world := w', calls := calls s @ [ReadObject (obj_kind obj) (obj_key obj) (Inl e), CreateObject want cr]\<rparr>)"
  by (cases cr) (simp_all add: applyChild_def invoke_def Let_def)

lemma applyChild_foreign:
  "rdObject (reader_of r) (obj_kind obj) (obj_key obj) (world s) = (Inr x, w) \<Longrightarrow> assertOwnership p x = Some c \<Longrightarrow> applyChild r p obj s =
     (Inl (ConflictingResource c), s\<lparr>world := w, calls := calls s @ [ReadObject (obj_kind obj) (obj_key obj) (Inr x)]\<rparr>)"
  by (simp add: applyChild_def invoke_def Let_def)

lemma applyChild_settled:
  "rdObject (reader_of r) (obj_kind obj) (obj_key obj) (world s) = (Inr x, w) \<Longrightarrow> assertOwnership p x = None \<Longrightarrow> mutate (rSetControllerReference r) p x = Inr x \<Longrightarrow>
     obj_key x = obj_key obj \<Longrightarrow> applyChild r p obj s =
     (Inr (ResultNone, x), s\<lparr>world := w, calls := calls s @ [ReadObject (obj_kind obj) (obj_key obj) (Inr x)]\<rparr>)"
  by (simp add: applyChild_def invoke_def Let_def)

lemma applyChild_drifted:
  "rdObject (reader_of r) (obj_kind obj) (obj_key obj) (world s) = (Inr x, w) \<Longrightarrow> assertOwnership p x = None \<Longrightarrow> mutate (rSetControllerReference r) p x = Inr want \<Longrightarrow>
     obj_key want = obj_key obj \<Longrightarrow> x \<noteq> want \<Longrightarrow> clUpdate (rClient r) want w = (ur, w') \<Longrightarrow> applyChild r p obj s =
     (map_sum ApiError (\<lambda>stored. (ResultUpdated, stored)) ur,
      s\<lparr>world := w', calls := calls s @ [ReadObject (obj_kind obj) (obj_key obj) (Inr x), UpdateObject want ur]\<rparr>)"
  by (cases ur) (simp_all add: applyChild_def invoke_def Let_def)

section \<open>A frozen cluster\<close>

text \<open>A cluster that refuses every write of a child: a Reconcile stops at its first write.\<close>

definition frozen_reconciler :: "store reconciler" where
  "frozen_reconciler = store_reconciler\<lparr>rClient := store_client
     \<lparr>clCreate := (\<lambda>obj w. (Inl (OtherError ''frozen''), w)), clUpdate := (\<lambda>obj w. (Inl (OtherError ''frozen''), w))\<rparr>\<rparr>"

lemma frozen_operator: "plant_operator frozen_reconciler (\<lambda>w. w)"
  by (simp add: plant_operator_def frozen_reconciler_def store_reconciler_def owner.controller_reference_axioms
      conditions.status_conditions_axioms retrying.conflict_retry_axioms)

lemma Reconcile_first_fails:
  assumes "fetch r req s = (Inr p, s1)" "active p"
    "applyChild r p (hd (blank_children p)) s1 = (Inl e, s2)" "as_conflicting e = None"
  shows "Reconcile r req s = (Inl (reconciling ''Deployment'' p e), s2)"
proof -
  obtain d rest where b: "blank_children p = ODeployment d # rest" by (simp add: blank_children_def Let_def)
  then have "reconcileChildren r p s1 = (Inl (reconciling ''Deployment'' p e), s2)"
    using assms(3) by (simp add: reconcileChildren_def)
  then show ?thesis using Reconcile_children_failed [OF assms(1,2)] assms(4) by (simp add: reconciling_def)
qed

lemma demo_active: "active demo_plant"
  by (simp add: active_def demo_plant_def maxPlantNameLength_def)

lemma frozen_simps [simp]:
  "rSetControllerReference frozen_reconciler = set_controller_reference"
  "clCreate (rClient frozen_reconciler) obj w = (Inl (OtherError ''frozen''), w)"
  "clUpdate (rClient frozen_reconciler) obj w = (Inl (OtherError ''frozen''), w)"
  "rdPlant (reader.truncate (rClient frozen_reconciler)) k w =
     (case storePlants w k of Some p \<Rightarrow> Inr p | None \<Rightarrow> Inl (NotFound ''not found''), w)"
  "rdObject (reader_of frozen_reconciler) kind k w =
     (case storeObjects w (kind, k) of Some x \<Rightarrow> Inr x | None \<Rightarrow> Inl (NotFound ''not found''), w)"
  by (simp_all add: frozen_reconciler_def store_reconciler_def store_client_def reader_of_def reader.truncate_def)

text \<open>The first write a Reconcile of the demo Plant attempts, without and with a Deployment.\<close>

definition demo_key :: key where "demo_key = (''plants'', ''fernie'')"

lemma frozen_fetch:
  "fetch frozen_reconciler demo_key (store_state [demo_plant] objs) =
     (Inr demo_plant, (store_state [demo_plant] objs)\<lparr>calls := [GetPlant demo_key (Inr demo_plant)]\<rparr>)"
  by (simp add: invoke_def store_state_def demo_plant_def demo_key_def)

lemma demo_deployment:
  "obj_kind (hd (blank_children demo_plant)) = ''Deployment''" "obj_key (hd (blank_children demo_plant)) = demo_key"
  "GetControllerOf (obj_meta (hd (blank_children demo_plant))) = None"
  "mNamespace (obj_meta (hd (blank_children demo_plant))) = pNamespace demo_plant"
  by (simp_all add: blank_children_def objectMeta_def new_meta_def obj_key_def demo_plant_def demo_key_def
      GetControllerOf_def Let_def)

lemma frozen_create:
  "\<exists>obj. calls (snd (Reconcile frozen_reconciler demo_key (store_state [demo_plant] []))) =
     [GetPlant demo_key (Inr demo_plant), ReadObject ''Deployment'' demo_key (Inl (NotFound ''not found''))]
     @ [CreateObject obj (Inl (OtherError ''frozen''))]"
proof -
  let ?s = "(store_state [demo_plant] [])\<lparr>calls := [GetPlant demo_key (Inr demo_plant)]\<rparr>"
  obtain obj where m: "mutate set_controller_reference demo_plant (hd (blank_children demo_plant)) = Inr obj"
    using unowned_mutates demo_deployment(3,4) by metis
  have rd: "rdObject (reader_of frozen_reconciler) (obj_kind (hd (blank_children demo_plant)))
      (obj_key (hd (blank_children demo_plant))) (world ?s) = (Inl (NotFound ''not found''), world ?s)"
    by (simp add: store_state_def)
  have a: "applyChild frozen_reconciler demo_plant (hd (blank_children demo_plant)) ?s =
     (Inl (ApiError (OtherError ''frozen'')), ?s\<lparr>calls := calls ?s @
       [ReadObject ''Deployment'' demo_key (Inl (NotFound ''not found'')), CreateObject obj (Inl (OtherError ''frozen''))]\<rparr>)"
    using applyChild_absent [OF rd] m by (simp add: demo_deployment)
  show ?thesis using Reconcile_first_fails [OF frozen_fetch demo_active a] by (simp add: demo_deployment)
qed

lemma frozen_update:
  "\<exists>obj. calls (snd (Reconcile frozen_reconciler demo_key (store_state [demo_plant] [ODeployment (DeploymentFor demo_plant)]))) =
     [GetPlant demo_key (Inr demo_plant), ReadObject ''Deployment'' demo_key (Inr (ODeployment (DeploymentFor demo_plant)))]
     @ [UpdateObject obj (Inl (OtherError ''frozen''))]"
proof -
  define d where "d = ODeployment (DeploymentFor demo_plant)"
  let ?s = "(store_state [demo_plant] [d])\<lparr>calls := [GetPlant demo_key (Inr demo_plant)]\<rparr>"
  have o: "GetControllerOf (obj_meta d) = None" "obj_kind d = ''Deployment''" "obj_key d = demo_key"
    "assertOwnership demo_plant d = None" "mNamespace (obj_meta d) = pNamespace demo_plant"
    by (simp_all add: d_def DeploymentFor_def new_meta_def GetControllerOf_def obj_key_def demo_key_def demo_plant_def
        assertOwnership_None label_simps)
  obtain obj where m: "mutate set_controller_reference demo_plant d = Inr obj"
    using unowned_mutates o(1,5) by metis
  have k: "d \<noteq> obj" "obj_key obj = demo_key"
    using owner.mutate_owner [OF m] o owner.mutate_key [OF m] by auto
  have rd: "rdObject (reader_of frozen_reconciler) (obj_kind (hd (blank_children demo_plant)))
      (obj_key (hd (blank_children demo_plant))) (world ?s) = (Inr d, world ?s)"
    using o by (simp add: store_state_def demo_deployment)
  have a: "applyChild frozen_reconciler demo_plant (hd (blank_children demo_plant)) ?s =
     (Inl (ApiError (OtherError ''frozen'')), ?s\<lparr>calls := calls ?s @
       [ReadObject ''Deployment'' demo_key (Inr d), UpdateObject obj (Inl (OtherError ''frozen''))]\<rparr>)"
    using applyChild_drifted [OF rd o(4)] m k by (simp add: demo_deployment)
  show ?thesis using Reconcile_first_fails [OF frozen_fetch demo_active a] unfolding d_def [symmetric] by simp
qed

text \<open>C1: Whatever else happens in the cluster between two calls, a Reconcile writes to an
  existing object only directly after reading that very object, of a kind and name that belong to
  the Plant it fetched, when the ownership check permitted what was read, and what it writes is the
  mutated object, with the Plant as its controller and with the operator's labels; it creates an
  object only directly after reading that there is none of its kind and name. A foreign object is
  never written.\<close>

theorem child_writes_guarded:
  assumes "plant_operator r pause"
  shows "(calls (snd (Reconcile r req s)) = calls s @ xs @ UpdateObject obj res # ys \<longrightarrow>
      (\<exists>p kind existing. hd xs = GetPlant req (Inr p) \<and> last xs = ReadObject kind (obj_key obj) (Inr existing) \<and>
         (kind, obj_key obj) \<in> child_ids p \<and> assertOwnership p existing = None \<and> existing \<noteq> obj \<and>
         mutate (rSetControllerReference r) p existing = Inr obj \<and>
         GetControllerOf (obj_meta obj) = Some (plant_ref p) \<and> LabelsFor p \<subseteq>\<^sub>m mLabels (obj_meta obj))) \<and>
    (calls (snd (Reconcile r req s)) = calls s @ xs @ CreateObject obj res # ys \<longrightarrow>
      (\<exists>p e. hd xs = GetPlant req (Inr p) \<and> last xs = ReadObject (obj_kind obj) (obj_key obj) (Inl e) \<and> IsNotFound e \<and>
         (obj_kind obj, obj_key obj) \<in> child_ids p \<and>
         GetControllerOf (obj_meta obj) = Some (plant_ref p) \<and> LabelsFor p \<subseteq>\<^sub>m mLabels (obj_meta obj)))"
proof (intro conjI impI)
  have ref: "controller_reference (rSetControllerReference r)"
    using assms by (simp add: plant_operator_def)
  note call = plant_operator.Reconcile_child_call [OF assms]
  have mem: "child_call p (last xs')" if "child_trace f p (xs' @ c # ys')" "xs' \<noteq> []" for f p xs' c ys'
    using that by (cases xs' rule: rev_cases) (auto simp: child_trace_def)
  { assume "calls (snd (Reconcile r req s)) = calls s @ xs @ UpdateObject obj res # ys"
    then obtain p xs' ys' where p: "xs = GetPlant req (Inr p) # xs'" "xs' \<noteq> []"
      "child_trace (rSetControllerReference r) p (xs' @ UpdateObject obj res # ys')"
      using call by blast
    then have "guarded_from (rSetControllerReference r) p None (xs' @ UpdateObject obj res # ys')"
      by (simp add: child_trace_def)
    from guarded_update [OF this] p(2) obtain kind existing where "last xs' = ReadObject kind (obj_key obj) (Inr existing)"
      "assertOwnership p existing = None" "mutate (rSetControllerReference r) p existing = Inr obj" "existing \<noteq> obj"
      by auto
    then show "\<exists>p kind existing. hd xs = GetPlant req (Inr p) \<and> last xs = ReadObject kind (obj_key obj) (Inr existing) \<and>
         (kind, obj_key obj) \<in> child_ids p \<and> assertOwnership p existing = None \<and> existing \<noteq> obj \<and>
         mutate (rSetControllerReference r) p existing = Inr obj \<and>
         GetControllerOf (obj_meta obj) = Some (plant_ref p) \<and> LabelsFor p \<subseteq>\<^sub>m mLabels (obj_meta obj)"
      using p mem [OF p(3,2)] mutate_owned [OF ref] by (intro exI [of _ p]) auto }
  { assume "calls (snd (Reconcile r req s)) = calls s @ xs @ CreateObject obj res # ys"
    then obtain p xs' ys' where p: "xs = GetPlant req (Inr p) # xs'" "xs' \<noteq> []"
      "child_trace (rSetControllerReference r) p (xs' @ CreateObject obj res # ys')"
      using call by blast
    then have "guarded_from (rSetControllerReference r) p None (xs' @ CreateObject obj res # ys')"
      by (simp add: child_trace_def)
    from guarded_create [OF this] p(2) obtain blank e where b: "last xs' = ReadObject (obj_kind blank) (obj_key blank) (Inl e)" "IsNotFound e"
      "mutate (rSetControllerReference r) p blank = Inr obj"
      by auto
    then have "obj_kind obj = obj_kind blank" "obj_key obj = obj_key blank"
      using mutate_kind controller_reference.mutate_key [OF ref] by blast+
    then show "\<exists>p e. hd xs = GetPlant req (Inr p) \<and> last xs = ReadObject (obj_kind obj) (obj_key obj) (Inl e) \<and> IsNotFound e \<and>
         (obj_kind obj, obj_key obj) \<in> child_ids p \<and>
         GetControllerOf (obj_meta obj) = Some (plant_ref p) \<and> LabelsFor p \<subseteq>\<^sub>m mLabels (obj_meta obj)"
      using p b mem [OF p(3,2)] mutate_owned [OF ref b(3)] by (intro exI [of _ p]) auto }
qed

theorem child_writes_guarded_witness:
  "\<exists>created updated.
     calls (snd (Reconcile frozen_reconciler demo_key (store_state [demo_plant] []))) =
       [GetPlant demo_key (Inr demo_plant), ReadObject ''Deployment'' demo_key (Inl (NotFound ''not found'')),
        CreateObject created (Inl (OtherError ''frozen''))] \<and>
     GetControllerOf (obj_meta created) = Some (plant_ref demo_plant) \<and>
     calls (snd (Reconcile frozen_reconciler demo_key (store_state [demo_plant] [ODeployment (DeploymentFor demo_plant)]))) =
       [GetPlant demo_key (Inr demo_plant), ReadObject ''Deployment'' demo_key (Inr (ODeployment (DeploymentFor demo_plant))),
        UpdateObject updated (Inl (OtherError ''frozen''))] \<and>
     GetControllerOf (obj_meta updated) = Some (plant_ref demo_plant)"
proof -
  obtain a b where a: "calls (snd (Reconcile frozen_reconciler demo_key (store_state [demo_plant] []))) =
     [GetPlant demo_key (Inr demo_plant), ReadObject ''Deployment'' demo_key (Inl (NotFound ''not found''))]
     @ [CreateObject a (Inl (OtherError ''frozen''))]"
   and b: "calls (snd (Reconcile frozen_reconciler demo_key (store_state [demo_plant] [ODeployment (DeploymentFor demo_plant)]))) =
     [GetPlant demo_key (Inr demo_plant), ReadObject ''Deployment'' demo_key (Inr (ODeployment (DeploymentFor demo_plant)))]
     @ [UpdateObject b (Inl (OtherError ''frozen''))]"
    using frozen_create frozen_update by blast
  have e: "calls (store_state ps objs) = []" for ps objs by (simp add: store_state_def)
  show ?thesis
    using child_writes_guarded [OF frozen_operator, of demo_key "store_state [demo_plant] []"
        "[GetPlant demo_key (Inr demo_plant), ReadObject ''Deployment'' demo_key (Inl (NotFound ''not found''))]"
        a "Inl (OtherError ''frozen'')" "[]"] a
      child_writes_guarded [OF frozen_operator, of demo_key "store_state [demo_plant] [ODeployment (DeploymentFor demo_plant)]"
        "[GetPlant demo_key (Inr demo_plant), ReadObject ''Deployment'' demo_key (Inr (ODeployment (DeploymentFor demo_plant)))]"
        b "Inl (OtherError ''frozen'')" "[]"] b e
    by (intro exI [of _ a] exI [of _ b]) auto
qed

section \<open>Plants that are gone or refused\<close>

text \<open>A Reconcile of a Plant that is not found, cannot be read, or is being deleted
  makes the one read and nothing else: no write, no event, no log line, no requeue; not found and
  being deleted are successes, any other read error is returned with the Plant's key.\<close>

theorem gone_plants_untouched:
  assumes "rdPlant (reader.truncate (rClient r)) req (world s) = (rd, w)"
    "\<And>p. rd = Inr p \<Longrightarrow> mDeletionTimestamp (pMeta p) \<noteq> None"
  shows "Reconcile r req s =
    (case rd of
       Inr p \<Rightarrow> Inr 0
     | Inl e \<Rightarrow> if IsNotFound e then Inr 0 else Inl (Wrapped (''fetching plant '' @ key_text req) (ApiError e)),
     s\<lparr>world := w, calls := calls s @ [GetPlant req rd]\<rparr>)"
proof (cases rd)
  case (Inl e)
  have "fetch r req s = (Inl e, s\<lparr>world := w, calls := calls s @ [GetPlant req rd]\<rparr>)"
    using assms(1) Inl by (simp add: invoke_def)
  from Reconcile_missing [OF this] show ?thesis using Inl by simp
next
  case (Inr p)
  have "fetch r req s = (Inr p, s\<lparr>world := w, calls := calls s @ [GetPlant req rd]\<rparr>)"
    using assms(1) Inr by (simp add: invoke_def)
  from Reconcile_deleting [OF this assms(2) [OF Inr]] show ?thesis using Inr by simp
qed

theorem gone_plants_untouched_witness:
  "fst (Reconcile store_reconciler demo_key (store_state [] [])) = Inr 0 \<and>
   fst (Reconcile store_reconciler demo_key
     (store_state [demo_plant\<lparr>pMeta := (pMeta demo_plant)\<lparr>mDeletionTimestamp := Some 9\<rparr>\<rparr>] [])) = Inr 0"
proof -
  let ?p = "demo_plant\<lparr>pMeta := (pMeta demo_plant)\<lparr>mDeletionTimestamp := Some 9\<rparr>\<rparr>"
  have a: "rdPlant (reader.truncate (rClient store_reconciler)) demo_key (world (store_state [] [])) =
      (Inl (NotFound ''not found''), world (store_state [] []))"
    and b: "rdPlant (reader.truncate (rClient store_reconciler)) demo_key (world (store_state [?p] [])) =
      (Inr ?p, world (store_state [?p] []))"
    by (simp_all add: store_reconciler_def store_client_def reader.truncate_def store_state_def demo_key_def demo_plant_def)
  show ?thesis using gone_plants_untouched [OF a] gone_plants_untouched [OF b] by simp
qed

text \<open>A Reconcile that succeeds asks to be run again after at least thirty seconds for every
  Plant it has reconciled, whatever interval the Plant carries (zero, a millisecond or negative
  ones included), and after exactly that interval when it is at least thirty seconds; it asks for
  no requeue only when the Plant is gone, being deleted, or refused for its name.\<close>

theorem requeue_floor:
  assumes "Reconcile r req s = (Inr d, s')"
  shows "\<exists>rd w. rdPlant (reader.truncate (rClient r)) req (world s) = (rd, w) \<and>
    (case rd of
       Inl e \<Rightarrow> IsNotFound e \<and> d = 0
     | Inr p \<Rightarrow> if active p then (\<exists>q. d = requeueIntervalFor q \<and> 30000000000 \<le> sint d \<and>
           (30000000000 \<le> sint (spWateringInterval (Spec q)) \<longrightarrow> d = spWateringInterval (Spec q)))
         else d = 0)"
proof -
  have f: "\<exists>w. rdPlant (reader.truncate (rClient r)) req (world s) = (rd, w)" if "fetch r req s = (rd, s1)" for rd s1
    using that by (auto simp: invoke_def split: prod.splits)
  have q: "30000000000 \<le> sint (requeueIntervalFor q) \<and>
     (30000000000 \<le> sint (spWateringInterval (Spec q)) \<longrightarrow> requeueIntervalFor q = spWateringInterval (Spec q))" for q
    by (auto simp: requeueIntervalFor_def minRequeueInterval_def)
  show ?thesis using assms
  proof (cases rule: Reconcile_exhaust)
    case (missing e)
    then show ?thesis using f [OF missing(1)] by (auto split: if_splits)
  next
    case (deleting p)
    then show ?thesis using f [OF deleting(1)] by (auto simp: active_def)
  next
    case (overlong p s1 e)
    then show ?thesis using f [OF overlong(1)] by (auto simp: active_def split: option.splits)
  next
    case (applied p s1 dep f s2 st)
    then obtain q' where "d = requeueIntervalFor q'" by (cases st) auto
    then show ?thesis using f [OF applied(1)] applied(2) q by (auto intro!: exI [of _ q'])
  qed auto
qed

theorem requeue_floor_witness:
  "\<exists>rd w. rdPlant (reader.truncate (rClient store_reconciler)) demo_key (world (store_state [] [])) = (rd, w) \<and> isl rd"
proof -
  have a: "rdPlant (reader.truncate (rClient store_reconciler)) demo_key (world (store_state [] [])) =
      (Inl (NotFound ''not found''), world (store_state [] []))"
    by (simp add: store_reconciler_def store_client_def reader.truncate_def store_state_def)
  have "Reconcile store_reconciler demo_key (store_state [] []) = (Inr 0, snd (Reconcile store_reconciler demo_key (store_state [] [])))"
    using a by (simp add: Reconcile_def invoke_def)
  from requeue_floor [OF this] show ?thesis using a by auto
qed

section \<open>A Plant that is marked degraded\<close>

text \<open>\<open>carries_degraded reason message p\<close>: the Plant has the very condition that would be set.
  \<open>degraded_write reason message p q\<close>: \<open>q\<close> is \<open>p\<close> with that condition set, and nothing
  else changed.\<close>

definition carries_degraded :: "string \<Rightarrow> string \<Rightarrow> plant \<Rightarrow> bool" where
  "carries_degraded reason message p \<longleftrightarrow>
     (case cond_of ConditionDegraded (stConditions (Status p)) of
        None \<Rightarrow> False
      | Some c \<Rightarrow> cStatus c = CTrue \<and> cReason c = reason \<and> cMessage c = message \<and>
          cObservedGeneration c = mGeneration (pMeta p))"

definition degraded_write :: "string \<Rightarrow> string \<Rightarrow> plant \<Rightarrow> plant \<Rightarrow> bool" where
  "degraded_write reason message p q \<longleftrightarrow>
     carries_degraded reason message q \<and>
     q = p\<lparr>Status := (Status p)\<lparr>stConditions := stConditions (Status q)\<rparr>\<rparr> \<and>
     (\<forall>ty. ty \<noteq> ConditionDegraded \<longrightarrow> cond_of ty (stConditions (Status q)) = cond_of ty (stConditions (Status p)))"

context status_conditions begin

lemma set_degraded:
  assumes "ns = (Status p)\<lparr>stConditions := sc
      \<lparr>cType = ConditionDegraded, cStatus = CTrue, cObservedGeneration = mGeneration (pMeta p),
       cLastTransitionTime = t, cReason = reason, cMessage = message\<rparr> (stConditions (Status p))\<rparr>"
  shows "degraded_write reason message p (p\<lparr>Status := ns\<rparr>) \<and>
    (statusChanged (Status p) ns \<longleftrightarrow> \<not> carries_degraded reason message p)"
proof -
  let ?c = "\<lparr>cType = ConditionDegraded, cStatus = CTrue, cObservedGeneration = mGeneration (pMeta p),
       cLastTransitionTime = t, cReason = reason, cMessage = message\<rparr>"
  let ?cs = "stConditions (Status p)"
  have l: "\<exists>u. cond_of ConditionDegraded (sc ?c ?cs) = Some (?c\<lparr>cLastTransitionTime := u\<rparr>)"
    using sc_same [of ?c ?cs] by (auto split: option.splits)
  have w: "degraded_write reason message p (p\<lparr>Status := ns\<rparr>)"
    using l sc_other by (auto simp: assms degraded_write_def carries_degraded_def)
  have "sc ?c ?cs = ?cs" if car: "carries_degraded reason message p"
  proof -
    obtain d where "cond_of ConditionDegraded ?cs = Some d" "cStatus d = CTrue" "cReason d = reason"
      "cMessage d = message" "cObservedGeneration d = mGeneration (pMeta p)"
      using car by (auto simp: carries_degraded_def split: option.splits)
    then show ?thesis by (intro sc_idle [of ?c ?cs d]) simp_all
  qed
  moreover have "carries_degraded reason message p" if "sc ?c ?cs = ?cs"
    using l unfolding that by (auto simp: carries_degraded_def)
  moreover have "statusChanged (Status p) ns \<longleftrightarrow> sc ?c ?cs \<noteq> ?cs"
    by (cases "Status p") (auto simp: assms statusChanged_def)
  ultimately show ?thesis using w by blast
qed

end

lemma markDegraded_effect:
  assumes "status_conditions (rSetStatusCondition r)" "markDegraded r p reason message s = (e, s')"
  shows "logs s' = logs s \<and> (\<forall>x. e = Some x \<longrightarrow> as_conflicting x = None) \<and>
    (if carries_degraded reason message p then e = None \<and> calls s' = calls s \<and> events s' = events s
     else \<exists>q wr. degraded_write reason message p q \<and> calls s' = calls s @ [UpdateStatus q wr] \<and>
       events s' = events s @ [Event (plant_key p) Warning eventPlantBlocked message] \<and> (e = None \<longleftrightarrow> \<not> isl wr))"
  using assms(2)
proof (cases rule: markDegraded_cases)
  case (1 t ns)
  note d = status_conditions.set_degraded [OF assms(1) 1(1)]
  show ?thesis
  proof (cases "carries_degraded reason message p")
    case True
    then show ?thesis using d 1(2,4,5) by simp
  next
    case False
    then have "statusChanged (Status p) ns" using d by blast
    from 1(3) [OF this] show ?thesis using d False 1(4,5) by auto
  qed
qed

text \<open>A Plant whose name is longer than a label value may be is refused without
  reading or writing any child: besides the fetch there is at most one call, a status write that
  changes only the Degraded condition, to True with reason InvalidName and a message that names the
  length and the limit, and this write comes with exactly one PlantBlocked warning; a failed write is
  the only error, and the Plant is not requeued. There is no write and no event exactly when the
  Plant already carries this very condition.\<close>

theorem overlong_name_refused:
  assumes "plant_operator r pause" "rdPlant (reader.truncate (rClient r)) req (world s) = (Inr p, w)"
    "mDeletionTimestamp (pMeta p) = None" "63 < length (pName p)" "Reconcile r req s = (res, s')"
  shows "if carries_degraded ''InvalidName'' (overlong_message (pName p)) p
    then calls s' = calls s @ [GetPlant req (Inr p)] \<and> events s' = events s \<and> res = Inr 0
    else \<exists>q wr. calls s' = calls s @ [GetPlant req (Inr p), UpdateStatus q wr] \<and>
        degraded_write ''InvalidName'' (overlong_message (pName p)) p q \<and>
        events s' = events s @ [Event (plant_key p) Warning ''PlantBlocked'' (overlong_message (pName p))] \<and>
        (if isl wr then isl res else res = Inr 0)"
proof -
  let ?s1 = "s\<lparr>world := w, calls := calls s @ [GetPlant req (Inr p)]\<rparr>"
  let ?s2 = "log_info (LogOverlongName (pName p) (length (pName p))) ?s1"
  have f: "fetch r req s = (Inr p, ?s1)" using assms(2) by (simp add: invoke_def)
  have c1: "calls ?s2 = calls s @ [GetPlant req (Inr p)]" "events ?s2 = events s" by (simp_all add: log_info_def)
  have sc: "status_conditions (rSetStatusCondition r)" using assms(1) by (simp add: plant_operator_def)
  obtain e where e: "markDegraded r p ReasonInvalidName (overlong_message (pName p)) ?s2 = (e, s')"
      "res = (case e of Some x \<Rightarrow> Inl x | None \<Rightarrow> Inr 0)"
    using Reconcile_overlong [OF f assms(3)] assms(4,5)
    by (auto simp: maxPlantNameLength_def split: prod.splits option.splits)
  show ?thesis using markDegraded_effect [OF sc e(1)] c1 e(2)
    by (cases e) (auto simp: ReasonInvalidName_def eventPlantBlocked_def, blast+)
qed

text \<open>A Plant with a name of 64 characters.\<close>

definition overlong_plant :: plant where
  "overlong_plant = demo_plant\<lparr>pMeta := (pMeta demo_plant)\<lparr>mName := replicate 64 CHR ''a''\<rparr>\<rparr>"

theorem overlong_name_refused_witness:
  "\<exists>q wr. calls (snd (Reconcile store_reconciler (plant_key overlong_plant) (store_state [overlong_plant] []))) =
     [GetPlant (plant_key overlong_plant) (Inr overlong_plant), UpdateStatus q wr] \<and>
     degraded_write ''InvalidName'' (overlong_message (pName overlong_plant)) overlong_plant q"
proof -
  let ?s = "store_state [overlong_plant] []"
  obtain res s' where R: "Reconcile store_reconciler (plant_key overlong_plant) ?s = (res, s')" by fastforce
  have rd: "rdPlant (reader.truncate (rClient store_reconciler)) (plant_key overlong_plant) (world ?s) =
      (Inr overlong_plant, world ?s)"
    by (simp add: store_reconciler_def store_client_def reader.truncate_def store_state_def)
  have h: "mDeletionTimestamp (pMeta overlong_plant) = None" "63 < length (pName overlong_plant)"
    "\<not> carries_degraded ''InvalidName'' (overlong_message (pName overlong_plant)) overlong_plant" "calls ?s = []"
    by (simp_all add: overlong_plant_def demo_plant_def carries_degraded_def cond_of_def store_state_def)
  show ?thesis using overlong_name_refused [OF op.plant_operator_axioms rd h(1,2) R] h(3,4) R by auto
qed

section \<open>A child that belongs to somebody else\<close>

text \<open>Applying children extends the trace and emits no event.\<close>

definition silent :: "'w state \<Rightarrow> 'w state \<Rightarrow> bool" where
  "silent s s' \<longleftrightarrow> events s' = events s \<and> (\<exists>tr. calls s' = calls s @ tr)"

lemma silent_trans: "silent a b \<Longrightarrow> silent b c \<Longrightarrow> silent a c"
  by (auto simp: silent_def)

lemma silent_refl [simp]: "silent s s" by (simp add: silent_def)

lemma invoke_silent: "invoke f c s = (r, s') \<Longrightarrow> silent s s'"
  by (auto simp: invoke_def silent_def split: prod.splits)

lemma applyChild_silent: "applyChild r p obj s = (res, s') \<Longrightarrow> silent s s'"
  unfolding applyChild_def Let_def
  by (auto split: sum.splits prod.splits if_splits option.splits dest!: invoke_silent elim: silent_trans)

lemma applyChildren_silent: "applyChildren r p cs f s = (res, s') \<Longrightarrow> silent s s'"
proof (induction cs arbitrary: f s res)
  case (Cons c cs)
  obtain r1 s1 where 1: "applyChild r p c s = (r1, s1)" by fastforce
  have "s' = s1 \<or> (\<exists>op res'. applyChildren r p cs (note_result op f) s1 = (res', s'))"
    using Cons.prems 1 by (auto split: sum.splits prod.splits)
  then show ?case using applyChild_silent [OF 1] Cons.IH silent_trans by blast
qed simp

lemma serviceMonitorCRDAvailable_silent: "serviceMonitorCRDAvailable r s = (b, s') \<Longrightarrow> silent s s'"
  unfolding serviceMonitorCRDAvailable_def Let_def silent_def
  by (auto simp: now_def invoke_def log_info_def split: option.splits prod.splits if_splits)

lemma reconcileChildren_silent:
  assumes "reconcileChildren r p s = (res, s')" shows "silent s s'"
proof -
  obtain r1 s1 where 1: "applyChildren r p (blank_children p) (False, False) s = (r1, s1)" by fastforce
  obtain a s2 where 2: "serviceMonitorCRDAvailable r s1 = (a, s2)" by fastforce
  obtain r3 s3 where 3: "applyChild r p (OServiceMonitor (ServiceMonitorFor p)) s2 = (r3, s3)" by fastforce
  have "s' \<in> {s1, s2, s3}" using assms 1 2 3
    by (cases r1; cases a; cases r3) (auto simp: reconcileChildren_def)
  then show ?thesis
    using applyChildren_silent [OF 1] serviceMonitorCRDAvailable_silent [OF 2] applyChild_silent [OF 3] silent_trans by blast
qed

lemma applyChild_conflict:
  assumes "applyChild r p obj s = (Inl e, s')" "as_conflicting e = Some c"
  shows "\<exists>existing. assertOwnership p existing = Some c \<and>
    calls s' = calls s @ [ReadObject (obj_kind obj) (obj_key obj) (Inr existing)]"
proof -
  obtain rd w where rd: "rdObject (reader_of r) (obj_kind obj) (obj_key obj) (world s) = (rd, w)" by fastforce
  show ?thesis
    using assms rd
    by (cases rd) (auto simp: applyChild_def invoke_def Let_def split: if_splits sum.splits prod.splits option.splits)
qed

lemma as_conflicting_reconciling [simp]: "as_conflicting (reconciling k p e) = as_conflicting e"
  by (simp add: reconciling_def)

lemma applyChildren_conflict:
  "applyChildren r p cs f s = (Inl e, s') \<Longrightarrow> as_conflicting e = Some c \<Longrightarrow>
     \<exists>child \<in> set cs. \<exists>existing tr. assertOwnership p existing = Some c \<and>
       calls s' = calls s @ tr @ [ReadObject (obj_kind child) (obj_key child) (Inr existing)]"
proof (induction cs arbitrary: f s)
  case (Cons child cs)
  obtain r1 s1 where 1: "applyChild r p child s = (r1, s1)" by fastforce
  show ?case
  proof (cases r1)
    case (Inl x)
    then have "e = reconciling (obj_kind child) p x" "s' = s1" using Cons.prems(1) 1 by auto
    then show ?thesis using applyChild_conflict [of r p child s x s1 c] 1 Inl Cons.prems(2) by auto
  next
    case (Inr y)
    obtain op obj where y: "y = (op, obj)" by (cases y)
    have "applyChildren r p cs (note_result op f) s1 = (Inl e, s')"
      using Cons.prems(1) 1 Inr y by (auto split: sum.splits prod.splits)
    from Cons.IH [OF this Cons.prems(2)] obtain ch existing tr where ih: "ch \<in> set cs" "assertOwnership p existing = Some c"
      "calls s' = calls s1 @ tr @ [ReadObject (obj_kind ch) (obj_key ch) (Inr existing)]" by blast
    obtain tr1 where "calls s1 = calls s @ tr1"
      using applyChild_silent [OF 1] by (auto simp: silent_def)
    then show ?thesis using ih by (intro bexI [of _ ch] exI [of _ existing] exI [of _ "tr1 @ tr"]) auto
  qed
qed simp

lemma reconcileChildren_conflict:
  assumes "reconcileChildren r p s = (Inl e, s')" "as_conflicting e = Some c"
  shows "\<exists>kind key existing tr. (kind, key) \<in> child_ids p \<and> assertOwnership p existing = Some c \<and>
    calls s' = calls s @ tr @ [ReadObject kind key (Inr existing)]"
proof -
  obtain r1 s1 where 1: "applyChildren r p (blank_children p) (False, False) s = (r1, s1)" by fastforce
  have b: "(obj_kind c, obj_key c) \<in> child_ids p" if "c \<in> set (blank_children p)" for c using that by (auto simp: child_ids_def)
  show ?thesis
  proof (cases r1)
    case (Inl x)
    then have "x = e" "s1 = s'" using assms(1) 1 by (auto simp: reconcileChildren_def)
    then show ?thesis using applyChildren_conflict [OF 1 [unfolded Inl]] assms(2) b by fastforce
  next
    case (Inr y)
    obtain a s2 where 2: "serviceMonitorCRDAvailable r s1 = (a, s2)" by fastforce
    obtain r3 s3 where 3: "applyChild r p (OServiceMonitor (ServiceMonitorFor p)) s2 = (r3, s3)" by fastforce
    have m: "(obj_kind (OServiceMonitor (ServiceMonitorFor p)), obj_key (OServiceMonitor (ServiceMonitorFor p))) \<in> child_ids p"
      by (simp add: child_ids_def)
    obtain x where x: "r3 = Inl x" "e = reconciling ''ServiceMonitor'' p x" "s3 = s'"
      using assms(1) 1 2 3 Inr by (cases y; cases a; cases r3) (auto simp: reconcileChildren_def)
    have "as_conflicting x = Some c" using assms(2) x(2) by simp
    from applyChild_conflict [OF 3 [unfolded x(1)] this] obtain existing where
      "assertOwnership p existing = Some c"
      "calls s3 = calls s2 @ [ReadObject (obj_kind (OServiceMonitor (ServiceMonitorFor p))) (obj_key (OServiceMonitor (ServiceMonitorFor p))) (Inr existing)]"
      by blast
    moreover obtain tr where "calls s2 = calls s @ tr"
      using child.extends_trans [OF applyChildren_trace [OF 1] serviceMonitorCRDAvailable_trace [OF 2]] b
      by (auto simp: extends_def)
    ultimately show ?thesis using m x(3) by fastforce
  qed
qed

text \<open>C15: A Reconcile that ends in an ownership conflict has stopped at the foreign object:
  the last call on a child is the read that returned it, so neither it nor any child after it is
  written. The Plant itself then carries Degraded True with reason ConflictingResource and the text
  of the conflict: either it did already, and there is no status write and no event, or exactly one
  successful status write sets it, changes nothing else, and comes with exactly one PlantBlocked
  warning. The conflict is returned, so the Plant is retried.\<close>

theorem conflict_reported:
  assumes "plant_operator r pause" "Reconcile r req s = (Inl e, s')" "as_conflicting e = Some c"
  shows "\<exists>p tr kind key existing st. calls s' = calls s @ GetPlant req (Inr p) # tr @ ReadObject kind key (Inr existing) # st \<and>
    (kind, key) \<in> child_ids p \<and> assertOwnership p existing = Some c \<and>
    (if carries_degraded ''ConflictingResource'' (conflict_text c) p then st = [] \<and> events s' = events s
     else \<exists>q stored. st = [UpdateStatus q (Inr stored)] \<and> degraded_write ''ConflictingResource'' (conflict_text c) p q \<and>
       events s' = events s @ [Event (plant_key p) Warning ''PlantBlocked'' (conflict_text c)])"
proof -
  have sc: "status_conditions (rSetStatusCondition r)" using assms(1) by (simp add: plant_operator_def)
  show ?thesis using assms(2)
  proof (cases rule: Reconcile_exhaust)
    case (missing x)
    then show ?thesis using assms(3) by (auto split: if_splits)
  next
    case (overlong p s1 x)
    then show ?thesis using assms(3) markDegraded_effect [OF sc overlong(4)] by (cases x) auto
  next
    case (blocked p s1 x s2 c' m)
    have "m = None" using blocked(5,6) markDegraded_effect [OF sc blocked(5)] assms(3) by (cases m) auto
    then have c: "c' = c" "x = e" using blocked(4,6) assms(3) by simp_all
    obtain kind key existing tr where t: "(kind, key) \<in> child_ids p" "assertOwnership p existing = Some c"
      "calls s2 = calls s1 @ tr @ [ReadObject kind key (Inr existing)]"
      using reconcileChildren_conflict [OF blocked(3,4)] c by blast
    have ev: "events s2 = events s" using reconcileChildren_silent [OF blocked(3)] invoke_frame [OF blocked(1)]
      by (simp add: same_frame_def silent_def)
    note c1 = invoke_calls [OF blocked(1)]
    note d = markDegraded_effect [OF sc blocked(5) [unfolded c(1)], unfolded \<open>m = None\<close>]
    show ?thesis
    proof (cases "carries_degraded ''ConflictingResource'' (conflict_text c) p")
      case True
      then have "calls s' = calls s2" "events s' = events s" using d ev by (simp_all add: ReasonConflictingResource_def)
      then show ?thesis using t c1 True
        by (intro exI [of _ p] exI [of _ tr] exI [of _ kind] exI [of _ key] exI [of _ existing] exI [of _ "[]"]) simp
    next
      case False
      then obtain q wr where q: "degraded_write ''ConflictingResource'' (conflict_text c) p q" "calls s' = calls s2 @ [UpdateStatus q wr]"
        "events s' = events s @ [Event (plant_key p) Warning ''PlantBlocked'' (conflict_text c)]" "\<not> isl wr"
        using d ev by (auto simp: ReasonConflictingResource_def eventPlantBlocked_def)
      then obtain stored where "wr = Inr stored" by (cases wr) auto
      then show ?thesis using t c1 False q
        by (intro exI [of _ p] exI [of _ tr] exI [of _ kind] exI [of _ key] exI [of _ existing] exI [of _ "[UpdateStatus q wr]"]) simp
    qed
  next
    case (applied p s1 dep f s2 st)
    then have "\<exists>y. st = Inl y \<and> e = y" by (cases st) auto
    then show ?thesis using assms(3) applied(4) plant_operator.reconcileStatus_cases [OF assms(1) applied(4)]
      by (metis option.distinct(1))
  qed (use assms(3) in auto)
qed

text \<open>A Deployment of the name of the demo Plant that nobody labelled.\<close>

definition foreign_deployment :: object where
  "foreign_deployment = ODeployment ((DeploymentFor demo_plant)\<lparr>dMeta := objectMeta ''fernie'' ''plants''\<rparr>)"

lemma store_simps [simp]:
  "rSetControllerReference store_reconciler = set_controller_reference"
  "rdPlant (reader.truncate (rClient store_reconciler)) k w =
     (case storePlants w k of Some p \<Rightarrow> Inr p | None \<Rightarrow> Inl (NotFound ''not found''), w)"
  "rdObject (reader_of store_reconciler) kind k w =
     (case storeObjects w (kind, k) of Some x \<Rightarrow> Inr x | None \<Rightarrow> Inl (NotFound ''not found''), w)"
  "clUpdateStatus (rClient store_reconciler) p w =
     (case storePlants w (plant_key p) of
        None \<Rightarrow> (Inl (NotFound ''not found''), w)
      | Some q \<Rightarrow> (Inr (q\<lparr>Status := Status p\<rparr>), w\<lparr>storePlants := (storePlants w)(plant_key p \<mapsto> q\<lparr>Status := Status p\<rparr>)\<rparr>))"
  "rNow store_reconciler w = (storeClock w, w\<lparr>storeClock := storeClock w + 1\<rparr>)"
  by (simp_all add: store_reconciler_def store_client_def reader_of_def reader.truncate_def Let_def split: option.split)

lemma store_fetch:
  "fetch store_reconciler demo_key (store_state [demo_plant] objs) =
     (Inr demo_plant, (store_state [demo_plant] objs)\<lparr>calls := [GetPlant demo_key (Inr demo_plant)]\<rparr>)"
  by (simp add: invoke_def store_state_def demo_plant_def demo_key_def)

lemma foreign_refused: "\<exists>c. assertOwnership demo_plant foreign_deployment = Some c"
proof -
  have "assertOwnership demo_plant foreign_deployment \<noteq> None"
    unfolding assertOwnership_None by (simp add: foreign_deployment_def objectMeta_def new_meta_def GetControllerOf_def)
  then show ?thesis by blast
qed

theorem conflict_reported_witness:
  "\<exists>e s' c q stored. Reconcile store_reconciler demo_key (store_state [demo_plant] [foreign_deployment]) = (Inl e, s') \<and>
     as_conflicting e = Some c \<and> UpdateStatus q (Inr stored) \<in> set (calls s') \<and>
     degraded_write ''ConflictingResource'' (conflict_text c) demo_plant q"
proof -
  let ?s0 = "store_state [demo_plant] [foreign_deployment]"
  let ?s1 = "?s0\<lparr>calls := [GetPlant demo_key (Inr demo_plant)]\<rparr>"
  let ?b = "hd (blank_children demo_plant)"
  obtain c where c: "assertOwnership demo_plant foreign_deployment = Some c" using foreign_refused by blast
  have k: "obj_kind foreign_deployment = ''Deployment''" "obj_key foreign_deployment = demo_key"
    by (simp_all add: foreign_deployment_def obj_key_def objectMeta_def new_meta_def demo_key_def)
  have rd: "rdObject (reader_of store_reconciler) (obj_kind ?b) (obj_key ?b) (world ?s1) = (Inr foreign_deployment, world ?s1)"
    using k by (simp add: demo_deployment store_state_def)
  obtain s2 where a: "applyChild store_reconciler demo_plant ?b ?s1 = (Inl (ConflictingResource c), s2)"
    "world s2 = world ?s0" "calls s2 = [GetPlant demo_key (Inr demo_plant), ReadObject ''Deployment'' demo_key (Inr foreign_deployment)]"
    using applyChild_foreign [OF rd c] by (simp add: demo_deployment)
  obtain d rest where b: "blank_children demo_plant = ODeployment d # rest" by (simp add: blank_children_def Let_def)
  let ?e = "reconciling ''Deployment'' demo_plant (ConflictingResource c)"
  have ch: "reconcileChildren store_reconciler demo_plant ?s1 = (Inl ?e, s2)"
    using a(1) b by (simp add: reconcileChildren_def)
  obtain m s3 where m: "markDegraded store_reconciler demo_plant ReasonConflictingResource (conflict_text c) s2 = (m, s3)"
    by fastforce
  have "m = None" using m
    by (auto simp: markDegraded_def now_def invoke_def emit_def a(2) store_state_def Let_def split: if_splits prod.splits)
  then have R: "Reconcile store_reconciler demo_key ?s0 = (Inl ?e, s3)"
    using Reconcile_children_failed [OF store_fetch demo_active ch] m by simp
  have nc: "\<not> carries_degraded ''ConflictingResource'' (conflict_text c) demo_plant"
    by (simp add: carries_degraded_def demo_plant_def cond_of_def)
  obtain p tr kind key existing st where t: "calls s3 = calls ?s0 @ GetPlant demo_key (Inr p) # tr @ ReadObject kind key (Inr existing) # st"
    "if carries_degraded ''ConflictingResource'' (conflict_text c) p then st = [] \<and> events s3 = events ?s0
     else \<exists>q stored. st = [UpdateStatus q (Inr stored)] \<and> degraded_write ''ConflictingResource'' (conflict_text c) p q \<and>
       events s3 = events ?s0 @ [Event (plant_key p) Warning ''PlantBlocked'' (conflict_text c)]"
    using conflict_reported [OF op.plant_operator_axioms R, of c] by auto
  have "p = demo_plant"
  proof -
    obtain us where "calls s3 = calls s2 @ us" using m by (cases rule: markDegraded_cases) (case_tac "statusChanged (Status demo_plant) ns"; fastforce)
    then show ?thesis using t(1) a(3) by (simp add: store_state_def)
  qed
  then obtain q stored where "st = [UpdateStatus q (Inr stored)]"
    "degraded_write ''ConflictingResource'' (conflict_text c) demo_plant q" using t(2) nc by auto
  then show ?thesis using t(1) R
    by (intro exI [of _ ?e] exI [of _ s3] exI [of _ c] exI [of _ q] exI [of _ stored]) simp
qed

section \<open>The order of the children\<close>

fun read_of :: "call \<Rightarrow> (string \<times> key) list" where
  "read_of (ReadObject kind key res) = [(kind, key)]"
| "read_of (CreateObject obj res) = []"
| "read_of (UpdateObject obj res) = []"
| "read_of (MapServiceMonitor res) = []"
| "read_of (GetPlant k res) = []"
| "read_of (ReadPlant k res) = []"
| "read_of (UpdateStatus q res) = []"

definition reads :: "call list \<Rightarrow> (string \<times> key) list" where
  "reads tr = concat (map read_of tr)"

definition created_in :: "call list \<Rightarrow> bool" where
  "created_in tr \<longleftrightarrow> (\<exists>obj x. CreateObject obj (Inr x) \<in> set tr)"

definition updated_in :: "call list \<Rightarrow> bool" where
  "updated_in tr \<longleftrightarrow> (\<exists>obj x. UpdateObject obj (Inr x) \<in> set tr)"

lemma reads_simps [simp]: "reads [] = []" "reads (c # cs) = read_of c @ reads cs" "reads (a @ b) = reads a @ reads b"
  by (simp_all add: reads_def)

lemma written_append [simp]:
  "created_in (a @ b) \<longleftrightarrow> created_in a \<or> created_in b" "updated_in (a @ b) \<longleftrightarrow> updated_in a \<or> updated_in b"
  by (auto simp: created_in_def updated_in_def)

lemma written_simps [simp]:
  "\<not> created_in []" "\<not> updated_in []"
  "created_in (CreateObject obj (Inr x) # tr)" "updated_in (UpdateObject obj (Inr x) # tr)"
  "created_in (CreateObject obj (Inl e) # tr) \<longleftrightarrow> created_in tr" "updated_in (UpdateObject obj (Inl e) # tr) \<longleftrightarrow> updated_in tr"
  "created_in (UpdateObject obj z # tr) \<longleftrightarrow> created_in tr" "updated_in (CreateObject obj z # tr) \<longleftrightarrow> updated_in tr"
  "created_in (ReadObject kind key rd # tr) \<longleftrightarrow> created_in tr" "updated_in (ReadObject kind key rd # tr) \<longleftrightarrow> updated_in tr"
  "created_in (MapServiceMonitor m # tr) \<longleftrightarrow> created_in tr" "updated_in (MapServiceMonitor m # tr) \<longleftrightarrow> updated_in tr"
  "created_in (GetPlant k g # tr) \<longleftrightarrow> created_in tr" "updated_in (GetPlant k g # tr) \<longleftrightarrow> updated_in tr"
  "created_in (UpdateStatus q u # tr) \<longleftrightarrow> created_in tr" "updated_in (UpdateStatus q u # tr) \<longleftrightarrow> updated_in tr"
  "created_in (ReadPlant k g # tr) \<longleftrightarrow> created_in tr" "updated_in (ReadPlant k g # tr) \<longleftrightarrow> updated_in tr"
  by (auto simp: created_in_def updated_in_def)

lemma applyChild_observed:
  assumes "applyChild r p obj s = (res, s')"
  obtains tr where "calls s' = calls s @ tr" "reads tr = [(obj_kind obj, obj_key obj)]"
    "\<And>op x f. res = Inr (op, x) \<Longrightarrow> note_result op f = (fst f \<or> created_in tr, snd f \<or> updated_in tr)"
proof -
  obtain rd w where rd: "rdObject (reader_of r) (obj_kind obj) (obj_key obj) (world s) = (rd, w)" by fastforce
  have "\<exists>tr. calls s' = calls s @ tr \<and> reads tr = [(obj_kind obj, obj_key obj)] \<and>
    (\<forall>op x f. res = Inr (op, x) \<longrightarrow> note_result op f = (fst f \<or> created_in tr, snd f \<or> updated_in tr))"
    using assms rd
    by (cases rd) (auto simp: applyChild_def invoke_def Let_def split: if_splits sum.splits prod.splits option.splits)
  then show ?thesis using that by blast
qed

definition ids :: "object list \<Rightarrow> (string \<times> key) list" where
  "ids objs = map (\<lambda>c. (obj_kind c, obj_key c)) objs"

lemma applyChildren_observed:
  "applyChildren r p cs f s = (res, s') \<Longrightarrow>
     \<exists>tr n. calls s' = calls s @ tr \<and> reads tr = take n (ids cs) \<and>
       (\<forall>objs f'. res = Inr (objs, f') \<longrightarrow>
          n = length cs \<and> f' = (fst f \<or> created_in tr, snd f \<or> updated_in tr))"
proof (induction cs arbitrary: f s res)
  case Nil
  then show ?case by (intro exI [of _ "[]"]) (auto simp: ids_def)
next
  case (Cons c cs)
  obtain r1 s1 where 1: "applyChild r p c s = (r1, s1)" by fastforce
  obtain tr1 where t1: "calls s1 = calls s @ tr1" "reads tr1 = [(obj_kind c, obj_key c)]"
    "\<And>op x f. r1 = Inr (op, x) \<Longrightarrow> note_result op f = (fst f \<or> created_in tr1, snd f \<or> updated_in tr1)"
    using applyChild_observed [OF 1] by blast
  show ?case
  proof (cases r1)
    case (Inl x)
    then show ?thesis using Cons.prems 1 t1
      by (intro exI [of _ tr1] exI [of _ 1]) (auto simp: ids_def)
  next
    case (Inr y)
    obtain op obj where y: "y = (op, obj)" by (cases y)
    obtain r2 s2 where 2: "applyChildren r p cs (note_result op f) s1 = (r2, s2)" by fastforce
    have s2: "s2 = s'" "res = map_sum id (\<lambda>(objs, f2). (obj # objs, f2)) r2"
      using Cons.prems 1 2 Inr y by (auto split: sum.splits prod.splits)
    obtain tr n where t: "calls s' = calls s1 @ tr" "reads tr = take n (ids cs)"
      "\<forall>objs f'. r2 = Inr (objs, f') \<longrightarrow>
          n = length cs \<and> f' = (fst (note_result op f) \<or> created_in tr, snd (note_result op f) \<or> updated_in tr)"
      using Cons.IH [OF 2 [unfolded s2(1)]] by blast
    show ?thesis using t t1 s2 Inr y
      by (intro exI [of _ "tr1 @ tr"] exI [of _ "Suc n"]) (cases r2; auto simp: ids_def)
  qed
qed

lemma serviceMonitorCRDAvailable_observed:
  assumes "serviceMonitorCRDAvailable r s = (b, s')"
  obtains tr where "calls s' = calls s @ tr" "reads tr = []" "\<not> created_in tr" "\<not> updated_in tr"
proof -
  have "\<exists>tr. calls s' = calls s @ tr \<and> reads tr = [] \<and> \<not> created_in tr \<and> \<not> updated_in tr"
    using assms unfolding serviceMonitorCRDAvailable_def Let_def
    by (auto simp: now_def invoke_def log_info_def split: option.splits prod.splits if_splits)
  then show ?thesis using that by blast
qed

definition child_table :: "plant \<Rightarrow> object list" where
  "child_table p = blank_children p @ [OServiceMonitor (ServiceMonitorFor p)]"

lemma reconcileChildren_observed:
  assumes "reconcileChildren r p s = (res, s')"
  shows "\<exists>tr n. calls s' = calls s @ tr \<and> reads tr = take n (ids (child_table p)) \<and>
    (\<forall>dep f. res = Inr (dep, f) \<longrightarrow> 6 \<le> n \<and> f = (created_in tr, updated_in tr))"
proof -
  obtain r1 s1 where 1: "applyChildren r p (blank_children p) (False, False) s = (r1, s1)" by fastforce
  obtain a s2 where 2: "serviceMonitorCRDAvailable r s1 = (a, s2)" by fastforce
  obtain r3 s3 where 3: "applyChild r p (OServiceMonitor (ServiceMonitorFor p)) s2 = (r3, s3)" by fastforce
  obtain tr1 n where t1: "calls s1 = calls s @ tr1" "reads tr1 = take n (ids (blank_children p))"
    "\<forall>objs f'. r1 = Inr (objs, f') \<longrightarrow> n = length (blank_children p) \<and> f' = (created_in tr1, updated_in tr1)"
    using applyChildren_observed [OF 1] by auto
  obtain tr2 where t2: "calls s2 = calls s1 @ tr2" "reads tr2 = []" "\<not> created_in tr2" "\<not> updated_in tr2"
    using serviceMonitorCRDAvailable_observed [OF 2] by blast
  obtain tr3 where t3: "calls s3 = calls s2 @ tr3"
    "reads tr3 = [(obj_kind (OServiceMonitor (ServiceMonitorFor p)), obj_key (OServiceMonitor (ServiceMonitorFor p)))]"
    "\<And>op x f. r3 = Inr (op, x) \<Longrightarrow> note_result op f = (fst f \<or> created_in tr3, snd f \<or> updated_in tr3)"
    using applyChild_observed [OF 3] by blast
  have l: "length (blank_children p) = 6" "length (ids (blank_children p)) = 6"
    by (simp_all add: blank_children_def ids_def Let_def)
  have k: "ids (child_table p) = ids (blank_children p) @ [(obj_kind (OServiceMonitor (ServiceMonitorFor p)),
      obj_key (OServiceMonitor (ServiceMonitorFor p)))]" by (simp add: ids_def child_table_def)
  show ?thesis
  proof (cases r1)
    case (Inl x)
    then have "res = Inl x" "s' = s1" using assms 1 by (auto simp: reconcileChildren_def)
    then show ?thesis using t1 k l by (intro exI [of _ tr1] exI [of _ "min n 6"]) (simp add: min_def)
  next
    case (Inr y)
    then obtain objs f' where y: "r1 = Inr (objs, f')" "n = 6" "f' = (created_in tr1, updated_in tr1)"
      using t1(3) l by (cases y) auto
    have t1r: "reads tr1 = ids (blank_children p)" using t1(2) y(2) l by simp
    show ?thesis
    proof (cases a)
      case True
      have s3: "s' = s3" "res = (case r3 of Inl e \<Rightarrow> Inl (reconciling ''ServiceMonitor'' p e)
          | Inr (op, x) \<Rightarrow> Inr (deployment_of p objs, note_result op f'))"
        using assms 1 2 3 y True by (auto simp: reconcileChildren_def split: sum.splits)
      have "calls s' = calls s @ tr1 @ tr2 @ tr3" using s3(1) t1(1) t2(1) t3(1) by simp
      moreover have "reads (tr1 @ tr2 @ tr3) = take 7 (ids (child_table p))"
        by (simp add: t1r t2(2) t3(2) k l)
      moreover have "f = (created_in (tr1 @ tr2 @ tr3), updated_in (tr1 @ tr2 @ tr3))" if "res = Inr (dep, f)" for dep f
        using that s3(2) t3(3) y(3) t2(3,4) by (cases r3) auto
      ultimately show ?thesis by (intro exI [of _ "tr1 @ tr2 @ tr3"] exI [of _ 7]) simp
    next
      case False
      then have s2: "s' = s2" "res = Inr (deployment_of p objs, f')"
        using assms 1 2 y by (auto simp: reconcileChildren_def)
      have "calls s' = calls s @ tr1 @ tr2" using s2(1) t1(1) t2(1) by simp
      moreover have "reads (tr1 @ tr2) = take 6 (ids (child_table p))" by (simp add: t1r t2(2) k l)
      moreover have "f' = (created_in (tr1 @ tr2), updated_in (tr1 @ tr2))" using y(3) t2(3,4) by simp
      ultimately show ?thesis using s2(2) by (intro exI [of _ "tr1 @ tr2"] exI [of _ 6]) simp
    qed
  qed
qed

lemma status_run_observed: "status_run ns before tr \<Longrightarrow> reads tr = [] \<and> \<not> created_in tr \<and> \<not> updated_in tr"
  by (induction ns before tr rule: status_run.induct) simp_all

lemma status_run_at:
  "status_run ns before (xs @ UpdateStatus q res # ys) \<Longrightarrow> Status q = ns \<and>
     (\<forall>k latest. (if xs = [] then before else Some (last xs)) = Some (ReadPlant k (Inr latest)) \<longrightarrow> q = latest\<lparr>Status := ns\<rparr>)"
proof (induction xs arbitrary: before)
  case (Cons a xs)
  have "status_run ns (Some a) (xs @ UpdateStatus q res # ys)" using Cons.prems by (cases a) simp_all
  from Cons.IH [OF this] show ?case by (cases "xs = []") simp_all
qed simp

lemma child_call_not_status: "child_call p c \<Longrightarrow> \<not> is_status_update c"
  by (cases c) simp_all

lemma child_trace_no_status:
  assumes "child_trace ref p tr" shows "UpdateStatus q res \<notin> set tr \<and> status_updates tr = 0"
proof -
  have "\<forall>c \<in> set tr. \<not> is_status_update c"
    using assms child_call_not_status by (auto simp: child_trace_def list_all_iff)
  then show ?thesis by (auto simp: status_updates_def filter_empty_conv)
qed

lemma child_ids_distinct: "distinct (ids (child_table p))"
  by (simp add: ids_def child_table_def blank_children_def obj_key_def objectMeta_def new_meta_def ServiceMonitorFor_def Let_def)

text \<open>
  \<open>child_fails\<close>: after this call the child it is about cannot be brought in line: the read failed, or
  what was read (or the blank child, when there was nothing) is not the operator's or cannot be mutated,
  or the write was refused.
\<close>

fun child_fails :: "set_ref \<Rightarrow> plant \<Rightarrow> call \<Rightarrow> bool" where
  "child_fails ref p (ReadObject kind key (Inr x)) \<longleftrightarrow> assertOwnership p x \<noteq> None \<or>
     (case mutate ref p x of Inl e \<Rightarrow> True | Inr want \<Rightarrow> obj_key want \<noteq> key)"
| "child_fails ref p (ReadObject kind key (Inl e)) \<longleftrightarrow> \<not> IsNotFound e \<or>
     list_ex (\<lambda>blank. (obj_kind blank, obj_key blank) = (kind, key) \<and> isl (mutate ref p blank)) (child_table p)"
| "child_fails ref p (CreateObject obj res) \<longleftrightarrow> isl res"
| "child_fails ref p (UpdateObject obj res) \<longleftrightarrow> isl res"
| "child_fails ref p (MapServiceMonitor res) \<longleftrightarrow> False"
| "child_fails ref p (GetPlant k res) \<longleftrightarrow> False"
| "child_fails ref p (ReadPlant k res) \<longleftrightarrow> False"
| "child_fails ref p (UpdateStatus q res) \<longleftrightarrow> False"

text \<open>\<open>ends_at_failure\<close>: only the last call may be one after which a child has failed, and none is
  when the result is no error.\<close>

definition ends_at_failure :: "set_ref \<Rightarrow> plant \<Rightarrow> bool \<Rightarrow> call list \<Rightarrow> bool" where
  "ends_at_failure ref p failed tr \<longleftrightarrow> filter (child_fails ref p) (butlast tr) = [] \<and>
     (failed \<or> filter (child_fails ref p) tr = [])"

lemma ends_at_failure_append:
  "ends_at_failure ref p False a \<Longrightarrow> ends_at_failure ref p failed b \<Longrightarrow> ends_at_failure ref p failed (a @ b)"
  by (cases b) (auto simp: ends_at_failure_def butlast_append filter_empty_conv dest: in_set_butlastD)

lemma child_blank_unique:
  assumes "a \<in> set (child_table p)" "b \<in> set (child_table p)" "obj_kind a = obj_kind b" "obj_key a = obj_key b"
  shows "a = b"
  using child_ids_distinct [of p] assms by (auto simp: ids_def distinct_map dest: inj_onD)

text \<open>The calls of one child: a read, and a write of what came of it; the last answer is the child.\<close>

lemma applyChild_calls:
  assumes "applyChild r p obj s = (res, s')" "obj \<in> set (child_table p)"
  shows "\<exists>y tr. calls s' = calls s @ ReadObject (obj_kind obj) (obj_key obj) y # tr \<and>
    ends_at_failure (rSetControllerReference r) p (isl res) (ReadObject (obj_kind obj) (obj_key obj) y # tr) \<and>
    (\<forall>op x. res = Inr (op, x) \<longrightarrow> tr = [] \<and> y = Inr x \<or>
       (\<exists>want. tr = [UpdateObject want (Inr x)] \<and> \<not> isl y \<or> tr = [CreateObject want (Inr x)] \<and> isl y))"
proof -
  let ?ref = "rSetControllerReference r"
  obtain rd w where rd: "rdObject (reader_of r) (obj_kind obj) (obj_key obj) (world s) = (rd, w)" by fastforce
  have blank: "list_ex (\<lambda>blank. (obj_kind blank, obj_key blank) = (obj_kind obj, obj_key obj) \<and> isl (mutate ?ref p blank)) (child_table p)
     \<longleftrightarrow> isl (mutate ?ref p obj)"
    using child_blank_unique [OF _ assms(2)] assms(2) by (auto simp: list_ex_iff)
  define Q where "Q = (\<lambda>y tr. calls s' = calls s @ ReadObject (obj_kind obj) (obj_key obj) y # tr \<and>
    ends_at_failure ?ref p (isl res) (ReadObject (obj_kind obj) (obj_key obj) y # tr) \<and>
    (\<forall>op x. res = Inr (op, x) \<longrightarrow> tr = [] \<and> y = Inr x \<or>
       (\<exists>want. tr = [UpdateObject want (Inr x)] \<and> \<not> isl y \<or> tr = [CreateObject want (Inr x)] \<and> isl y)))"
  have failed: "Q y []" if "calls s' = calls s @ [ReadObject (obj_kind obj) (obj_key obj) y]" "isl res" for y
    using that by (auto simp: Q_def ends_at_failure_def)
  have wrote: "Q y [c]" if "calls s' = calls s @ [ReadObject (obj_kind obj) (obj_key obj) y, c]"
    "\<not> child_fails ?ref p (ReadObject (obj_kind obj) (obj_key obj) y)" "child_fails ?ref p c \<Longrightarrow> isl res"
    "\<And>op x. res = Inr (op, x) \<Longrightarrow> \<exists>want. c = UpdateObject want (Inr x) \<and> \<not> isl y \<or> c = CreateObject want (Inr x) \<and> isl y" for y c
    using that by (auto simp: Q_def ends_at_failure_def simp del: child_fails.simps)
  have "\<exists>y tr. Q y tr"
  proof (cases rd)
    case (Inl e)
    show ?thesis
    proof (cases "IsNotFound e")
      case False
      then have "Q rd []" using assms(1) rd Inl by (intro failed) (auto simp: applyChild_def invoke_def Let_def)
      then show ?thesis by blast
    next
      case True
      show ?thesis
      proof (cases "mutate ?ref p obj")
        case m: (Inl x)
        then have "Q rd []" using assms(1) rd Inl True by (intro failed) (auto simp: applyChild_def invoke_def Let_def)
        then show ?thesis by blast
      next
        case (Inr want)
        obtain cr w2 where c: "clCreate (rClient r) want w = (cr, w2)" by fastforce
        note a = assms(1) [unfolded applyChild_absent [OF rd [unfolded Inl] True Inr c]]
        have "\<not> child_fails ?ref p (ReadObject (obj_kind obj) (obj_key obj) rd)"
          unfolding Inl child_fails.simps blank using True Inr by simp
        then have "Q rd [CreateObject want cr]" using a Inl by (intro wrote) (cases cr; auto)+
        then show ?thesis by blast
      qed
    qed
  next
    case (Inr x)
    consider "assertOwnership p x \<noteq> None" | e where "assertOwnership p x = None" "mutate ?ref p x = Inl e"
      | want where "assertOwnership p x = None" "mutate ?ref p x = Inr want" "obj_key want \<noteq> obj_key obj"
      | want where "assertOwnership p x = None" "mutate ?ref p x = Inr want" "obj_key want = obj_key obj"
      by (cases "assertOwnership p x"; cases "mutate ?ref p x") auto
    then have "Q rd [] \<or> (\<exists>c. Q rd [c])"
    proof cases
      case (4 want)
      have ok: "\<not> child_fails ?ref p (ReadObject (obj_kind obj) (obj_key obj) rd)"
        unfolding Inr child_fails.simps using 4 by simp
      show ?thesis
      proof (cases "x = want")
        case True
        then have "Q rd []" using assms(1) rd Inr 4 ok
          by (auto simp: Q_def ends_at_failure_def applyChild_def invoke_def Let_def simp del: child_fails.simps)
        then show ?thesis ..
      next
        case False
        obtain ur w2 where u: "clUpdate (rClient r) want w = (ur, w2)" by fastforce
        note a = assms(1) [unfolded applyChild_drifted [OF rd [unfolded Inr] 4(1,2,3) False u]]
        have "Q rd [UpdateObject want ur]" using a Inr ok by (intro wrote) (cases ur; auto)+
        then show ?thesis by blast
      qed
    qed (use assms(1) rd Inr in \<open>intro disjI1 failed; auto simp: applyChild_def invoke_def Let_def\<close>)+
    then show ?thesis by blast
  qed
  then show ?thesis unfolding Q_def .
qed

text \<open>\<open>deployment_answer\<close>: the Deployment, the first child, as the API server last answered: to the write
  if it was written, to its read otherwise.\<close>

fun deployment_answer :: "call list \<Rightarrow> object option" where
  "deployment_answer (ReadObject kind key (Inr x) # UpdateObject want (Inr y) # tr) = Some y"
| "deployment_answer (ReadObject kind key (Inl e) # CreateObject want (Inr y) # tr) = Some y"
| "deployment_answer (ReadObject kind key (Inr x) # tr) = Some x"
| "deployment_answer tr = None"

lemma applyChildren_calls:
  "applyChildren r p cs f s = (res, s') \<Longrightarrow> set cs \<subseteq> set (child_table p) \<Longrightarrow>
     \<exists>tr. calls s' = calls s @ tr \<and> ends_at_failure (rSetControllerReference r) p (isl res) tr \<and>
       (cs \<noteq> [] \<longrightarrow> (\<exists>kind key y more. tr = ReadObject kind key y # more))"
proof (induction cs arbitrary: f s res)
  case Nil
  then show ?case by (simp add: ends_at_failure_def)
next
  case (Cons c cs)
  obtain r1 s1 where 1: "applyChild r p c s = (r1, s1)" by fastforce
  have "c \<in> set (child_table p)" using Cons.prems(2) by simp
  from applyChild_calls [OF 1 this] obtain y tr where t: "calls s1 = calls s @ ReadObject (obj_kind c) (obj_key c) y # tr"
    "ends_at_failure (rSetControllerReference r) p (isl r1) (ReadObject (obj_kind c) (obj_key c) y # tr)" by blast
  show ?case
  proof (cases r1)
    case (Inl e)
    then show ?thesis using Cons.prems(1) 1 t by auto
  next
    case (Inr z)
    obtain op obj where z: "z = (op, obj)" by (cases z)
    obtain r2 s2 where 2: "applyChildren r p cs (note_result op f) s1 = (r2, s2)" by fastforce
    have s2: "s2 = s'" "isl res = isl r2" using Cons.prems 1 2 Inr z by (auto split: sum.splits prod.splits)
    obtain tr2 where "calls s' = calls s1 @ tr2" "ends_at_failure (rSetControllerReference r) p (isl r2) tr2"
      using Cons.IH [OF 2 [unfolded s2(1)]] Cons.prems(2) by auto
    then show ?thesis
      using t Inr s2(2) ends_at_failure_append [of "rSetControllerReference r" p "ReadObject (obj_kind c) (obj_key c) y # tr" "isl r2" tr2]
      by (intro exI [of _ "(ReadObject (obj_kind c) (obj_key c) y # tr) @ tr2"]) simp
  qed
qed

lemma applyChildren_first:
  assumes "applyChildren r p (c # d # cs) f s = (Inr (objs, f'), s')" "set (c # d # cs) \<subseteq> set (child_table p)"
  shows "\<exists>tr x rest. calls s' = calls s @ tr \<and> ends_at_failure (rSetControllerReference r) p False tr \<and>
    objs = x # rest \<and> (\<forall>more. deployment_answer (tr @ more) = Some x)"
proof -
  obtain op x s1 where 1: "applyChild r p c s = (Inr (op, x), s1)"
    using assms(1) by (cases "applyChild r p c s"; cases "fst (applyChild r p c s)") auto
  obtain rest where 2: "applyChildren r p (d # cs) (note_result op f) s1 = (Inr (rest, f'), s')" "objs = x # rest"
    using assms(1) unfolding applyChildren.simps(2) [of r p c] 1 by (auto split: sum.splits prod.splits)
  have "c \<in> set (child_table p)" using assms(2) by simp
  from applyChild_calls [OF 1 this] obtain y tr where t: "calls s1 = calls s @ ReadObject (obj_kind c) (obj_key c) y # tr"
    "ends_at_failure (rSetControllerReference r) p False (ReadObject (obj_kind c) (obj_key c) y # tr)"
    "tr = [] \<and> y = Inr x \<or> (\<exists>want. tr = [UpdateObject want (Inr x)] \<and> \<not> isl y \<or> tr = [CreateObject want (Inr x)] \<and> isl y)"
    by fastforce
  obtain tr2 k key z more where t2: "calls s' = calls s1 @ tr2" "ends_at_failure (rSetControllerReference r) p False tr2"
    "tr2 = ReadObject k key z # more"
    using applyChildren_calls [OF 2(1)] assms(2) by auto
  have "deployment_answer ((ReadObject (obj_kind c) (obj_key c) y # tr @ tr2) @ m) = Some x" for m
    using t(3) t2(3) by (cases y) auto
  then show ?thesis using t(1) t2(1) 2(2) ends_at_failure_append [OF t(2) t2(2)]
    by (intro exI [of _ "ReadObject (obj_kind c) (obj_key c) y # tr @ tr2"]) simp
qed

lemma serviceMonitorCRDAvailable_calls:
  "serviceMonitorCRDAvailable r s = (b, s') \<Longrightarrow> \<exists>tr. calls s' = calls s @ tr \<and> ends_at_failure ref p False tr"
  unfolding serviceMonitorCRDAvailable_def Let_def
  by (auto simp: ends_at_failure_def now_def invoke_def log_info_def split: option.splits prod.splits if_splits)

lemma blank_children_two: "\<exists>c d cs. blank_children p = c # d # cs"
  by (simp add: blank_children_def Let_def)

lemma deployment_of_hd: "deployment_of p (x # xs) = deployment_of p [x]"
  by (cases x) simp_all

lemma reconcileChildren_calls:
  assumes "reconcileChildren r p s = (res, s')"
  shows "\<exists>tr. calls s' = calls s @ tr \<and> ends_at_failure (rSetControllerReference r) p (isl res) tr \<and>
    (\<forall>dep f. res = Inr (dep, f) \<longrightarrow> (\<exists>x. dep = deployment_of p [x] \<and> (\<forall>more. deployment_answer (tr @ more) = Some x)))"
proof -
  let ?ref = "rSetControllerReference r" and ?m = "OServiceMonitor (ServiceMonitorFor p)"
  obtain r1 s1 where 1: "applyChildren r p (blank_children p) (False, False) s = (r1, s1)" by fastforce
  have sub: "set (blank_children p) \<subseteq> set (child_table p)" "?m \<in> set (child_table p)" by (auto simp: child_table_def)
  show ?thesis
  proof (cases r1)
    case (Inl e)
    then have "res = Inl e" "s' = s1" using assms 1 by (auto simp: reconcileChildren_def)
    then show ?thesis using applyChildren_calls [OF 1 sub(1)] Inl by auto
  next
    case (Inr y)
    obtain objs f where y: "y = (objs, f)" by (cases y)
    obtain tr x rest where t: "calls s1 = calls s @ tr" "ends_at_failure ?ref p False tr" "objs = x # rest"
      "\<forall>more. deployment_answer (tr @ more) = Some x"
      using blank_children_two [of p] applyChildren_first [of r p _ _ _ _ s objs f s1] 1 sub(1) unfolding Inr y by metis
    obtain a s2 where 2: "serviceMonitorCRDAvailable r s1 = (a, s2)" by fastforce
    obtain tr2 where t2: "calls s2 = calls s1 @ tr2" "ends_at_failure ?ref p False tr2"
      using serviceMonitorCRDAvailable_calls [OF 2] by blast
    note e = ends_at_failure_append [OF t(2) t2(2)]
    have d: "deployment_of p objs = deployment_of p [x]" unfolding t(3) by (rule deployment_of_hd)
    show ?thesis
    proof (cases a)
      case False
      then have "s' = s2" "res = Inr (deployment_of p [x], f)" using assms 1 2 Inr y d by (auto simp: reconcileChildren_def)
      then show ?thesis using t t2 e by (intro exI [of _ "tr @ tr2"]) auto
    next
      case True
      obtain r3 s3 where 3: "applyChild r p ?m s2 = (r3, s3)" by fastforce
      from applyChild_calls [OF 3 sub(2)] obtain tr3 where t3: "calls s3 = calls s2 @ tr3" "ends_at_failure ?ref p (isl r3) tr3"
        by metis
      have "s' = s3" "isl res = isl r3" "\<And>dep fl. res = Inr (dep, fl) \<Longrightarrow> dep = deployment_of p [x]"
        using assms 1 2 3 Inr y True d by (auto simp: reconcileChildren_def split: sum.splits)
      then show ?thesis using t t2 t3 ends_at_failure_append [OF e t3(2)]
        by (intro exI [of _ "(tr @ tr2) @ tr3"]) auto
    qed
  qed
qed

lemma status_run_no_child: "status_run ns before tr \<Longrightarrow> filter (child_call p) tr = []"
  by (induction ns before tr rule: status_run.induct) simp_all

text \<open>C25: A Reconcile of an active Plant reads its children one by one in the order of the
  table (Deployment, Service, ConfigMap, PodDisruptionBudget, ServiceAccount, NetworkPolicy, then
  the ServiceMonitor), each at most once, and stops at the first that fails: a read that failed, a
  child that is not the operator's or could not be mutated, or a write that was refused is the last
  call on the children, and there is none in a Reconcile that succeeds, which has gone through at
  least the six unconditional ones.\<close>

theorem children_in_order:
  assumes "plant_operator r pause" "rdPlant (reader.truncate (rClient r)) req (world s) = (Inr p, w)" "active p"
    "Reconcile r req s = (res, s')"
  shows "\<exists>tr st n. calls s' = calls s @ GetPlant req (Inr p) # tr @ st \<and> filter (child_call p) st = [] \<and>
    reads tr = take n (ids (child_table p)) \<and> distinct (reads tr) \<and>
    filter (child_fails (rSetControllerReference r) p) (butlast tr) = [] \<and>
    (\<not> isl res \<longrightarrow> filter (child_fails (rSetControllerReference r) p) tr = [] \<and> 6 \<le> n)"
proof -
  have sc: "status_conditions (rSetStatusCondition r)" using assms(1) by (simp add: plant_operator_def)
  let ?s1 = "s\<lparr>world := w, calls := calls s @ [GetPlant req (Inr p)]\<rparr>"
  have f: "fetch r req s = (Inr p, ?s1)" using assms(2) by (simp add: invoke_def)
  obtain cr s2 where c: "reconcileChildren r p ?s1 = (cr, s2)" by fastforce
  obtain tr n where t: "calls s2 = calls ?s1 @ tr" "reads tr = take n (ids (child_table p))"
    "\<forall>dep f. cr = Inr (dep, f) \<longrightarrow> 6 \<le> n \<and> f = (created_in tr, updated_in tr)"
    using reconcileChildren_observed [OF c] by blast
  have fail: "ends_at_failure (rSetControllerReference r) p (isl cr) tr"
    using reconcileChildren_calls [OF c] t(1) by auto
  have "\<exists>st. calls s' = calls s2 @ st \<and> filter (child_call p) st = [] \<and> (\<not> isl res \<longrightarrow> \<not> isl cr)"
  proof (cases cr)
    case (Inl e)
    note c = c [unfolded Inl]
    have "isl res" using Reconcile_children_failed [OF f assms(3) c] assms(4) by (auto split: option.splits prod.splits)
    moreover have "\<exists>st. calls s' = calls s2 @ st \<and> filter (child_call p) st = []"
    proof (cases "as_conflicting e")
      case None
      then show ?thesis using Reconcile_children_failed [OF f assms(3) c] assms(4) by simp
    next
      case (Some x)
      obtain m s3 where m: "markDegraded r p ReasonConflictingResource (conflict_text x) s2 = (m, s3)" by fastforce
      then have "s' = s3" using Reconcile_children_failed [OF f assms(3) c] assms(4) Some by (cases m) auto
      then show ?thesis using markDegraded_effect [OF sc m] by (auto split: if_splits)
    qed
    ultimately show ?thesis by blast
  next
    case (Inr y)
    obtain dep fl where y: "y = (dep, fl)" by (cases y)
    note c = c [unfolded Inr y]
    obtain st s3 where st: "reconcileStatus r p dep (drift_event p fl s2) = (st, s3)" by fastforce
    then have "s' = s3" using Reconcile_children_applied [OF f assms(3) c] assms(4) by (cases st) auto
    then show ?thesis using Inr plant_operator.reconcileStatus_cases [OF assms(1) st] status_run_no_child drift_event_calls
      by (metis sum.disc(2))
  qed
  then obtain st where st: "calls s' = calls s2 @ st" "filter (child_call p) st = []" "\<not> isl res \<longrightarrow> \<not> isl cr" by blast
  show ?thesis using t st fail child_ids_distinct [of p] unfolding ends_at_failure_def
    by (intro exI [of _ tr] exI [of _ st] exI [of _ n]) (cases cr; auto simp: distinct_take)
qed

theorem children_in_order_witness:
  "\<exists>tr st n. calls (snd (Reconcile store_reconciler demo_key (store_state [demo_plant] []))) = GetPlant demo_key (Inr demo_plant) # tr @ st \<and>
     reads tr = take n (ids (child_table demo_plant)) \<and>
     filter (child_fails set_controller_reference demo_plant) (butlast tr) = []"
proof -
  let ?s = "store_state [demo_plant] []"
  obtain res s' where R: "Reconcile store_reconciler demo_key ?s = (res, s')" by fastforce
  have rd: "rdPlant (reader.truncate (rClient store_reconciler)) demo_key (world ?s) = (Inr demo_plant, world ?s)"
    by (simp add: store_state_def demo_key_def demo_plant_def)
  have e: "calls ?s = []" "rSetControllerReference store_reconciler = set_controller_reference"
    by (simp_all add: store_state_def store_reconciler_def)
  from children_in_order [OF op.plant_operator_axioms rd demo_active R] show ?thesis unfolding R e snd_conv by auto
qed

section \<open>Writing the status\<close>

text \<open>C21: In one Reconcile the status is written at most five times and always the same
  status: the decision is taken once and only the write is repeated. A write that follows a fresh
  read writes back exactly the Plant that was read, with that status in it, so a concurrent edit of
  the Plant is never undone; and a Reconcile that writes the status and succeeds ends with a write
  that was accepted, whose answer decides the requeue interval.\<close>

theorem status_write_protocol:
  assumes "plant_operator r pause" "Reconcile r req s = (res, s')" "calls s' = calls s @ tr"
  shows "status_updates tr \<le> 5 \<and>
    (\<exists>ns. \<forall>xs q wr ys. tr = xs @ UpdateStatus q wr # ys \<longrightarrow> Status q = ns \<and>
       (\<forall>k latest. last xs = ReadPlant k (Inr latest) \<longrightarrow> q = latest\<lparr>Status := ns\<rparr>)) \<and>
    (\<forall>d. res = Inr d \<longrightarrow> d \<noteq> 0 \<longrightarrow> 0 < status_updates tr \<longrightarrow>
       (\<exists>q stored. last tr = UpdateStatus q (Inr stored) \<and> d = requeueIntervalFor stored))"
proof (intro conjI)
  obtain rd tr1 tr2 where t: "tr = GetPlant req rd # tr1 @ tr2" "\<forall>e. rd = Inl e \<longrightarrow> tr1 = [] \<and> tr2 = []"
    "\<forall>p. rd = Inr p \<longrightarrow> child_trace (rSetControllerReference r) p tr1 \<and> (\<exists>ns. status_run ns None tr2) \<and> status_updates tr2 \<le> 5"
    using plant_operator.Reconcile_trace [OF assms(1,2)] assms(3) by force
  obtain ns where ns: "status_run ns None tr2" "status_updates tr2 \<le> 5"
    "\<forall>q res. UpdateStatus q res \<notin> set tr1" "status_updates tr1 = 0"
  proof (cases rd)
    case (Inl e)
    then show ?thesis using that [of undefined] t(2) by simp
  next
    case (Inr p)
    then show ?thesis using that t(3) child_trace_no_status by blast
  qed
  show "status_updates tr \<le> 5" using t(1) ns by simp
  show "\<exists>ns. \<forall>xs q wr ys. tr = xs @ UpdateStatus q wr # ys \<longrightarrow> Status q = ns \<and>
       (\<forall>k latest. last xs = ReadPlant k (Inr latest) \<longrightarrow> q = latest\<lparr>Status := ns\<rparr>)"
  proof (intro exI allI impI)
    fix xs q wr ys assume "tr = xs @ UpdateStatus q wr # ys"
    then obtain xs' where x: "xs = GetPlant req rd # xs'" "xs' @ UpdateStatus q wr # ys = tr1 @ tr2"
      using t(1) by (cases xs) auto
    obtain us where "tr1 = xs' @ us \<and> UpdateStatus q wr # ys = us @ tr2 \<or> xs' = tr1 @ us \<and> tr2 = us @ UpdateStatus q wr # ys"
      using x(2) by (auto simp: append_eq_append_conv2)
    then obtain us where u: "tr2 = us @ UpdateStatus q wr # ys" "xs' = tr1 @ us" using ns(3) by (cases us) (auto, blast)
    have "\<nexists>k latest. tr1 \<noteq> [] \<and> last tr1 = ReadPlant k latest"
      using t(2,3) by (cases rd) (auto simp: child_trace_def list_all_iff dest!: last_in_set)
    then show "Status q = ns \<and> (\<forall>k latest. last xs = ReadPlant k (Inr latest) \<longrightarrow> q = latest\<lparr>Status := ns\<rparr>)"
      using status_run_at [OF ns(1) [unfolded u(1)]] x(1) u(2) by (auto simp: last_append split: if_splits)
  qed
  show "\<forall>d. res = Inr d \<longrightarrow> d \<noteq> 0 \<longrightarrow> 0 < status_updates tr \<longrightarrow>
       (\<exists>q stored. last tr = UpdateStatus q (Inr stored) \<and> d = requeueIntervalFor stored)"
    using assms(2)
  proof (cases rule: Reconcile_exhaust)
    case (overlong p s1 e)
    then show ?thesis by (cases e) auto
  next
    case (applied p s1 dep f s2 st)
    obtain ct where ct: "calls s2 = calls s1 @ ct" "status_updates ct = 0"
      using reconcileChildren_trace [OF applied(3)] child_trace_no_status by (auto simp: extends_def)
    obtain str where str: "calls s' = calls s2 @ str"
      "\<And>p'. st = Inr p' \<Longrightarrow> if str = [] then p' = p else (\<exists>q. last str = UpdateStatus q (Inr p'))"
      using plant_operator.reconcileStatus_cases [OF assms(1) applied(4)] drift_event_calls by metis
    have tr: "tr = GetPlant req (Inr p) # ct @ str" using assms(3) invoke_calls [OF applied(1)] ct(1) str(1) by simp
    show ?thesis using str(2) applied(5) ct(2) unfolding tr by (cases st) (auto split: if_splits)
  qed (auto split: if_splits)
qed

theorem status_write_protocol_witness:
  "status_updates (calls (snd (Reconcile store_reconciler demo_key (store_state [demo_plant] [])))) \<le> 5"
proof -
  obtain res s' where R: "Reconcile store_reconciler demo_key (store_state [demo_plant] []) = (res, s')" by fastforce
  have "calls s' = calls (store_state [demo_plant] []) @ calls s'" by (simp add: store_state_def)
  from status_write_protocol [OF op.plant_operator_axioms R this] show ?thesis using R by simp
qed

section \<open>Events\<close>

context status_conditions begin

lemma computeStatus_degraded:
  "conditionTrue (stConditions (computeStatus sc p dep t1 t2)) ConditionDegraded \<longleftrightarrow>
     slt 0 (desiredReplicas p) \<and> dStatusReadyReplicas dep = 0"
proof -
  let ?ns = "conditionsFor (dStatusReadyReplicas dep) (desiredReplicas p) dep (mGeneration (pMeta p)) t2"
  obtain c1 c2 c where n: "?ns = [c1, c2, c]" and c: "cType c = ConditionDegraded"
    "cStatus c = (if dStatusReadyReplicas dep = 0 \<and> slt 0 (desiredReplicas p) then CTrue else CFalse)"
    using conditionsFor_cases [of "dStatusReadyReplicas dep" "desiredReplicas p" dep "mGeneration (pMeta p)" t2]
    by (elim exE conjE) (rule that; assumption)
  have m: "c \<in> set ?ns" using n by simp
  obtain u where "cond_of (cType c) (fold sc ?ns (stConditions (Status p))) = Some (c\<lparr>cLastTransitionTime := u\<rparr>)"
    using fold_lookup_time [OF conditionsFor_distinct m] by blast
  then show ?thesis using c by (auto simp: computeStatus_def conditionTrue_def Let_def)
qed

end

text \<open>The health event of a status: on the edges of the Degraded condition.\<close>

definition health_event :: "plant \<Rightarrow> deployment \<Rightarrow> event list" where
  "health_event p dep =
     (let was = conditionTrue (stConditions (Status p)) ConditionDegraded;
          is = (slt 0 (desiredReplicas p) \<and> dStatusReadyReplicas dep = 0)
      in if is \<and> \<not> was then [Event (plant_key p) Warning ''PlantDegraded'' ''plant has no ready replicas'']
         else if was \<and> \<not> is
         then [Event (plant_key p) Normal ''PlantRecovered'' ''plant has at least one ready replica again'']
         else [])"

context plant_operator begin

lemma reconcileStatus_events:
  assumes "reconcileStatus r p dep s = (res, s')"
  shows "events s' = events s @ health_event p dep"
  using assms
proof (cases rule: reconcileStatus_cases)
  case (1 t1 t2 ns tr)
  have e: "events (emitHealthEvents p (Status p) ns s) = events s @ health_event p dep"
    using computeStatus_degraded
    by (simp add: 1(1) emitHealthEvents_def health_event_def emit_def event_names Let_def)
  show ?thesis
  proof (cases "tr = []")
    case True
    then have "stConditions ns = stConditions (Status p)"
      using 1(5) by (cases ns; cases "Status p") (simp add: statusChanged_def)
    then have "health_event p dep = []"
      using computeStatus_degraded [of p dep t1 t2] by (auto simp: health_event_def 1(1) Let_def)
    then show ?thesis using 1(6) True by simp
  next
    case False
    then show ?thesis using 1(6) e by simp
  qed
qed

end

text \<open>C20: A successful Reconcile of an active Plant emits at most two events, and only on a
  change: PlantCreated exactly when it created a child, else PlantUpdated exactly when it corrected
  one; then, for the Deployment as the API server last answered in this Reconcile, PlantDegraded
  exactly when replicas are desired, it reports none ready, and the Plant's status did not say
  degraded, or PlantRecovered exactly when the status said so and this no longer holds. A Reconcile
  that writes no child and finds the Plant as degraded as its status says emits none.\<close>

theorem events_on_edges:
  assumes "plant_operator r pause" "rdPlant (reader.truncate (rClient r)) req (world s) = (Inr p, w)" "active p"
    "Reconcile r req s = (Inr d, s')"
  shows "\<exists>tr x degraded was. calls s' = calls s @ GetPlant req (Inr p) # tr \<and> deployment_answer tr = Some x \<and>
    (degraded \<longleftrightarrow> slt 0 (desiredReplicas p) \<and> dStatusReadyReplicas (deployment_of p [x]) = 0) \<and>
    (was \<longleftrightarrow> conditionTrue (stConditions (Status p)) ConditionDegraded) \<and>
    events s' = events s @
      (if created_in tr then [Event (plant_key p) Normal ''PlantCreated'' created_message]
       else if updated_in tr then [Event (plant_key p) Normal ''PlantUpdated'' updated_message] else []) @
      (if degraded \<and> \<not> was then [Event (plant_key p) Warning ''PlantDegraded'' ''plant has no ready replicas'']
       else if was \<and> \<not> degraded
       then [Event (plant_key p) Normal ''PlantRecovered'' ''plant has at least one ready replica again''] else [])"
  using assms(4)
proof (cases rule: Reconcile_exhaust)
  case (applied p' s1 dep f s2 st)
  have p: "p' = p" "calls s1 = calls s @ [GetPlant req (Inr p)]" "events s1 = events s"
    using applied(1) assms(2) by (auto simp: invoke_def)
  obtain tr n where t: "calls s2 = calls s1 @ tr" "f = (created_in tr, updated_in tr)"
    using reconcileChildren_observed [OF applied(3)] by blast
  obtain x where x: "dep = deployment_of p [x]" "\<forall>more. deployment_answer (tr @ more) = Some x"
    using reconcileChildren_calls [OF applied(3)] t(1) p(1) by auto
  obtain st' where st: "calls s' = calls s2 @ st'" "\<not> created_in st'" "\<not> updated_in st'"
    using plant_operator.reconcileStatus_cases [OF assms(1) applied(4)] status_run_observed drift_event_calls by metis
  have "events s2 = events s" using reconcileChildren_silent [OF applied(3)] p by (simp add: silent_def)
  then have "events (drift_event p f s2) = events s @
      (if created_in tr then [Event (plant_key p) Normal ''PlantCreated'' created_message]
       else if updated_in tr then [Event (plant_key p) Normal ''PlantUpdated'' updated_message] else [])"
    by (simp add: drift_event_def t(2) emit_def event_names)
  then have "events s' = events s @
      (if created_in tr then [Event (plant_key p) Normal ''PlantCreated'' created_message]
       else if updated_in tr then [Event (plant_key p) Normal ''PlantUpdated'' updated_message] else []) @
      health_event p (deployment_of p [x])"
    using plant_operator.reconcileStatus_events [OF assms(1) applied(4)] unfolding p(1) x(1) by simp
  then show ?thesis using st t p x(2) unfolding health_event_def Let_def
    by (intro exI [of _ "tr @ st'"] exI [of _ x] exI conjI) (rule refl | simp)+
qed (use assms(2,3) in \<open>auto simp: invoke_def active_def\<close>)

text \<open>On the empty store the first Reconcile of a Plant succeeds.\<close>

definition store_frame :: "store \<Rightarrow> store \<Rightarrow> bool" where
  "store_frame w w' \<longleftrightarrow> storePlants w' = storePlants w \<and> storeServiceMonitors w' = storeServiceMonitors w"

lemma store_creates:
  assumes "storeObjects (world s) (obj_kind obj, obj_key obj) = None"
    and n: "GetControllerOf (obj_meta obj) = None" "mNamespace (obj_meta obj) = pNamespace p"
  shows "\<exists>want s'. applyChild store_reconciler p obj s = (Inr (ResultCreated, want), s') \<and>
    storeObjects (world s') = (storeObjects (world s))((obj_kind obj, obj_key obj) \<mapsto> want) \<and>
    store_frame (world s) (world s') \<and> serviceMonitorNegativeCacheUntil s' = serviceMonitorNegativeCacheUntil s"
proof -
  obtain want where m: "mutate set_controller_reference p obj = Inr want"
    using unowned_mutates [OF n] by metis
  have k: "obj_kind want = obj_kind obj" "obj_key want = obj_key obj" using mutate_kind [OF m] owner.mutate_key [OF m] by simp_all
  have c: "clCreate (rClient store_reconciler) want (world s) =
      (Inr want, (world s)\<lparr>storeObjects := (storeObjects (world s))((obj_kind obj, obj_key obj) \<mapsto> want)\<rparr>)"
    using assms(1) k by (simp add: store_reconciler_def store_client_def)
  have rd: "rdObject (reader_of store_reconciler) (obj_kind obj) (obj_key obj) (world s) = (Inl (NotFound ''not found''), world s)"
    using assms(1) by simp
  show ?thesis using applyChild_absent [OF rd _ _ c] m by (simp add: store_frame_def)
qed

lemma store_creates_all:
  "distinct (ids cs) \<Longrightarrow> (\<forall>c \<in> set cs. storeObjects (world s) (obj_kind c, obj_key c) = None \<and>
       GetControllerOf (obj_meta c) = None \<and> mNamespace (obj_meta c) = pNamespace p) \<Longrightarrow>
     \<exists>objs f' s'. applyChildren store_reconciler p cs f s = (Inr (objs, f'), s') \<and>
       store_frame (world s) (world s') \<and> serviceMonitorNegativeCacheUntil s' = serviceMonitorNegativeCacheUntil s"
proof (induction cs arbitrary: f s)
  case (Cons c cs)
  obtain want s1 where 1: "applyChild store_reconciler p c s = (Inr (ResultCreated, want), s1)"
    "storeObjects (world s1) = (storeObjects (world s))((obj_kind c, obj_key c) \<mapsto> want)"
    "store_frame (world s) (world s1)" "serviceMonitorNegativeCacheUntil s1 = serviceMonitorNegativeCacheUntil s"
    using store_creates [of s c p] Cons.prems(2) by auto
  have "\<forall>x \<in> set cs. storeObjects (world s1) (obj_kind x, obj_key x) = None \<and>
      GetControllerOf (obj_meta x) = None \<and> mNamespace (obj_meta x) = pNamespace p"
    using Cons.prems 1(2) by (fastforce simp: ids_def image_iff)
  from Cons.IH [OF _ this, of "note_result ResultCreated f"] Cons.prems(1)
  show ?case using 1 by (fastforce simp: ids_def store_frame_def)
qed (simp add: store_frame_def)

lemma blank_children_new:
  "distinct (ids (blank_children p))"
  "c \<in> set (blank_children p) \<Longrightarrow> GetControllerOf (obj_meta c) = None \<and> mNamespace (obj_meta c) = pNamespace p"
  using child_ids_distinct [of p]
  by (auto simp: child_table_def ids_def blank_children_def objectMeta_def new_meta_def GetControllerOf_def Let_def)

lemma store_reconciles:
  "\<exists>d s'. Reconcile store_reconciler demo_key (store_state [demo_plant] []) = (Inr d, s')"
proof -
  let ?s = "store_state [demo_plant] []"
  let ?s1 = "?s\<lparr>calls := [GetPlant demo_key (Inr demo_plant)]\<rparr>"
  have e: "storeObjects (world ?s1) k = None" for k by (simp add: store_state_def)
  obtain objs f s2 where 2: "applyChildren store_reconciler demo_plant (blank_children demo_plant) (False, False) ?s1 = (Inr (objs, f), s2)"
    "store_frame (world ?s1) (world s2)" "serviceMonitorNegativeCacheUntil s2 = 0"
    using store_creates_all [OF blank_children_new(1), of demo_plant ?s1 demo_plant "(False, False)"] blank_children_new(2) e
    by (auto simp: store_state_def)
  obtain s3 where 3: "serviceMonitorCRDAvailable store_reconciler s2 = (False, s3)" "storePlants (world s3) = storePlants (world ?s1)"
    using 2(2,3) by (auto simp: serviceMonitorCRDAvailable_def invoke_def now_def log_info_def Let_def store_frame_def
        store_reconciler_def store_client_def store_state_def)
  have c: "reconcileChildren store_reconciler demo_plant ?s1 = (Inr (deployment_of demo_plant objs, f), s3)"
    using 2(1) 3(1) by (simp add: reconcileChildren_def)
  obtain st s4 where 4: "reconcileStatus store_reconciler demo_plant (deployment_of demo_plant objs) (drift_event demo_plant f s3) = (st, s4)"
    by fastforce
  have pl: "storePlants (world s3) (plant_key demo_plant) = Some demo_plant" using 3(2) by (simp add: store_state_def)
  have "world (drift_event demo_plant f s3) = world s3" by (simp add: drift_event_def emit_def)
  moreover have "world (emitHealthEvents demo_plant a b s) = world s" for a b and s :: "store state"
    by (simp add: emitHealthEvents_def emit_def Let_def)
  moreover have "rRetryOnConflict store_reconciler = attempts (\<lambda>w. w) 4" by (simp add: store_reconciler_def)
  moreover have "attempts (\<lambda>w. w) 4 fn x = (case fn x of
      (Some e, y) \<Rightarrow> if IsConflict e then attempts (\<lambda>w. w) 3 fn (idle (\<lambda>w. w) y) else (Some e, y) | (None, y) \<Rightarrow> (None, y))"
    for fn :: "store attempt" and x
    using attempts.simps(2) [of "\<lambda>w. w" 3 fn x] by simp
  ultimately have "\<not> isl st" using 4 pl
    by (auto simp: reconcileStatus_def now_def invoke_def status_attempt_def log_info_def Let_def split: if_splits)
  then obtain p' where "st = Inr p'" by (cases st) auto
  then show ?thesis using Reconcile_children_applied [OF store_fetch demo_active c] 4 by simp
qed

theorem events_on_edges_witness:
  "\<exists>d s' tr x. Reconcile store_reconciler demo_key (store_state [demo_plant] []) = (Inr d, s') \<and>
     calls s' = GetPlant demo_key (Inr demo_plant) # tr \<and> deployment_answer tr = Some x \<and>
     (\<exists>drift. events s' = drift @ health_event demo_plant (deployment_of demo_plant [x]))"
proof -
  let ?s = "store_state [demo_plant] []"
  obtain d s' where R: "Reconcile store_reconciler demo_key ?s = (Inr d, s')" using store_reconciles by blast
  have rd: "rdPlant (reader.truncate (rClient store_reconciler)) demo_key (world ?s) = (Inr demo_plant, world ?s)"
    by (simp add: store_state_def demo_key_def demo_plant_def)
  have e: "calls ?s = []" "events ?s = []" by (simp_all add: store_state_def)
  from events_on_edges [OF op.plant_operator_axioms rd demo_active R] show ?thesis
    using R unfolding e health_event_def Let_def by fastforce
qed

section \<open>Probing for the ServiceMonitor CRD\<close>



end
