(* ===== verification/Convergence.thy ===== *)
theory Convergence
  imports Operator
begin

text \<open>
  What repeated Reconciles do when nobody else acts: the contract of a quiet cluster, and the proof
  that the second Reconcile finds everything in place. The API server of a quiet cluster still
  assigns identities, versions and the fields it owns, and the clock and every read may still
  change the rest of the world.
\<close>

section \<open>What the API server adds to an object\<close>

definition same_meta :: "object_meta \<Rightarrow> object_meta \<Rightarrow> bool" where
  "same_meta m m' \<longleftrightarrow> mName m' = mName m \<and> mNamespace m' = mNamespace m \<and> mLabels m' = mLabels m \<and>
     mOwners m' = mOwners m"

definition same_container :: "container \<Rightarrow> container \<Rightarrow> bool" where
  "same_container c c' \<longleftrightarrow> c' = c\<lparr>coServer := coServer c'\<rparr>"

definition same_pod :: "pod_spec \<Rightarrow> pod_spec \<Rightarrow> bool" where
  "same_pod s s' \<longleftrightarrow> s' = s\<lparr>poContainers := poContainers s', poServer := poServer s'\<rparr> \<and>
     list_all2 same_container (poContainers s) (poContainers s')"

text \<open>\<open>same_intent want stored\<close>: the same object up to what the server assigns: identity,
  version, generation and annotations, the fields it owns, and the status.\<close>

fun same_intent :: "object \<Rightarrow> object \<Rightarrow> bool" where
  "same_intent (ODeployment d) (ODeployment d') \<longleftrightarrow> same_meta (dMeta d) (dMeta d') \<and> same_pod (dPodSpec d) (dPodSpec d') \<and>
     dReplicas d' = dReplicas d \<and> dSelector d' = dSelector d \<and> dTemplateLabels d' = dTemplateLabels d"
| "same_intent (OService v) (OService v') \<longleftrightarrow> same_meta (svMeta v) (svMeta v') \<and>
     svType v' = svType v \<and> svSelector v' = svSelector v \<and> svPorts v' = svPorts v"
| "same_intent (OConfigMap c) (OConfigMap c') \<longleftrightarrow> same_meta (cmMeta c) (cmMeta c') \<and> cmData c' = cmData c"
| "same_intent (OPodDisruptionBudget b) (OPodDisruptionBudget b') \<longleftrightarrow> same_meta (pdbMeta b) (pdbMeta b') \<and>
     pdbMinAvailable b' = pdbMinAvailable b \<and> pdbSelector b' = pdbSelector b"
| "same_intent (OServiceAccount a) (OServiceAccount a') \<longleftrightarrow> same_meta (saMeta a) (saMeta a') \<and> saAutomount a' = saAutomount a"
| "same_intent (ONetworkPolicy n) (ONetworkPolicy n') \<longleftrightarrow> same_meta (npMeta n) (npMeta n') \<and>
     npPodSelector n' = npPodSelector n \<and> npPolicyTypes n' = npPolicyTypes n \<and>
     npIngress n' = npIngress n \<and> npEgress n' = npEgress n"
| "same_intent (OServiceMonitor m) (OServiceMonitor m') \<longleftrightarrow> same_meta (smMeta m) (smMeta m') \<and>
     smMatchLabels m' = smMatchLabels m \<and> smEndpoints m' = smEndpoints m"
| "same_intent a b \<longleftrightarrow> False"

lemma same_container_refl [simp]: "same_container c c"
  by (simp add: same_container_def)

lemma same_intent_refl [simp]: "same_intent x x"
  by (cases x) (simp_all add: same_meta_def same_pod_def list_all2_refl)

lemma same_intent_meta: "same_intent x y \<Longrightarrow> same_meta (obj_meta x) (obj_meta y)"
  by (cases x; cases y) simp_all

lemma same_intent_kind: "same_intent x y \<Longrightarrow> obj_kind y = obj_kind x"
  by (cases x; cases y) simp_all

lemma same_intent_key: "same_intent x y \<Longrightarrow> obj_key y = obj_key x"
  using same_intent_meta [of x y] by (simp add: obj_key_def same_meta_def)

text \<open>The Plant after a write of its status.\<close>

definition same_plant :: "plant \<Rightarrow> plant \<Rightarrow> bool" where
  "same_plant p q \<longleftrightarrow> Spec q = Spec p \<and> pName q = pName p \<and> pNamespace q = pNamespace p \<and>
     mUID (pMeta q) = mUID (pMeta p) \<and> mGeneration (pMeta q) = mGeneration (pMeta p) \<and>
     mDeletionTimestamp (pMeta q) = mDeletionTimestamp (pMeta p)"

lemma same_plant_refl [simp]: "same_plant p p" by (simp add: same_plant_def)

section \<open>A settled object stays settled\<close>

lemma same_plant_builders:
  assumes "same_plant p q"
  shows "DeploymentFor q = DeploymentFor p" "ServiceFor q = ServiceFor p" "ConfigMapFor q = ConfigMapFor p"
    "PodDisruptionBudgetFor q = PodDisruptionBudgetFor p" "ServiceAccountFor q = ServiceAccountFor p"
    "NetworkPolicyFor q = NetworkPolicyFor p" "ServiceMonitorFor q = ServiceMonitorFor p"
    "LabelsFor q = LabelsFor p" "blank_children q = blank_children p" "plant_ref q = plant_ref p" "plant_key q = plant_key p"
proof -
  have e: "Spec q = Spec p" "pName q = pName p" "pNamespace q = pNamespace p" "mUID (pMeta q) = mUID (pMeta p)"
    using assms by (simp_all add: same_plant_def)
  have l: "LabelsFor q = LabelsFor p" "SelectorFor q = SelectorFor p" "replicasFor q = replicasFor p"
    "containerFor q = containerFor p"
    by (simp_all only: LabelsFor_def SelectorFor_def replicasFor_def containerFor_def e)
  have pod: "podSpecFor q = podSpecFor p" unfolding podSpecFor_def e l by (rule refl)
  show "DeploymentFor q = DeploymentFor p" "ServiceFor q = ServiceFor p" "ConfigMapFor q = ConfigMapFor p"
    "PodDisruptionBudgetFor q = PodDisruptionBudgetFor p" "ServiceAccountFor q = ServiceAccountFor p"
    "NetworkPolicyFor q = NetworkPolicyFor p" "ServiceMonitorFor q = ServiceMonitorFor p"
    "LabelsFor q = LabelsFor p" "blank_children q = blank_children p" "plant_ref q = plant_ref p" "plant_key q = plant_key p"
    unfolding DeploymentFor_def ServiceFor_def ConfigMapFor_def PodDisruptionBudgetFor_def
      ServiceAccountFor_def NetworkPolicyFor_def ServiceMonitorFor_def blank_children_def plant_ref_def e l pod
    by (rule refl)+
qed

text \<open>The containers: a merge that changed nothing changes nothing after the server's defaults.\<close>

lemma merge_container_settled:
  "merge_container c w = c \<Longrightarrow> same_container c c' \<Longrightarrow> merge_container c' w = c'"
  by (cases c; cases c') (auto simp: merge_container_def same_container_def)

lemma mergeContainers_settled:
  assumes "mergeContainers cs [w] = cs" "list_all2 same_container cs cs'"
  shows "mergeContainers cs' [w] = cs'"
proof -
  obtain h r where hr: "h = (case existing_by_name cs (coName w) of Some h \<Rightarrow> merge_container h w | None \<Rightarrow> w)"
    "r = filter (\<lambda>c. coName c \<noteq> coName w) cs" by blast
  have cs: "cs = h # r" using assms(1) unfolding mergeContainers_one hr by (rule sym)
  have h: "merge_container h w = h" "coName h = coName w" and r: "c \<in> set r \<Longrightarrow> coName c \<noteq> coName w" for c
    unfolding hr using existing_by_name_name by (auto split: option.split)
  obtain h' r' where cs': "cs' = h' # r'" "same_container h h'" "list_all2 same_container r r'"
    using assms(2) unfolding cs list_all2_Cons1 by blast
  have n: "coName c' = coName c" if "same_container c c'" for c c'
    using that by (cases c; cases c') (auto simp: same_container_def)
  have r': "coName c' \<noteq> coName w" if c: "c' \<in> set r'" for c'
  proof -
    obtain c where "c \<in> set r" "same_container c c'"
      using cs'(3) c unfolding list_all2_conv_all_nth in_set_conv_nth by metis
    then show ?thesis using n r by simp
  qed
  have "find (\<lambda>c. coName c = coName w) (rev r') = None" using r' by (auto simp: find_None_iff)
  then have "existing_by_name cs' (coName w) = Some h'"
    using n [OF cs'(2)] h(2) by (simp add: cs'(1) existing_by_name_def find_append)
  moreover have "merge_container h' w = h'" by (rule merge_container_settled [OF h(1) cs'(2)])
  moreover have "filter (\<lambda>c. coName c \<noteq> coName w) cs' = r'"
    using n [OF cs'(2)] h(2) r' by (simp add: cs'(1))
  ultimately show ?thesis unfolding mergeContainers_one by (simp add: cs'(1))
qed

context controller_reference begin

text \<open>A mutation that changes nothing changes nothing after the server has added its own, nor
  for the Plant with another status.\<close>

lemma mutateDeployment_fixed:
  assumes d: "mutateDeployment set_ref p d = Inr d"
  shows "dSelector d \<noteq> None" "dReplicas d = dReplicas (DeploymentFor p)"
    "dTemplateLabels d = mergeLabels (dTemplateLabels d) (LabelsFor p)"
    "poServiceAccountName (dPodSpec d) = poServiceAccountName (podSpecFor p)" "poAutomount (dPodSpec d) = poAutomount (podSpecFor p)"
    "poSecurityContext (dPodSpec d) = poSecurityContext (podSpecFor p)"
    "poTopologySpread (dPodSpec d) = poTopologySpread (podSpecFor p)"
    "poTerminationGracePeriodSeconds (dPodSpec d) = poTerminationGracePeriodSeconds (podSpecFor p)"
    "mergeContainers (poContainers (dPodSpec d)) [containerFor p] = poContainers (dPodSpec d)"
proof -
  have o: "owned_meta set_ref p (dMeta d) (LabelsFor p) = Inr (dMeta d)"
    using mutate_meta [of set_ref p "ODeployment d" "ODeployment d"] d by simp
  define s where "s = podSpecFor p"
  define cs where "cs = mergeContainers (poContainers (dPodSpec d)) [containerFor p]"
  have D: "dSelector (DeploymentFor p) = Some (SelectorFor p)" "dPodSpec (DeploymentFor p) = s" "poContainers s = [containerFor p]"
    "dTemplateLabels (DeploymentFor p) = LabelsFor p" "mLabels (dMeta (DeploymentFor p)) = LabelsFor p"
    by (simp_all add: DeploymentFor_def s_def podSpecFor_def new_meta_def)
  have e: "d = d\<lparr>dMeta := dMeta d, dSelector := (if dSelector d = None then Some (SelectorFor p) else dSelector d),
      dReplicas := dReplicas (DeploymentFor p), dTemplateLabels := mergeLabels (dTemplateLabels d) (LabelsFor p),
      dPodSpec := (dPodSpec d)\<lparr>poServiceAccountName := poServiceAccountName s, poAutomount := poAutomount s,
         poSecurityContext := poSecurityContext s, poTopologySpread := poTopologySpread s,
         poTerminationGracePeriodSeconds := poTerminationGracePeriodSeconds s, poContainers := cs\<rparr>\<rparr>"
    using d unfolding mutateDeployment_def Let_def D o sum.case cs_def by (simp only: sum.inject)
  have "dSelector d = (if dSelector d = None then Some (SelectorFor p) else dSelector d)"
    by (subst (1) e) simp
  then show "dSelector d \<noteq> None" by (cases "dSelector d") simp_all
  show "dReplicas d = dReplicas (DeploymentFor p)" "dTemplateLabels d = mergeLabels (dTemplateLabels d) (LabelsFor p)"
    by (subst (1) e, simp)+
  have pod: "dPodSpec d = (dPodSpec d)\<lparr>poServiceAccountName := poServiceAccountName s, poAutomount := poAutomount s,
         poSecurityContext := poSecurityContext s, poTopologySpread := poTopologySpread s,
         poTerminationGracePeriodSeconds := poTerminationGracePeriodSeconds s, poContainers := cs\<rparr>"
    by (subst (1) e) simp
  show "poServiceAccountName (dPodSpec d) = poServiceAccountName (podSpecFor p)" "poAutomount (dPodSpec d) = poAutomount (podSpecFor p)"
    "poSecurityContext (dPodSpec d) = poSecurityContext (podSpecFor p)"
    "poTopologySpread (dPodSpec d) = poTopologySpread (podSpecFor p)"
    "poTerminationGracePeriodSeconds (dPodSpec d) = poTerminationGracePeriodSeconds (podSpecFor p)"
    unfolding s_def [symmetric] by (subst (1) pod, simp)+
  have "poContainers (dPodSpec d) = cs" by (subst (1) pod, simp)
  then show "mergeContainers (poContainers (dPodSpec d)) [containerFor p] = poContainers (dPodSpec d)"
    unfolding cs_def by (rule sym)
qed

lemma mutateDeployment_settled:
  assumes d: "mutateDeployment set_ref p d = Inr d" and i: "same_intent (ODeployment d) (ODeployment d')"
    and q: "same_plant p q" and m: "owned_meta set_ref q (dMeta d') (LabelsFor p) = Inr (dMeta d')"
  shows "mutateDeployment set_ref q d' = Inr d'"
proof -
  note b = same_plant_builders [OF q] and f = mutateDeployment_fixed [OF d]
  define s where "s = podSpecFor p"
  have D: "dSelector (DeploymentFor p) = Some (SelectorFor p)" "dPodSpec (DeploymentFor p) = s" "poContainers s = [containerFor p]"
    "dTemplateLabels (DeploymentFor p) = LabelsFor p" "mLabels (dMeta (DeploymentFor p)) = LabelsFor p"
    by (simp_all add: DeploymentFor_def s_def podSpecFor_def new_meta_def)
  have pod': "same_pod (dPodSpec d) (dPodSpec d')" using i by simp
  have l: "list_all2 same_container (poContainers (dPodSpec d)) (poContainers (dPodSpec d'))"
    and pd: "dPodSpec d' = (dPodSpec d)\<lparr>poContainers := poContainers (dPodSpec d'), poServer := poServer (dPodSpec d')\<rparr>"
    using pod' unfolding same_pod_def by (rule conjunct2, rule conjunct1)
  have c: "mergeContainers (poContainers (dPodSpec d')) [containerFor p] = poContainers (dPodSpec d')"
    by (rule mergeContainers_settled [OF f(9) l])
  have p: "poServiceAccountName (dPodSpec d') = poServiceAccountName s" "poAutomount (dPodSpec d') = poAutomount s"
    "poSecurityContext (dPodSpec d') = poSecurityContext s" "poTopologySpread (dPodSpec d') = poTopologySpread s"
    "poTerminationGracePeriodSeconds (dPodSpec d') = poTerminationGracePeriodSeconds s"
    by (subst pd, simp add: f s_def)+
  have t: "dSelector d' \<noteq> None" "dReplicas d' = dReplicas (DeploymentFor p)"
    "mergeLabels (dTemplateLabels d') (LabelsFor p) = dTemplateLabels d'"
    using f(1,2) f(3) [symmetric] i by simp_all
  show ?thesis unfolding mutateDeployment_def Let_def b D m sum.case c p [symmetric] t(3)
    using t(1) t(2) [symmetric] by (cases d') simp
qed

lemma mutate_settled:
  assumes "mutate set_ref p x = Inr x" "same_intent x y" "same_plant p q"
  shows "mutate set_ref q y = Inr y"
proof -
  note b = same_plant_builders [OF assms(3)]
  have o: "owned_meta set_ref p (obj_meta x) (LabelsFor p) = Inr (obj_meta x)" using mutate_meta [OF assms(1)] .
  then have m: "owned_meta set_ref q (obj_meta y) (LabelsFor p) = Inr (obj_meta y)"
    using same_intent_meta [OF assms(2)] b assms(3)
    by (intro owned_meta_settled) (simp_all add: same_meta_def same_plant_def)
  show ?thesis
  proof (cases x)
    case (ODeployment d)
    then obtain d' where y: "y = ODeployment d'" using assms(2) by (cases y) auto
    have "mutateDeployment set_ref p d = Inr d" using assms(1) ODeployment
      by (cases "mutateDeployment set_ref p d") auto
    from mutateDeployment_settled [OF this _ assms(3)] show ?thesis using assms(2) m ODeployment y by simp
  next
    case (OService v)
    with assms(1,2) m o b show ?thesis by (cases y; cases v) (simp_all add: mutateService_def builder_defs Let_def)
  next
    case (OConfigMap v)
    with assms(1,2) m o b show ?thesis by (cases y; cases v) (simp_all add: mutateConfigMap_def builder_defs Let_def)
  next
    case (OPodDisruptionBudget v)
    have "pdbSelector (PodDisruptionBudgetFor p) = Some (SelectorFor p)" by (simp add: PodDisruptionBudgetFor_def Let_def)
    with OPodDisruptionBudget assms(1,2) m o b show ?thesis by (cases y; cases v) (auto simp: mutatePodDisruptionBudget_def builder_defs Let_def split: if_splits)
  next
    case (OServiceAccount v)
    with assms(1,2) m o b show ?thesis by (cases y; cases v) (simp_all add: mutateServiceAccount_def builder_defs Let_def)
  next
    case (ONetworkPolicy v)
    with assms(1,2) m o b show ?thesis by (cases y; cases v) (simp_all add: mutateNetworkPolicy_def builder_defs Let_def)
  next
    case (OServiceMonitor v)
    with assms(1,2) m o b show ?thesis by (cases y; cases v) (simp_all add: mutateServiceMonitor_def builder_defs Let_def)
  qed
qed

end

section \<open>A quiet cluster\<close>

text \<open>A status as it is stored: its times may be rounded, as metav1.Time does to whole seconds.\<close>

definition rounded :: "(int \<Rightarrow> int) \<Rightarrow> plant_status \<Rightarrow> plant_status" where
  "rounded f st = st\<lparr>stLastWatered := map_option f (stLastWatered st),
     stConditions := map (\<lambda>c. c\<lparr>cLastTransitionTime := f (cLastTransitionTime c)\<rparr>) (stConditions st)\<rparr>"

lemma rounded_id [simp]: "rounded (\<lambda>t. t) st = st"
  by (cases st) (simp add: rounded_def option.map_ident)

text \<open>What the program can see of the world, and that it has stayed the same.\<close>

definition still ::
  "('w \<Rightarrow> key \<Rightarrow> plant option) \<Rightarrow> ('w \<Rightarrow> string \<times> key \<Rightarrow> object option) \<Rightarrow> ('w \<Rightarrow> bool) \<Rightarrow> 'w \<Rightarrow> 'w \<Rightarrow> bool" where
  "still plants objects monitors w w' \<longleftrightarrow>
     plants w' = plants w \<and> objects w' = objects w \<and> monitors w' = monitors w"

definition keyed :: "(string \<times> key \<Rightarrow> object option) \<Rightarrow> bool" where
  "keyed objs \<longleftrightarrow> (\<forall>kind k x. objs (kind, k) = Some x \<longrightarrow> obj_kind x = kind \<and> obj_key x = k)"

text \<open>
  \<open>plants\<close> and \<open>objects\<close> are what is stored, \<open>cached\<close> what the informer cache holds of
  the Plants, \<open>monitors\<close> whether the ServiceMonitor kind is installed. A Reconcile fetches its Plant
  from the cache, which may lag behind, and reads everything else uncached; a write that succeeds stores
  what was written, up to what the server assigns and to the rounding of times; a write of the status
  that fails changes nothing; time passing and pausing change nothing that is stored.
\<close>

locale quiet_cluster = plant_operator r pause
  for r :: "'w reconciler" and pause :: "'w \<Rightarrow> 'w" +
  fixes plants :: "'w \<Rightarrow> key \<Rightarrow> plant option"
    and objects :: "'w \<Rightarrow> string \<times> key \<Rightarrow> object option"
    and monitors :: "'w \<Rightarrow> bool"
    and cached :: "'w \<Rightarrow> key \<Rightarrow> plant option"
  assumes clock_still: "rNow r w = (t, w') \<Longrightarrow> still plants objects monitors w w'"
    and pause_still: "still plants objects monitors w (pause w)"
    and get_cached: "rdPlant (reader.truncate (rClient r)) k w = (x, w') \<Longrightarrow> still plants objects monitors w w' \<and>
      (case cached w k of Some p \<Rightarrow> x = Inr p | None \<Rightarrow> (\<exists>e. x = Inl e \<and> IsNotFound e))"
    and read_stored: "rdPlant (reader_of r) k w = (x, w') \<Longrightarrow> still plants objects monitors w w' \<and>
      (case plants w k of Some p \<Rightarrow> x = Inr p | None \<Rightarrow> (\<exists>e. x = Inl e \<and> IsNotFound e))"
    and read_object: "rdObject (reader_of r) kind k w = (y, w') \<Longrightarrow> still plants objects monitors w w' \<and>
      (case objects w (kind, k) of Some obj \<Rightarrow> y = Inr obj | None \<Rightarrow> (\<exists>e. y = Inl e \<and> IsNotFound e))"
    and create_stores: "clCreate (rClient r) obj w = (Inr stored, w') \<Longrightarrow> same_intent obj stored \<and>
      plants w' = plants w \<and> monitors w' = monitors w \<and> objects w' = (objects w)((obj_kind obj, obj_key obj) \<mapsto> stored)"
    and update_stores: "clUpdate (rClient r) obj w = (Inr stored, w') \<Longrightarrow> same_intent obj stored \<and>
      plants w' = plants w \<and> monitors w' = monitors w \<and> objects w' = (objects w)((obj_kind obj, obj_key obj) \<mapsto> stored)"
    and status_refused: "clUpdateStatus (rClient r) p w = (Inl e, w') \<Longrightarrow> still plants objects monitors w w'"
    and status_stores: "clUpdateStatus (rClient r) p w = (Inr p', w') \<Longrightarrow>
      (\<exists>q. plants w (plant_key p) = Some q \<and> same_plant q p') \<and> (\<exists>f. Status p' = rounded f (Status p)) \<and>
      plants w' = (plants w)(plant_key p \<mapsto> p') \<and> objects w' = objects w \<and> monitors w' = monitors w"
    and mapping_still: "clRESTMapping (rClient r) w = (err, w') \<Longrightarrow>
      still plants objects monitors w w' \<and> (err = None \<longleftrightarrow> monitors w)"

interpretation quiet_store: quiet_cluster store_reconciler "\<lambda>w. w" storePlants storeObjects storeServiceMonitors storePlants
proof (rule quiet_cluster.intro [OF op.plant_operator_axioms], unfold_locales)
qed (auto intro: exI [of _ "\<lambda>t. t"] simp: store_reconciler_def store_client_def still_def reader_of_def reader.truncate_def same_plant_def Let_def
    split: option.splits if_splits)

section \<open>The calls that write\<close>

fun is_write :: "call \<Rightarrow> bool" where
  "is_write (CreateObject obj res) \<longleftrightarrow> True"
| "is_write (UpdateObject obj res) \<longleftrightarrow> True"
| "is_write (UpdateStatus q res) \<longleftrightarrow> True"
| "is_write (GetPlant k res) \<longleftrightarrow> False"
| "is_write (ReadPlant k res) \<longleftrightarrow> False"
| "is_write (ReadObject kind k res) \<longleftrightarrow> False"
| "is_write (MapServiceMonitor res) \<longleftrightarrow> False"

text \<open>\<open>quiet\<close>: no write, no event, and what is stored stays.\<close>

definition quiet ::
  "('w \<Rightarrow> key \<Rightarrow> plant option) \<Rightarrow> ('w \<Rightarrow> string \<times> key \<Rightarrow> object option) \<Rightarrow> ('w \<Rightarrow> bool) \<Rightarrow> 'w state \<Rightarrow> 'w state \<Rightarrow> bool" where
  "quiet plants objects monitors s s' \<longleftrightarrow> still plants objects monitors (world s) (world s') \<and>
     events s' = events s \<and> (\<exists>tr. calls s' = calls s @ tr \<and> filter is_write tr = [])"

lemma still_refl [simp]: "still P O' M w w" by (simp add: still_def)

lemma still_trans: "still P O' M a b \<Longrightarrow> still P O' M b c \<Longrightarrow> still P O' M a c"
  by (simp add: still_def)

lemma quiet_refl [simp]: "quiet P O' M s s" by (simp add: quiet_def)

lemma quiet_trans:
  assumes "quiet P O' M a b" "quiet P O' M b c" shows "quiet P O' M a c"
proof -
  obtain t u where "calls b = calls a @ t" "filter is_write t = []" "calls c = calls b @ u" "filter is_write u = []"
    using assms by (auto simp: quiet_def)
  then show ?thesis using assms still_trans by (auto simp: quiet_def intro!: exI [of _ "t @ u"])
qed

text \<open>\<open>in_place\<close>: every child of the table is stored, and mutating it changes nothing.\<close>

definition in_place :: "set_ref \<Rightarrow> plant \<Rightarrow> (string \<times> key \<Rightarrow> object option) \<Rightarrow> object list \<Rightarrow> object list \<Rightarrow> bool" where
  "in_place ref p objs cs xs \<longleftrightarrow> list_all2 (\<lambda>c x. objs (obj_kind c, obj_key c) = Some x \<and> obj_kind x = obj_kind c \<and>
     obj_key x = obj_key c \<and> mutate ref p x = Inr x) cs xs"

lemma in_place_cong:
  assumes "in_place ref p objs cs xs" "\<And>i. i \<in> set (ids cs) \<Longrightarrow> objs' i = objs i"
  shows "in_place ref p objs' cs xs"
proof -
  have "objs' (obj_kind c, obj_key c) = objs (obj_kind c, obj_key c)" if "c \<in> set cs" for c
    using assms(2) that by (simp add: ids_def)
  with assms(1) show ?thesis unfolding in_place_def list_all2_conv_all_nth by (metis nth_mem)
qed

context quiet_cluster begin

abbreviation kept :: "'w \<Rightarrow> 'w \<Rightarrow> bool" where "kept \<equiv> still plants objects monitors"
abbreviation hush :: "'w state \<Rightarrow> 'w state \<Rightarrow> bool" where "hush \<equiv> quiet plants objects monitors"

lemma now_quiet: "now r s = (t, s') \<Longrightarrow> hush s s'"
  using clock_still by (auto simp: now_def quiet_def split: prod.splits)

text \<open>The first pass over one child leaves it in place.\<close>

lemma applyChild_places:
  assumes "applyChild r p obj s = (Inr (op, x), s')" "keyed (objects (world s))"
  shows "in_place (rSetControllerReference r) p (objects (world s')) [obj] [x] \<and>
    objects (world s') = (objects (world s))((obj_kind obj, obj_key obj) \<mapsto> x) \<and> keyed (objects (world s')) \<and>
    plants (world s') = plants (world s) \<and> monitors (world s') = monitors (world s) \<and>
    serviceMonitorNegativeCacheUntil s' = serviceMonitorNegativeCacheUntil s"
proof -
  let ?ref = "rSetControllerReference r" and ?id = "(obj_kind obj, obj_key obj)"
  obtain y w where rd: "rdObject (reader_of r) (obj_kind obj) (obj_key obj) (world s) = (y, w)" by fastforce
  note st = read_object [OF rd]
  define W where "W = (\<lambda>w'. objects w' = (objects (world s))(?id \<mapsto> x) \<and> plants w' = plants (world s) \<and> monitors w' = monitors (world s))"
  have placed: ?thesis if "mutate ?ref p z = Inr want" "obj_kind z = obj_kind obj" "obj_key z = obj_key obj" "same_intent want x"
    "W (world s')" "serviceMonitorNegativeCacheUntil s' = serviceMonitorNegativeCacheUntil s" for z want
  proof -
    have k: "obj_kind x = obj_kind obj" "obj_key x = obj_key obj"
      using same_intent_kind [OF that(4)] same_intent_key [OF that(4)] mutate_kind [OF that(1)] mutate_key [OF that(1)] that(2,3)
      by simp_all
    have "mutate ?ref p x = Inr x" by (rule mutate_settled [OF mutate_again [OF that(1)] that(4) same_plant_refl])
    then show ?thesis using that(5,6) k assms(2) by (auto simp: W_def in_place_def keyed_def)
  qed
  show ?thesis
  proof (cases y)
    case (Inl e)
    then have nf: "IsNotFound e" using st by (auto split: option.splits)
    obtain want where m: "mutate ?ref p obj = Inr want"
      using assms(1) rd Inl nf by (cases "mutate ?ref p obj") (auto simp: applyChild_def invoke_def Let_def)
    obtain cr w' where cr: "clCreate (rClient r) want w = (cr, w')" by fastforce
    note a = assms(1) [unfolded applyChild_absent [OF rd [unfolded Inl] nf m cr]]
    then have cx: "cr = Inr x" by (cases cr) auto
    note c = create_stores [OF cr [unfolded cx]]
    have "W w'" using c st mutate_kind [OF m] mutate_key [OF m] by (simp add: W_def still_def)
    then show ?thesis using placed [OF m refl refl] c a by auto
  next
    case (Inr z)
    then have oz: "objects (world s) ?id = Some z" using st by (auto split: option.splits)
    then have kz: "obj_kind z = obj_kind obj" "obj_key z = obj_key obj" using assms(2) unfolding keyed_def by blast+
    have own: "assertOwnership p z = None"
      using assms(1) rd Inr by (cases "assertOwnership p z") (auto simp: applyChild_def invoke_def Let_def)
    obtain want where m: "mutate ?ref p z = Inr want"
      using assms(1) rd Inr own by (cases "mutate ?ref p z") (auto simp: applyChild_def invoke_def Let_def)
    have kw: "obj_key want = obj_key obj" using mutate_key [OF m] kz by simp
    show ?thesis
    proof (cases "z = want")
      case True
      then have e: "x = z" "world s' = w" "serviceMonitorNegativeCacheUntil s' = serviceMonitorNegativeCacheUntil s"
        using assms(1) rd Inr own m kw by (auto simp: applyChild_def invoke_def Let_def)
      have "W w" using st oz e(1) by (simp add: W_def still_def fun_upd_idem)
      then have "W (world s')" "same_intent want x" using e True by simp_all
      then show ?thesis using placed [OF m kz] e(3) by blast
    next
      case False
      obtain ur w' where ur: "clUpdate (rClient r) want w = (ur, w')" by fastforce
      note a = assms(1) [unfolded applyChild_drifted [OF rd [unfolded Inr] own m kw False ur]]
      then have ux: "ur = Inr x" by (cases ur) auto
      note c = update_stores [OF ur [unfolded ux]]
      have "W w'" using c st mutate_kind [OF m] kz kw by (simp add: W_def still_def)
      then show ?thesis using placed [OF m kz] c a by auto
    qed
  qed
qed

end

section \<open>The first pass over the children\<close>

text \<open>\<open>noticed\<close>: the ServiceMonitor kind is installed and the operator remembers no miss of it.\<close>

definition noticed :: "('w \<Rightarrow> bool) \<Rightarrow> 'w state \<Rightarrow> bool" where
  "noticed monitors s \<longleftrightarrow> monitors (world s) \<and> serviceMonitorNegativeCacheUntil s = 0"

definition required :: "plant \<Rightarrow> bool \<Rightarrow> object list" where
  "required p installed = (if installed then child_table p else blank_children p)"

context quiet_cluster begin

lemma applyChildren_places:
  "applyChildren r p cs f s = (Inr (xs, f'), s') \<Longrightarrow> keyed (objects (world s)) \<Longrightarrow> distinct (ids cs) \<Longrightarrow>
     in_place (rSetControllerReference r) p (objects (world s')) cs xs \<and> keyed (objects (world s')) \<and>
     (\<forall>i. i \<notin> set (ids cs) \<longrightarrow> objects (world s') i = objects (world s) i) \<and>
     plants (world s') = plants (world s) \<and> monitors (world s') = monitors (world s) \<and>
     serviceMonitorNegativeCacheUntil s' = serviceMonitorNegativeCacheUntil s"
proof (induction cs arbitrary: f s xs)
  case Nil
  then show ?case by (simp add: in_place_def)
next
  case (Cons c cs)
  obtain op x s1 where 1: "applyChild r p c s = (Inr (op, x), s1)"
    using Cons.prems(1) by (auto split: sum.splits prod.splits)
  obtain ys where 2: "applyChildren r p cs (note_result op f) s1 = (Inr (ys, f'), s')" "xs = x # ys"
    using Cons.prems(1) 1 by (auto split: sum.splits prod.splits)
  note a = applyChild_places [OF 1 Cons.prems(2)]
  have d: "distinct (ids cs)" "(obj_kind c, obj_key c) \<notin> set (ids cs)" using Cons.prems(3) by (simp_all add: ids_def)
  have "keyed (objects (world s1))" using a by blast
  note b = Cons.IH [OF 2(1) this d(1)]
  have "in_place (rSetControllerReference r) p (objects (world s')) [c] [x]"
  proof (rule in_place_cong)
    show "in_place (rSetControllerReference r) p (objects (world s1)) [c] [x]" using a by blast
    show "objects (world s') i = objects (world s1) i" if "i \<in> set (ids [c])" for i
    proof -
      have "i \<notin> set (ids cs)" using d(2) that by (simp add: ids_def)
      then show ?thesis using b by blast
    qed
  qed
  then have "in_place (rSetControllerReference r) p (objects (world s')) (c # cs) (x # ys)"
    using a b by (auto simp: in_place_def)
  then show ?case using a b 2(2) by (auto simp: ids_def)
qed

text \<open>The probe answers yes exactly when the kind is installed and no earlier miss is remembered.\<close>

lemma serviceMonitorCRDAvailable_known:
  assumes "serviceMonitorCRDAvailable r s = (b, s')"
  shows "b = (monitors (world s') \<and> serviceMonitorNegativeCacheUntil s' = 0) \<and> hush s s' \<and>
    (serviceMonitorNegativeCacheUntil s = 0 \<longrightarrow> monitors (world s) \<longrightarrow> serviceMonitorNegativeCacheUntil s' = 0)"
proof -
  let ?until = "serviceMonitorNegativeCacheUntil s"
  obtain t s1 where t: "now r s = (t, s1)" by fastforce
  note h1 = now_quiet [OF t]
  have u1: "serviceMonitorNegativeCacheUntil s1 = ?until" using now_frame [OF t] by (simp add: same_frame_def)
  define z where "z = (if ?until = 0 then s else s1)"
  have z: "hush s z" "serviceMonitorNegativeCacheUntil z = ?until" using h1 u1 by (simp_all add: z_def)
  show ?thesis
  proof (cases "?until \<noteq> 0 \<and> slt (word_of_int t) ?until")
    case True
    then have "b = False" "s' = s1" using assms t by (auto simp: serviceMonitorCRDAvailable_def)
    then show ?thesis using h1 u1 True by (simp add: quiet_def still_def)
  next
    case False
    obtain err w where m: "clRESTMapping (rClient r) (world z) = (err, w)" by fastforce
    note ms = mapping_still [OF m]
    obtain t2 w2 where t2: "rNow r w = (t2, w2)" by fastforce
    note cs = clock_still [OF t2]
    have n: "now r (z\<lparr>world := w, calls := c\<rparr>) = (t2, z\<lparr>world := w2, calls := c\<rparr>)" for c
      using t2 by (simp add: now_def)
    have e: "serviceMonitorCRDAvailable r s =
       (case err of None \<Rightarrow> (True, z\<lparr>world := w, calls := calls z @ [MapServiceMonitor err], serviceMonitorNegativeCacheUntil := 0\<rparr>)
        | Some m \<Rightarrow> (False, let s4 = z\<lparr>world := w2, calls := calls z @ [MapServiceMonitor err],
              serviceMonitorNegativeCacheUntil := word_of_int (t2 + sint serviceMonitorProbeTTL)\<rparr>
            in if serviceMonitorUnavailableLogged s4 then s4
               else log_info (LogNoServiceMonitor m) (s4\<lparr>serviceMonitorUnavailableLogged := True\<rparr>)))"
      using False t m n by (cases err; cases "?until = 0")
        (simp_all add: serviceMonitorCRDAvailable_def z_def invoke_def Let_def)
    have hz: "events z = events s" "\<exists>tr. calls z = calls s @ tr \<and> filter is_write tr = []" "kept (world s) (world z)"
      using z(1) by (simp_all add: quiet_def)
    show ?thesis
    proof (cases err)
      case None
      then show ?thesis using assms(1) e ms hz by (auto simp: quiet_def still_def)
    next
      case (Some x)
      have "world s' = w2" "events s' = events z" "calls s' = calls z @ [MapServiceMonitor (Some x)]" "b = False"
        using assms(1) Some by (auto simp: e log_info_def Let_def)
      then show ?thesis using Some ms hz cs by (auto simp: quiet_def still_def)
    qed
  qed
qed

lemma reconcileChildren_places:
  assumes "reconcileChildren r p s = (Inr (dep, f), s')" "keyed (objects (world s))"
  obtains xs ys where "in_place (rSetControllerReference r) p (objects (world s')) (blank_children p) xs"
    "dep = deployment_of p xs" "noticed monitors s' \<Longrightarrow> in_place (rSetControllerReference r) p (objects (world s')) [OServiceMonitor (ServiceMonitorFor p)] ys"
    "plants (world s') = plants (world s)" "monitors (world s') = monitors (world s)"
    "\<And>i. i \<notin> set (ids (required p (noticed monitors s'))) \<Longrightarrow> objects (world s') i = objects (world s) i"
proof -
  let ?m = "OServiceMonitor (ServiceMonitorFor p)"
  obtain xs f1 s1 where 1: "applyChildren r p (blank_children p) (False, False) s = (Inr (xs, f1), s1)"
    using assms(1) by (auto simp: reconcileChildren_def split: sum.splits prod.splits)
  have d: "distinct (ids (blank_children p))" "(obj_kind ?m, obj_key ?m) \<notin> set (ids (blank_children p))"
    using child_ids_distinct [of p] by (simp_all add: child_table_def ids_def)
  note a = applyChildren_places [OF 1 assms(2) d(1)]
  have fr: "objects (world s1) i = objects (world s) i" if "i \<notin> set (ids (blank_children p))" for i using a that by blast
  obtain b s2 where 2: "serviceMonitorCRDAvailable r s1 = (b, s2)" by fastforce
  have k: "b = noticed monitors s2" "hush s1 s2" using serviceMonitorCRDAvailable_known [OF 2] by (simp_all add: noticed_def)
  have st: "objects (world s2) = objects (world s1)" "plants (world s2) = plants (world s1)" "monitors (world s2) = monitors (world s1)"
    using k(2) by (simp_all add: quiet_def still_def)
  show ?thesis
  proof (cases b)
    case False
    then have "s' = s2" "dep = deployment_of p xs" using assms(1) 1 2 by (simp_all add: reconcileChildren_def)
    then show ?thesis using a k(1) st fr False by (intro that [of xs "[]"]) (simp_all add: required_def)
  next
    case True
    then obtain op y where 3: "applyChild r p ?m s2 = (Inr (op, y), s')"
      and dep: "dep = deployment_of p xs"
      using assms(1) 1 2 by (auto simp: reconcileChildren_def split: sum.splits prod.splits)
    have "keyed (objects (world s2))" using a st by simp
    note c = applyChild_places [OF 3 this]
    have "in_place (rSetControllerReference r) p (objects (world s')) (blank_children p) xs"
      by (rule in_place_cong [where objs = "objects (world s1)"]) (use a c d(2) st in auto)
    moreover have "in_place (rSetControllerReference r) p (objects (world s')) [?m] [y]" using c by blast
    moreover have "plants (world s') = plants (world s)" "monitors (world s') = monitors (world s)" using a c st by simp_all
    moreover have "noticed monitors s'" using True k(1) c by (simp add: noticed_def)
    moreover have "objects (world s') i = objects (world s) i" if "i \<notin> set (ids (child_table p))" for i
    proof -
      have "i \<notin> set (ids (blank_children p))" "i \<noteq> (obj_kind ?m, obj_key ?m)" using that by (simp_all add: child_table_def ids_def)
      then show ?thesis using c st(1) fr by (simp del: obj_kind.simps)
    qed
    ultimately show ?thesis using dep by (intro that [of xs "[y]"]) (assumption | simp add: required_def)+
  qed
qed

end

section \<open>The second pass over the children\<close>

context quiet_cluster begin

lemma applyChild_in_place:
  assumes "in_place (rSetControllerReference r) p (objects (world s)) [obj] [x]"
  shows "\<exists>s'. applyChild r p obj s = (Inr (ResultNone, x), s') \<and> hush s s' \<and>
    serviceMonitorNegativeCacheUntil s' = serviceMonitorNegativeCacheUntil s"
proof -
  have x: "objects (world s) (obj_kind obj, obj_key obj) = Some x" "obj_key x = obj_key obj"
    "mutate (rSetControllerReference r) p x = Inr x"
    using assms by (simp_all add: in_place_def)
  obtain y w where rd: "rdObject (reader_of r) (obj_kind obj) (obj_key obj) (world s) = (y, w)" by fastforce
  then have y: "y = Inr x" "kept (world s) w" using read_object [OF rd] x(1) by simp_all
  have "assertOwnership p x = None" by (rule assertOwnership_ours [OF mutate_owner [OF x(3)]])
  from applyChild_settled [OF rd [unfolded y(1)] this x(3,2)] show ?thesis
    using y(2) by (simp add: quiet_def)
qed

lemma applyChildren_in_place:
  "in_place (rSetControllerReference r) p (objects (world s)) cs xs \<Longrightarrow>
     \<exists>s'. applyChildren r p cs f s = (Inr (xs, f), s') \<and> hush s s' \<and>
       serviceMonitorNegativeCacheUntil s' = serviceMonitorNegativeCacheUntil s"
proof (induction cs arbitrary: s xs)
  case Nil
  then show ?case by (simp add: in_place_def)
next
  case (Cons c cs)
  then obtain x ys where xs: "xs = x # ys" "in_place (rSetControllerReference r) p (objects (world s)) [c] [x]"
    "in_place (rSetControllerReference r) p (objects (world s)) cs ys"
    by (auto simp: in_place_def list_all2_Cons1)
  obtain s1 where 1: "applyChild r p c s = (Inr (ResultNone, x), s1)" "hush s s1"
    "serviceMonitorNegativeCacheUntil s1 = serviceMonitorNegativeCacheUntil s"
    using applyChild_in_place [OF xs(2)] by blast
  have "objects (world s1) = objects (world s)" using 1(2) by (simp add: quiet_def still_def)
  then obtain s2 where "applyChildren r p cs f s1 = (Inr (ys, f), s2)" "hush s1 s2"
    "serviceMonitorNegativeCacheUntil s2 = serviceMonitorNegativeCacheUntil s1"
    using Cons.IH [of s1 ys] xs(3) by auto
  then show ?case using 1 xs(1) quiet_trans by fastforce
qed

lemma reconcileChildren_in_place:
  assumes "in_place (rSetControllerReference r) p (objects (world s)) (blank_children p) xs"
    and m: "monitors (world s) \<Longrightarrow> in_place (rSetControllerReference r) p (objects (world s)) [OServiceMonitor (ServiceMonitorFor p)] ys"
      "monitors (world s) \<longrightarrow> serviceMonitorNegativeCacheUntil s = 0"
  shows "\<exists>s'. reconcileChildren r p s = (Inr (deployment_of p xs, False, False), s') \<and> hush s s' \<and>
    (monitors (world s') \<longrightarrow> serviceMonitorNegativeCacheUntil s' = 0)"
proof -
  obtain s1 where 1: "applyChildren r p (blank_children p) (False, False) s = (Inr (xs, (False, False)), s1)" "hush s s1"
    "serviceMonitorNegativeCacheUntil s1 = serviceMonitorNegativeCacheUntil s"
    using applyChildren_in_place [OF assms(1)] by blast
  have s1: "objects (world s1) = objects (world s)" "monitors (world s1) = monitors (world s)"
    using 1(2) by (simp_all add: quiet_def still_def)
  obtain b s2 where 2: "serviceMonitorCRDAvailable r s1 = (b, s2)" by fastforce
  have "hush s1 s2" using serviceMonitorCRDAvailable_known [OF 2] by simp
  moreover have "monitors (world s2) = monitors (world s1)" using calculation by (simp add: quiet_def still_def)
  ultimately have k: "b = monitors (world s)" "hush s1 s2" "monitors (world s2) \<longrightarrow> serviceMonitorNegativeCacheUntil s2 = 0"
    using serviceMonitorCRDAvailable_known [OF 2] m(2) 1(3) s1 by auto
  have h2: "hush s s2" by (rule quiet_trans [OF 1(2) k(2)])
  show ?thesis
  proof (cases b)
    case False
    then show ?thesis using 1(1) 2 k h2 by (auto simp: reconcileChildren_def)
  next
    case True
    have s2: "objects (world s2) = objects (world s)" "monitors (world s2) = monitors (world s)"
      using h2 by (simp_all add: quiet_def still_def)
    obtain y where "ys = [y]" using m(1) True k(1) by (auto simp: in_place_def list_all2_Cons1)
    then have "in_place (rSetControllerReference r) p (objects (world s2)) [OServiceMonitor (ServiceMonitorFor p)] [y]"
      using m(1) True k(1) s2 by simp
    from applyChild_in_place [OF this] obtain s3 where
      3: "applyChild r p (OServiceMonitor (ServiceMonitorFor p)) s2 = (Inr (ResultNone, y), s3)" "hush s2 s3"
      "serviceMonitorNegativeCacheUntil s3 = serviceMonitorNegativeCacheUntil s2" by blast
    have "reconcileChildren r p s = (Inr (deployment_of p xs, False, False), s3)"
      using 1(1) 2 3(1) True by (simp add: reconcileChildren_def)
    then show ?thesis using quiet_trans [OF h2 3(2)] 3(3) k True s2(2) by auto
  qed
qed

end

section \<open>The status settles\<close>

lemma same_plant_trans: "same_plant a b \<Longrightarrow> same_plant b c \<Longrightarrow> same_plant a c"
  by (simp add: same_plant_def)

lemma statusChanged_eq:
  "\<not> statusChanged old new \<longleftrightarrow> stMood old = stMood new \<and> stHealthPercent old = stHealthPercent new \<and>
     stReadyReplicas old = stReadyReplicas new \<and> stDesiredReplicas old = stDesiredReplicas new \<and>
     stObservedGeneration old = stObservedGeneration new \<and> stConditions old = stConditions new"
  by (cases old; cases new) (auto simp: statusChanged_def)

context quiet_cluster begin

text \<open>The retried write: the Plant is always the stored one with the new status.\<close>

lemma retried_stores:
  assumes "retried (status_attempt r ns) (idle pause) n x res" "Status (fst x) = ns"
    "\<exists>p0. plants (world (snd x)) k = Some p0 \<and> same_plant p0 (fst x)" "plant_key (fst x) = k" "fst res = None"
  shows "\<exists>q f. plants (world (snd (snd res))) k = Some q \<and> Status q = rounded f ns \<and> fst (snd res) = q \<and> same_plant (fst x) q \<and>
    objects (world (snd (snd res))) = objects (world (snd x)) \<and> monitors (world (snd (snd res))) = monitors (world (snd x))"
  using assms
proof (induction rule: retried.induct)
  case (stop x e s' n)
  obtain p s where x: "x = (p, s)" by fastforce
  obtain c w where c: "clUpdateStatus (rClient r) p (world s) = (c, w)" by fastforce
  obtain q where q: "c = Inr q" "s' = (q, s\<lparr>world := w, calls := calls s @ [UpdateStatus p c]\<rparr>)"
    using stop.hyps(1) stop.prems(4) c unfolding x
    by (cases c) (auto simp: status_attempt_def invoke_def split: if_splits sum.splits prod.splits)
  obtain p0 where p0: "plants (world s) k = Some p0" "same_plant p0 p" using stop.prems(2) x by auto
  from status_stores [OF c [unfolded q(1)]] show ?case
    using q(2) stop.prems(1,3) p0 x by (fastforce simp: same_plant_def)
next
  case (again x e s' n res)
  obtain p s where x: "x = (p, s)" by fastforce
  obtain c w where c: "clUpdateStatus (rClient r) p (world s) = (c, w)" by fastforce
  obtain p0 where p0: "plants (world s) k = Some p0" "same_plant p0 p" using again.prems(2) x by auto
  have "\<exists>e0. c = Inl e0" using again.hyps(1) c unfolding x
    by (cases c) (auto simp: status_attempt_def invoke_def)
  then obtain e0 where e0: "c = Inl e0" by blast
  have k1: "kept (world s) w" by (rule status_refused [OF c [unfolded e0]])
  obtain y w2 where y: "rdPlant (reader_of r) (plant_key p) w = (y, w2)" by fastforce
  have y': "kept w w2" "y = Inr p0" using read_stored [OF y] k1 p0(1) again.prems(3) x by (auto simp: still_def)
  have s': "s' = (p0\<lparr>Status := ns\<rparr>, s\<lparr>world := w2, calls := calls s @ [UpdateStatus p c, ReadPlant (plant_key p) y]\<rparr>)"
    using again.hyps(1,2) c e0 y y'(2) unfolding x
    by (auto simp: status_attempt_def invoke_def split: if_splits)
  have k2: "kept (world s) (world (snd (idle pause s')))"
    using still_trans [OF still_trans [OF k1 y'(1)] pause_still] by (simp add: idle_def s')
  have i: "Status (fst (idle pause s')) = ns" "\<exists>q. plants (world (snd (idle pause s'))) k = Some q \<and> same_plant q (fst (idle pause s'))"
    "plant_key (fst (idle pause s')) = k" "same_plant (fst x) (fst (idle pause s'))"
    using p0 k2 again.prems(3) by (auto simp: idle_def s' x still_def same_plant_def)
  from again.IH [OF i(1,2,3) again.prems(4)] show ?case
    using k2 same_plant_trans [OF i(4)] x by (fastforce simp: still_def)
qed simp

lemma reconcileStatus_stores:
  assumes "reconcileStatus r p dep s = (Inr p', s')" "plants (world s) (plant_key p) = Some p"
  shows "\<exists>q t1 t2 f. plants (world s') (plant_key p) = Some q \<and> same_plant p q \<and> same_plant p p' \<and>
    \<not> statusChanged (Status q) (rounded f (computeStatus (rSetStatusCondition r) p dep t1 t2)) \<and>
    objects (world s') = objects (world s) \<and> monitors (world s') = monitors (world s) \<and>
    serviceMonitorNegativeCacheUntil s' = serviceMonitorNegativeCacheUntil s"
proof -
  obtain t1 s1 where 1: "now r s = (t1, s1)" by fastforce
  obtain t2 s2 where 2: "now r s1 = (t2, s2)" by fastforce
  let ?ns = "computeStatus (rSetStatusCondition r) p dep t1 t2"
  have h: "kept (world s) (world s2)" using quiet_trans [OF now_quiet [OF 1] now_quiet [OF 2]] by (simp add: quiet_def)
  have u: "serviceMonitorNegativeCacheUntil s2 = serviceMonitorNegativeCacheUntil s"
    using now_frame [OF 1] now_frame [OF 2] by (simp add: same_frame_def)
  show ?thesis
  proof (cases "statusChanged (Status p) ?ns")
    case False
    then have "p' = p" "world s' = world s2" "serviceMonitorNegativeCacheUntil s' = serviceMonitorNegativeCacheUntil s2"
      using assms(1) 1 2 by (auto simp: reconcileStatus_def log_info_def)
    then show ?thesis using False h u assms(2)
      by (intro exI [of _ p] exI [of _ t1] exI [of _ t2] exI [of _ "\<lambda>t. t"]) (simp add: still_def)
  next
    case True
    let ?s3 = "emitHealthEvents p (Status p) ?ns s2"
    have e: "world ?s3 = world s2" "serviceMonitorNegativeCacheUntil ?s3 = serviceMonitorNegativeCacheUntil s2"
      by (simp_all add: emitHealthEvents_def emit_def Let_def)
    have r: "rRetryOnConflict r (status_attempt r ?ns) (p\<lparr>Status := ?ns\<rparr>, ?s3) = (None, p', s')"
      using assms(1) 1 2 True by (auto simp: reconcileStatus_def Let_def split: option.splits prod.splits)
    have q: "retried (status_attempt r ?ns) (idle pause) 5 (p\<lparr>Status := ?ns\<rparr>, ?s3) (None, p', s')"
      using retried_five [of "status_attempt r ?ns" "(p\<lparr>Status := ?ns\<rparr>, ?s3)"] unfolding r .
    have f: "serviceMonitorNegativeCacheUntil s' = serviceMonitorNegativeCacheUntil ?s3"
      using retried_status [OF q] by (simp add: same_frame_def) blast
    have "plants (world ?s3) (plant_key p) = Some p" using h assms(2) e by (simp add: still_def)
    then obtain q f where w: "plants (world s') (plant_key p) = Some q" "Status q = rounded f ?ns" "p' = q"
      "same_plant (p\<lparr>Status := ?ns\<rparr>) q" "objects (world s') = objects (world ?s3)" "monitors (world s') = monitors (world ?s3)"
      using retried_stores [OF q, of "plant_key p"] by (auto simp: same_plant_def)
    then show ?thesis using h u e f
      by (intro exI [of _ q] exI [of _ t1] exI [of _ t2] exI [of _ f]) (auto simp: still_def statusChanged_eq same_plant_def)
  qed
qed

text \<open>Computing the status again over what was stored, rounded times included, changes nothing.\<close>

lemma computeStatus_rounded:
  assumes "same_plant p q" "\<not> statusChanged (Status q) (rounded f (computeStatus (rSetStatusCondition r) p dep t1 t2))"
  shows "\<not> statusChanged (Status q) (computeStatus (rSetStatusCondition r) q dep t3 t4)"
proof -
  let ?sc = "rSetStatusCondition r" and ?g = "\<lambda>c. c\<lparr>cLastTransitionTime := f (cLastTransitionTime c)\<rparr>"
  let ?ns = "conditionsFor (dStatusReadyReplicas dep) (desiredReplicas p) dep (mGeneration (pMeta p))"
  let ?cs = "fold ?sc (?ns t2) (stConditions (Status p))"
  have q: "desiredReplicas q = desiredReplicas p" "mGeneration (pMeta q) = mGeneration (pMeta p)"
    using assms(1) by (simp_all add: same_plant_def desiredReplicas_def)
  have c: "stConditions (Status q) = map ?g ?cs"
    using assms(2) by (simp add: statusChanged_eq rounded_def computeStatus_def Let_def)
  have find: "cond_of t (map ?g cs) = map_option ?g (cond_of t cs)" for t cs
    by (induction cs) (simp_all add: cond_of_def)
  have "fold ?sc (?ns t4) (map ?g ?cs) = map ?g ?cs"
  proof (rule fold_idle, rule ballI)
    fix c assume "c \<in> set (?ns t4)"
    then obtain c0 where c0: "c0 \<in> set (?ns t2)" "c = c0\<lparr>cLastTransitionTime := t4\<rparr>"
      unfolding conditionsFor_time [of _ _ _ _ t4 t2] by auto
    obtain u where "cond_of (cType c0) ?cs = Some (c0\<lparr>cLastTransitionTime := u\<rparr>)"
      using fold_lookup_time [OF conditionsFor_distinct c0(1)] by blast
    then show "\<exists>old. cond_of (cType c) (map ?g ?cs) = Some old \<and> cStatus old = cStatus c \<and> cReason old = cReason c \<and>
        cMessage old = cMessage c \<and> cObservedGeneration old = cObservedGeneration c"
      using c0(2) by (simp add: find)
  qed
  then show ?thesis using assms(2) q
    by (simp add: statusChanged_eq rounded_def computeStatus_def c Let_def)
qed

lemma reconcileStatus_settled:
  assumes "same_plant p q" "\<not> statusChanged (Status q) (rounded f (computeStatus (rSetStatusCondition r) p dep t1 t2))"
  shows "\<exists>s'. reconcileStatus r q dep s = (Inr q, s') \<and> hush s s' \<and>
    serviceMonitorNegativeCacheUntil s' = serviceMonitorNegativeCacheUntil s"
proof -
  obtain t3 s1 where 1: "now r s = (t3, s1)" by fastforce
  obtain t4 s2 where 2: "now r s1 = (t4, s2)" by fastforce
  have n: "\<not> statusChanged (Status q) (computeStatus (rSetStatusCondition r) q dep t3 t4)"
    by (rule computeStatus_rounded [OF assms])
  have "hush s s2" "serviceMonitorNegativeCacheUntil s2 = serviceMonitorNegativeCacheUntil s"
    using quiet_trans [OF now_quiet [OF 1] now_quiet [OF 2]] now_frame [OF 1] now_frame [OF 2]
    by (simp_all add: same_frame_def)
  then show ?thesis using n 1 2 by (auto simp: reconcileStatus_def log_info_def quiet_def)
qed

end

section \<open>Reconciling again and again\<close>

text \<open>The writes of children, the status apart.\<close>

definition child_write :: "call \<Rightarrow> bool" where
  "child_write c \<longleftrightarrow> is_write c \<and> \<not> is_status_update c"

lemma status_run_no_write: "status_run ns before tr \<Longrightarrow> filter child_write tr = []"
  by (induction ns before tr rule: status_run.induct) (simp_all add: child_write_def)

text \<open>
  \<open>reconciled_again\<close>: further Reconciles of one Plant with their results. Before each of them the
  world may change in any way that \<open>same\<close> allows, as the clock and the caches do, to one that is
  \<open>fresh\<close>.
\<close>

inductive reconciled_again :: "'w reconciler \<Rightarrow> ('w \<Rightarrow> 'w \<Rightarrow> bool) \<Rightarrow> ('w \<Rightarrow> bool) \<Rightarrow> key \<Rightarrow> 'w state
    \<Rightarrow> (error + duration) list \<Rightarrow> 'w state \<Rightarrow> bool"
  for r same fresh req s where
  start: "reconciled_again r same fresh req s [] s"
| again: "reconciled_again r same fresh req s ds s1 \<Longrightarrow> same (world s1) w \<Longrightarrow> fresh w \<Longrightarrow>
     Reconcile r req (s1\<lparr>world := w\<rparr>) = (d, s2) \<Longrightarrow> reconciled_again r same fresh req s (ds @ [d]) s2"

text \<open>\<open>settled\<close>: what a successful Reconcile that asks to be run again after \<open>d\<close> leaves behind.\<close>

definition settled :: "'w reconciler \<Rightarrow> ('w \<Rightarrow> key \<Rightarrow> plant option) \<Rightarrow> ('w \<Rightarrow> string \<times> key \<Rightarrow> object option) \<Rightarrow> ('w \<Rightarrow> bool)
    \<Rightarrow> key \<Rightarrow> duration \<Rightarrow> 'w state \<Rightarrow> bool" where
  "settled r plants objects monitors req d s \<longleftrightarrow>
     (\<exists>p q xs ys t1 t2 f. plants (world s) req = Some q \<and> same_plant p q \<and> active q \<and> d = requeueIntervalFor q \<and>
        in_place (rSetControllerReference r) q (objects (world s)) (blank_children q) xs \<and>
        (monitors (world s) \<longrightarrow>
           in_place (rSetControllerReference r) q (objects (world s)) [OServiceMonitor (ServiceMonitorFor q)] ys) \<and>
        (monitors (world s) \<longrightarrow> serviceMonitorNegativeCacheUntil s = 0) \<and>
        \<not> statusChanged (Status q) (rounded f (computeStatus (rSetStatusCondition r) p (deployment_of q xs) t1 t2)))"

lemma same_plant_requeue:
  "same_plant p q \<Longrightarrow> requeueIntervalFor q = requeueIntervalFor p" "same_plant p q \<Longrightarrow> active q \<longleftrightarrow> active p"
  by (simp_all add: same_plant_def requeueIntervalFor_def active_def)

lemma deployment_of_same: "same_plant p q \<Longrightarrow> deployment_of q xs = deployment_of p xs"
  using same_plant_builders(9) [of p q] by (induction p xs rule: deployment_of.induct) simp_all

lemma emit_world [simp]: "world (drift_event p f s) = world s"
  "serviceMonitorNegativeCacheUntil (drift_event p f s) = serviceMonitorNegativeCacheUntil s"
  by (simp_all add: drift_event_def emit_def)

context quiet_cluster begin

lemma in_place_same:
  "same_plant p q \<Longrightarrow> in_place (rSetControllerReference r) p objs cs xs \<Longrightarrow> in_place (rSetControllerReference r) q objs cs xs"
  unfolding in_place_def by (erule list_all2_mono) (use mutate_settled in auto)

lemma Reconcile_arrives:
  assumes "Reconcile r req s = (Inr d, s')" "plants (world s) req = Some p" "cached (world s) req = Some p" "plant_key p = req"
    "active p" "keyed (objects (world s))"
  obtains q xs ys t1 t2 f where "plants (world s') req = Some q" "same_plant p q" "d = requeueIntervalFor q"
    "in_place (rSetControllerReference r) q (objects (world s')) (blank_children q) xs"
    "noticed monitors s' \<Longrightarrow> in_place (rSetControllerReference r) q (objects (world s')) [OServiceMonitor (ServiceMonitorFor q)] ys"
    "\<not> statusChanged (Status q) (rounded f (computeStatus (rSetStatusCondition r) p (deployment_of q xs) t1 t2))"
    "\<And>i. i \<notin> set (ids (required p (noticed monitors s'))) \<Longrightarrow> objects (world s') i = objects (world s) i"
    "monitors (world s') = monitors (world s)"
proof -
  obtain x w where g: "rdPlant (reader.truncate (rClient r)) req (world s) = (x, w)" by fastforce
  have x: "x = Inr p" "kept (world s) w" using get_cached [OF g] assms(3) by simp_all
  let ?s1 = "s\<lparr>world := w, calls := calls s @ [GetPlant req (Inr p)]\<rparr>"
  have f: "fetch r req s = (Inr p, ?s1)" using g x by (simp add: invoke_def)
  have w: "plants w req = Some p" "objects w = objects (world s)" "monitors w = monitors (world s)"
    using x(2) assms(2) by (simp_all add: still_def)
  obtain cr s2 where cr: "reconcileChildren r p ?s1 = (cr, s2)" by fastforce
  show thesis
  proof (cases cr)
    case (Inl e)
    from Reconcile_children_failed [OF f assms(5) cr [unfolded Inl]] assms(1) show ?thesis
      by (auto split: option.splits prod.splits)
  next
    case (Inr y)
    obtain dep fl where y: "y = (dep, fl)" by (cases y)
    note cr = cr [unfolded Inr y]
    have "keyed (objects (world ?s1))" using assms(6) w by simp
    from reconcileChildren_places [OF cr this] obtain xs ys where
      c: "in_place (rSetControllerReference r) p (objects (world s2)) (blank_children p) xs"
      "dep = deployment_of p xs"
      "noticed monitors s2 \<Longrightarrow> in_place (rSetControllerReference r) p (objects (world s2)) [OServiceMonitor (ServiceMonitorFor p)] ys"
      "plants (world s2) = plants w" "monitors (world s2) = monitors w"
      "\<And>i. i \<notin> set (ids (required p (noticed monitors s2))) \<Longrightarrow> objects (world s2) i = objects w i"
      by auto
    obtain st s3 where st: "reconcileStatus r p dep (drift_event p fl s2) = (st, s3)" by fastforce
    obtain p' where p': "st = Inr p'" "s3 = s'" "d = requeueIntervalFor p'"
      using assms(1) Reconcile_children_applied [OF f assms(5) cr] st by (cases st) auto
    have "plants (world (drift_event p fl s2)) (plant_key p) = Some p" using c(4) w(1) assms(4) by simp
    from reconcileStatus_stores [OF st [unfolded p'(1,2)] this] obtain q t1 t2 f where q:
      "plants (world s') req = Some q" "same_plant p q" "same_plant p p'"
      "\<not> statusChanged (Status q) (rounded f (computeStatus (rSetStatusCondition r) p dep t1 t2))"
      "objects (world s') = objects (world s2)" "monitors (world s') = monitors (world s2)"
      "serviceMonitorNegativeCacheUntil s' = serviceMonitorNegativeCacheUntil s2"
      using assms(4) by auto
    note b = same_plant_builders [OF q(2)]
    have n: "noticed monitors s' = noticed monitors s2" using q(6,7) by (simp add: noticed_def)
    show ?thesis
    proof (rule that [of q xs ys f t1 t2])
      show "in_place (rSetControllerReference r) q (objects (world s')) (blank_children q) xs"
        using in_place_same [OF q(2) c(1)] q(5) b by simp
      show "in_place (rSetControllerReference r) q (objects (world s')) [OServiceMonitor (ServiceMonitorFor q)] ys"
        if "noticed monitors s'"
        using in_place_same [OF q(2) c(3)] that n q(5) b by simp
      show "d = requeueIntervalFor q" using same_plant_requeue(1) [OF q(2)] same_plant_requeue(1) [OF q(3)] p'(3) by simp
      show "\<not> statusChanged (Status q) (rounded f (computeStatus (rSetStatusCondition r) p (deployment_of q xs) t1 t2))"
        using q(4) deployment_of_same [OF q(2)] c(2) by simp
      show "objects (world s') i = objects (world s) i" if "i \<notin> set (ids (required p (noticed monitors s')))" for i
        using c(6) that n q(5) w by simp
    qed (use q c w in simp_all)
  qed
qed

lemma Reconcile_settles:
  assumes "Reconcile r req s = (Inr d, s')" "plants (world s) req = Some p" "cached (world s) req = Some p" "plant_key p = req"
    "active p" "keyed (objects (world s))" "monitors (world s') \<longrightarrow> serviceMonitorNegativeCacheUntil s' = 0"
  shows "settled r plants objects monitors req d s'"
proof -
  from Reconcile_arrives [OF assms(1-6)] obtain q xs ys f t1 t2 where q: "plants (world s') req = Some q" "same_plant p q"
    "d = requeueIntervalFor q" "in_place (rSetControllerReference r) q (objects (world s')) (blank_children q) xs"
    "noticed monitors s' \<Longrightarrow> in_place (rSetControllerReference r) q (objects (world s')) [OServiceMonitor (ServiceMonitorFor q)] ys"
    "\<not> statusChanged (Status q) (rounded f (computeStatus (rSetStatusCondition r) p (deployment_of q xs) t1 t2))"
    by metis
  moreover have "active q" using same_plant_requeue(2) [OF q(2)] assms(5) by simp
  moreover have "monitors (world s') \<longrightarrow> in_place (rSetControllerReference r) q (objects (world s')) [OServiceMonitor (ServiceMonitorFor q)] ys"
    using calculation(5) assms(7) by (simp add: noticed_def)
  ultimately show ?thesis unfolding settled_def using assms(7) by blast
qed

lemma settled_still:
  "settled r plants objects monitors req d s \<Longrightarrow> kept (world s) w \<Longrightarrow> settled r plants objects monitors req d (s\<lparr>world := w\<rparr>)"
  unfolding settled_def still_def by simp

lemma Reconcile_settled:
  assumes "settled r plants objects monitors req d s" "cached (world s) req = plants (world s) req"
  shows "\<exists>s'. Reconcile r req s = (Inr d, s') \<and> hush s s' \<and> settled r plants objects monitors req d s'"
proof -
  obtain p q xs ys t1 t2 fr where a: "plants (world s) req = Some q" "same_plant p q" "active q" "d = requeueIntervalFor q"
    "in_place (rSetControllerReference r) q (objects (world s)) (blank_children q) xs"
    "monitors (world s) \<longrightarrow> in_place (rSetControllerReference r) q (objects (world s)) [OServiceMonitor (ServiceMonitorFor q)] ys"
    "monitors (world s) \<longrightarrow> serviceMonitorNegativeCacheUntil s = 0"
    "\<not> statusChanged (Status q) (rounded fr (computeStatus (rSetStatusCondition r) p (deployment_of q xs) t1 t2))"
    using assms(1) unfolding settled_def by blast
  obtain x w where g: "rdPlant (reader.truncate (rClient r)) req (world s) = (x, w)" by fastforce
  have x: "x = Inr q" "kept (world s) w" using get_cached [OF g] a(1) assms(2) by simp_all
  let ?s1 = "s\<lparr>world := w, calls := calls s @ [GetPlant req (Inr q)]\<rparr>"
  have f: "fetch r req s = (Inr q, ?s1)" using g x by (simp add: invoke_def)
  have h1: "hush s ?s1" using x(2) by (simp add: quiet_def)
  have w: "objects w = objects (world s)" "monitors w = monitors (world s)" using x(2) by (simp_all add: still_def)
  have "\<exists>s2. reconcileChildren r q ?s1 = (Inr (deployment_of q xs, False, False), s2) \<and> hush ?s1 s2 \<and>
    (monitors (world s2) \<longrightarrow> serviceMonitorNegativeCacheUntil s2 = 0)"
    by (rule reconcileChildren_in_place [where ys = ys]) (use a(5-7) w in simp_all)
  then obtain s2 where 2: "reconcileChildren r q ?s1 = (Inr (deployment_of q xs, False, False), s2)" "hush ?s1 s2"
    "monitors (world s2) \<longrightarrow> serviceMonitorNegativeCacheUntil s2 = 0" by blast
  obtain s3 where 3: "reconcileStatus r q (deployment_of q xs) s2 = (Inr q, s3)" "hush s2 s3"
    "serviceMonitorNegativeCacheUntil s3 = serviceMonitorNegativeCacheUntil s2"
    using reconcileStatus_settled [OF a(2,8)] by blast
  have R: "Reconcile r req s = (Inr d, s3)"
    using Reconcile_children_applied [OF f a(3) 2(1)] 3(1) a(4) by (simp add: drift_event_def)
  have h: "hush s s3" by (rule quiet_trans [OF quiet_trans [OF h1 2(2)] 3(2)])
  then have e: "plants (world s3) = plants (world s)" "objects (world s3) = objects (world s)" "monitors (world s3) = monitors (world s)"
    by (simp_all add: quiet_def still_def)
  have "monitors (world s2) = monitors (world s3)" using 3(2) by (simp add: quiet_def still_def)
  then have "settled r plants objects monitors req d s3"
    unfolding settled_def e using a(1-5,6,8) 2(3) 3(3) by (metis e(3))
  then show ?thesis using R h by blast
qed

text \<open>A Reconcile whose cache lags behind by a status still finds every child in place.\<close>

lemma Reconcile_stale:
  assumes "settled r plants objects monitors req d s" "plants (world s) req = Some q" "cached (world s) req = Some p0" "same_plant q p0"
  shows "\<exists>tr. calls (snd (Reconcile r req s)) = calls s @ tr \<and> filter child_write tr = []"
proof -
  obtain xs ys where a: "active q" "in_place (rSetControllerReference r) q (objects (world s)) (blank_children q) xs"
    "monitors (world s) \<longrightarrow> in_place (rSetControllerReference r) q (objects (world s)) [OServiceMonitor (ServiceMonitorFor q)] ys"
    "monitors (world s) \<longrightarrow> serviceMonitorNegativeCacheUntil s = 0"
    using assms(1,2) unfolding settled_def by auto
  obtain x w where g: "rdPlant (reader.truncate (rClient r)) req (world s) = (x, w)" by fastforce
  have x: "x = Inr p0" "kept (world s) w" using get_cached [OF g] assms(3) by simp_all
  let ?s1 = "s\<lparr>world := w, calls := calls s @ [GetPlant req (Inr p0)]\<rparr>"
  have f: "fetch r req s = (Inr p0, ?s1)" using g x by (simp add: invoke_def)
  have w: "objects w = objects (world s)" "monitors w = monitors (world s)" using x(2) by (simp_all add: still_def)
  note b = same_plant_builders [OF assms(4)] and act = same_plant_requeue(2) [OF assms(4)]
  have "\<exists>s2. reconcileChildren r p0 ?s1 = (Inr (deployment_of p0 xs, False, False), s2) \<and> hush ?s1 s2 \<and>
    (monitors (world s2) \<longrightarrow> serviceMonitorNegativeCacheUntil s2 = 0)"
    by (rule reconcileChildren_in_place [where ys = ys]) (use in_place_same [OF assms(4)] a w b in simp_all)
  then obtain s2 where 2: "reconcileChildren r p0 ?s1 = (Inr (deployment_of p0 xs, False, False), s2)" "hush ?s1 s2" by blast
  obtain st s3 where 3: "reconcileStatus r p0 (deployment_of p0 xs) s2 = (st, s3)" by fastforce
  obtain ns tr where t: "calls s3 = calls s2 @ tr" "status_run ns None tr" using reconcileStatus_cases [OF 3] by metis
  obtain tr0 where t0: "calls s2 = calls ?s1 @ tr0" "filter is_write tr0 = []" using 2(2) by (auto simp: quiet_def)
  have "snd (Reconcile r req s) = s3"
    using Reconcile_children_applied [OF f _ 2(1)] 3 act a(1) by (cases st) (simp_all add: drift_event_def)
  moreover have "filter child_write tr = []" using t(2)
    by (rule status_run_no_write)
  moreover have "filter child_write tr0 = []" using t0(2) by (auto simp: filter_empty_conv child_write_def)
  ultimately show ?thesis using t(1) t0(1) by (intro exI [of _ "GetPlant req (Inr p0) # tr0 @ tr"]) (simp add: child_write_def)
qed

lemma Reconcile_forever:
  "reconciled_again r (still plants objects monitors) (\<lambda>w. cached w req = plants w req) req s ds s' \<Longrightarrow>
     settled r plants objects monitors req d s \<Longrightarrow>
     settled r plants objects monitors req d s' \<and> hush s s' \<and> ds = replicate (length ds) (Inr d)"
proof (induction rule: reconciled_again.induct)
  case (again ds s1 w x s2)
  let ?s = "s1\<lparr>world := w\<rparr>"
  have i: "settled r plants objects monitors req d s1" "hush s s1" "ds = replicate (length ds) (Inr d)"
    using again.IH again.prems by simp_all
  have "settled r plants objects monitors req d ?s" by (rule settled_still [OF i(1) again.hyps(2)])
  moreover have "cached (world ?s) req = plants (world ?s) req" using again.hyps(3) by simp
  ultimately obtain s' where s': "Reconcile r req ?s = (Inr d, s')" "hush ?s s'" "settled r plants objects monitors req d s'"
    using Reconcile_settled by blast
  have "hush s1 ?s" using again.hyps(2) by (simp add: quiet_def)
  then have "hush s s'" using quiet_trans [OF i(2)] quiet_trans s'(2) by blast
  then show ?case using s' again.hyps(4) i(3) by (simp add: replicate_append_same) (metis replicate_append_same)
qed simp

end

section \<open>A server that assigns its own fields\<close>

definition stamp_meta :: "object_meta \<Rightarrow> object_meta" where
  "stamp_meta m = m\<lparr>mUID := ''5b1f'', mResourceVersion := ''41'', mGeneration := 1\<rparr>"

fun stamp :: "object \<Rightarrow> object" where
  "stamp (ODeployment d) = ODeployment (d\<lparr>dMeta := stamp_meta (dMeta d), dServer := ''strategy: RollingUpdate'',
     dPodSpec := (dPodSpec d)\<lparr>poServer := ''restartPolicy: Always'',
       poContainers := map (\<lambda>c. c\<lparr>coServer := ''terminationMessagePath: /dev/termination-log''\<rparr>) (poContainers (dPodSpec d))\<rparr>\<rparr>)"
| "stamp (OService v) = OService (v\<lparr>svMeta := stamp_meta (svMeta v), svServer := ''clusterIP: 10.0.0.7''\<rparr>)"
| "stamp (OConfigMap c) = OConfigMap (c\<lparr>cmMeta := stamp_meta (cmMeta c)\<rparr>)"
| "stamp (OPodDisruptionBudget b) = OPodDisruptionBudget (b\<lparr>pdbMeta := stamp_meta (pdbMeta b)\<rparr>)"
| "stamp (OServiceAccount a) = OServiceAccount (a\<lparr>saMeta := stamp_meta (saMeta a)\<rparr>)"
| "stamp (ONetworkPolicy n) = ONetworkPolicy (n\<lparr>npMeta := stamp_meta (npMeta n)\<rparr>)"
| "stamp (OServiceMonitor m) = OServiceMonitor (m\<lparr>smMeta := stamp_meta (smMeta m)\<rparr>)"

lemma same_intent_stamp: "same_intent x (stamp x)"
  by (cases x) (simp_all add: same_meta_def stamp_meta_def same_pod_def same_container_def list_all2_conv_all_nth)

definition stamping_reconciler :: "store reconciler" where
  "stamping_reconciler = store_reconciler\<lparr>rClient := store_client
     \<lparr>clCreate := (\<lambda>obj w. case storeObjects w (obj_kind obj, obj_key obj) of
          Some x \<Rightarrow> (Inl (OtherError ''already exists''), w)
        | None \<Rightarrow> (Inr (stamp obj), w\<lparr>storeObjects := (storeObjects w)((obj_kind obj, obj_key obj) \<mapsto> stamp obj)\<rparr>))\<rparr>\<rparr>"

lemma stamping_operator: "plant_operator stamping_reconciler (\<lambda>w. w)"
  by (simp add: plant_operator_def stamping_reconciler_def store_reconciler_def owner.controller_reference_axioms
      conditions.status_conditions_axioms retrying.conflict_retry_axioms)

interpretation quiet_stamping: quiet_cluster stamping_reconciler "\<lambda>w. w" storePlants storeObjects storeServiceMonitors storePlants
proof (rule quiet_cluster.intro [OF stamping_operator], unfold_locales)
qed (auto intro: exI [of _ "\<lambda>t. t"] simp: stamping_reconciler_def store_reconciler_def store_client_def still_def reader_of_def reader.truncate_def
    same_plant_def same_intent_stamp Let_def split: option.splits if_splits)

text \<open>The same server with times in whole seconds, behind a cache of the Plants that lags behind as it likes.\<close>

definition on_store :: "(store \<Rightarrow> 'a \<times> store) \<Rightarrow> store \<times> 'c \<Rightarrow> 'a \<times> store \<times> 'c" where
  "on_store f = (\<lambda>(w, c). case f w of (x, w') \<Rightarrow> (x, w', c))"

definition whole_seconds :: "int \<Rightarrow> int" where
  "whole_seconds t = t div 1000000000 * 1000000000"

definition lagging_reconciler :: "(store \<times> (key \<Rightarrow> plant option)) reconciler" where
  "lagging_reconciler = (let cl = rClient stamping_reconciler in
     \<lparr>rClient =
        \<lparr>rdPlant = (\<lambda>k (w, c). (case c k of Some p \<Rightarrow> Inr p | None \<Rightarrow> Inl (NotFound ''not found''), w, c)),
         rdObject = (\<lambda>kind k. on_store (rdObject cl kind k)), clCreate = (\<lambda>obj. on_store (clCreate cl obj)),
         clUpdate = (\<lambda>obj. on_store (clUpdate cl obj)),
         clUpdateStatus = (\<lambda>p. on_store (clUpdateStatus cl (p\<lparr>Status := rounded whole_seconds (Status p)\<rparr>))),
         clRESTMapping = on_store (clRESTMapping cl)\<rparr>,
      rAPIReader = Some \<lparr>rdPlant = (\<lambda>k. on_store (rdPlant cl k)), rdObject = (\<lambda>kind k. on_store (rdObject cl kind k))\<rparr>,
      rNow = on_store (rNow store_reconciler), rSetControllerReference = set_controller_reference,
      rSetStatusCondition = set_condition, rRetryOnConflict = attempts (\<lambda>w. w) 4\<rparr>)"

lemma rounded_some: "\<exists>g. rounded f st = rounded g st" by blast

lemma lagging_operator: "plant_operator lagging_reconciler (\<lambda>w. w)"
  by (simp add: plant_operator_def lagging_reconciler_def owner.controller_reference_axioms
      conditions.status_conditions_axioms retrying.conflict_retry_axioms Let_def)

interpretation quiet_lagging: quiet_cluster lagging_reconciler "\<lambda>w. w" "storePlants \<circ> fst" "storeObjects \<circ> fst"
  "storeServiceMonitors \<circ> fst" snd
proof (rule quiet_cluster.intro [OF lagging_operator], unfold_locales)
qed (auto simp: rounded_some lagging_reconciler_def stamping_reconciler_def store_reconciler_def store_client_def still_def reader_of_def
    reader.truncate_def on_store_def same_plant_def same_intent_stamp Let_def split: option.splits if_splits)

section \<open>Convergence\<close>

text \<open>C4: One successful Reconcile of a Plant that is neither being deleted nor refused for its
  name is enough. When nobody else changes what is stored, then every further Reconcile succeeds, asks to
  be run again after the same interval, writes nothing (no creation, no update, no status write), emits
  no event and leaves what is stored as it is, however many of them are run, however long they are apart,
  whatever the API server has added to the objects it stored and however it rounded the times, and whatever
  conflicts the first one met. Two provisos: each Reconcile fetches the Plant as it is stored, that is, the
  informer cache has caught up with the last status write; one that fetches an older status may write the
  status again, but still writes no child. And after the first Reconcile the operator does not remember
  the ServiceMonitor kind as missing when it is installed.\<close>

theorem reconcile_converges:
  assumes "quiet_cluster r pause plants objects monitors cached" "plants (world s) req = Some p" "cached (world s) req = Some p"
    "plant_key p = req" "active p" "keyed (objects (world s))"
    "Reconcile r req s = (Inr d, s1)" "monitors (world s1) \<longrightarrow> serviceMonitorNegativeCacheUntil s1 = 0"
    "reconciled_again r (still plants objects monitors) (\<lambda>w. cached w req = plants w req) req s1 ds s2"
  shows "ds = replicate (length ds) (Inr d) \<and> events s2 = events s1 \<and>
    (\<exists>tr. calls s2 = calls s1 @ tr \<and> filter is_write tr = []) \<and>
    plants (world s2) = plants (world s1) \<and> objects (world s2) = objects (world s1) \<and>
    (\<forall>w p0. still plants objects monitors (world s2) w \<longrightarrow> cached w req = Some p0 \<longrightarrow> same_plant (the (plants w req)) p0 \<longrightarrow>
       (\<exists>tr. calls (snd (Reconcile r req (s2\<lparr>world := w\<rparr>))) = calls s2 @ tr \<and> filter child_write tr = []))"
proof -
  note S = quiet_cluster.Reconcile_settles [OF assms(1,7,2-6,8)]
  note F = quiet_cluster.Reconcile_forever [OF assms(1,9) S]
  have stale: "\<exists>tr. calls (snd (Reconcile r req (s2\<lparr>world := w\<rparr>))) = calls s2 @ tr \<and> filter child_write tr = []"
    if w: "still plants objects monitors (world s2) w" "cached w req = Some p0" "same_plant (the (plants w req)) p0" for w p0
  proof -
    have s: "settled r plants objects monitors req d (s2\<lparr>world := w\<rparr>)"
      using quiet_cluster.settled_still [OF assms(1) _ w(1)] F by blast
    then obtain q where q: "plants w req = Some q" unfolding settled_def by auto
    show ?thesis using quiet_cluster.Reconcile_stale [OF assms(1) s, of q p0] q w(2,3) by simp
  qed
  have h: "quiet plants objects monitors s1 s2" "ds = replicate (length ds) (Inr d)" using F by blast+
  show ?thesis using h stale unfolding quiet_def still_def by blast
qed

theorem reconcile_converges_witness:
  "\<exists>d s1 s2. Reconcile store_reconciler demo_key (store_state [demo_plant] []) = (Inr d, s1) \<and>
     Reconcile store_reconciler demo_key s1 = (Inr d, s2) \<and>
     events s2 = events s1 \<and> storeObjects (world s2) = storeObjects (world s1)"
proof -
  let ?s = "store_state [demo_plant] []"
  obtain d s1 where R: "Reconcile store_reconciler demo_key ?s = (Inr d, s1)" using store_reconciles by blast
  have h: "storePlants (world ?s) demo_key = Some demo_plant" "plant_key demo_plant = demo_key"
    "keyed (storeObjects (world ?s))" "\<not> storeServiceMonitors (world ?s)"
    by (simp_all add: store_state_def demo_plant_def demo_key_def keyed_def)
  from quiet_store.Reconcile_arrives [OF R h(1,1,2) demo_active h(3)]
  have m: "\<not> storeServiceMonitors (world s1)" using h(4) by metis
  obtain x s2 where x: "Reconcile store_reconciler demo_key s1 = (x, s2)" by fastforce
  have "reconciled_again store_reconciler (still storePlants storeObjects storeServiceMonitors)
      (\<lambda>w. storePlants w demo_key = storePlants w demo_key) demo_key s1 ([] @ [x]) s2"
    by (rule reconciled_again.again [OF reconciled_again.start, where w = "world s1"]) (use x in simp_all)
  from reconcile_converges [OF quiet_store.quiet_cluster_axioms h(1,1,2) demo_active h(3) R _ this] m
  show ?thesis using R x by auto
qed

end
