(* ===== verification/WorkWindow.thy ===== *)
theory WorkWindow
  imports GoFloat "HOL-Library.Multiset"
begin

text \<open>
  \<^verbatim>\<open>internal/api/window.go\<close>: the ring buffer of the most recent 100
  \<^verbatim>\<open>/work\<close> observations and the statistics over it. The buffer is a list of fixed
  length updated in place; \<open>next_ix\<close> and \<open>cnt\<close> are the code's \<^verbatim>\<open>next\<close> and
  \<^verbatim>\<open>count\<close>, which never leave 0..100 (\<open>window_inv\<close>). The mutex makes each
  operation atomic, so an operation is one function of the state.
\<close>

section \<open>The buffer\<close>

definition workWindowSize :: nat where "workWindowSize = 100"

record workObservation =
  duration :: duration
  failed :: bool

record workWindow =
  buf :: "workObservation list"
  next_ix :: nat
  cnt :: nat

definition zero_observation :: workObservation where
  "zero_observation = \<lparr>duration = 0, failed = False\<rparr>"

text \<open>The zero value of the struct.\<close>

definition empty_window :: workWindow where
  "empty_window = \<lparr>buf = replicate workWindowSize zero_observation, next_ix = 0, cnt = 0\<rparr>"

definition observe :: "duration \<Rightarrow> bool \<Rightarrow> workWindow \<Rightarrow> workWindow" where
  "observe d f w =
     w\<lparr>buf := (buf w)[next_ix w := \<lparr>duration = d, failed = f\<rparr>],
       next_ix := (next_ix w + 1) mod workWindowSize,
       cnt := (if cnt w < workWindowSize then cnt w + 1 else cnt w)\<rparr>"

text \<open>
  \<^verbatim>\<open>int(math.Ceil(0.95*float64(n))) - 1\<close>, then the two range checks; 0.95 is the
  float64 nearest to it.
\<close>

definition p95_rank :: "nat \<Rightarrow> int" where
  "p95_rank n =
     (let r = int_of_f64 64 (fceil (fmul (f64_of_rat (19 / 20)) (f64_of_int (int n)))) - 1;
          r1 = (if r < 0 then 0 else r)
      in if int n - 1 < r1 then int n - 1 else r1)"

definition stats :: "workWindow \<Rightarrow> f64 \<times> duration \<times> nat" where
  "stats w =
     (let n = cnt w; valid = take n (buf w);
          durations = map duration valid; failures = length (filter failed valid)
      in if n = 0 then (Fin 0, 0, 0)
         else (let sample = sort_key sint durations in
           (fdiv (f64_of_int (int failures)) (f64_of_int (int n)), sample ! nat (p95_rank n), n)))"

section \<open>A log of bounded length\<close>

text \<open>The last \<open>n\<close> elements of a list.\<close>

definition lastn :: "nat \<Rightarrow> 'a list \<Rightarrow> 'a list" where
  "lastn n xs = drop (length xs - n) xs"

lemma length_lastn [simp]: "length (lastn n xs) = min n (length xs)"
  by (simp add: lastn_def)

lemma lastn_Nil [simp]: "lastn n [] = []"
  by (simp add: lastn_def)

lemma lastn_short: "length xs \<le> n \<Longrightarrow> lastn n xs = xs"
  by (simp add: lastn_def)

lemma lastn_snoc_full: "length xs = n \<Longrightarrow> 0 < n \<Longrightarrow> lastn n (xs @ [x]) = tl xs @ [x]"
  by (cases xs) (simp_all add: lastn_def)

lemma lastn_lastn_snoc: "lastn n (lastn n xs @ [x]) = lastn n (xs @ [x])"
  by (cases "length xs \<le> n") (auto simp: lastn_def Suc_diff_le)

text \<open>
  The contract the statistics rely on: a container with an invariant, whose contents are
  the observations made so far, the oldest first, cut to the last \<open>cap\<close>.
\<close>

locale bounded_log =
  fixes empty :: 'w and obs :: "'a \<Rightarrow> 'w \<Rightarrow> 'w" and contents :: "'w \<Rightarrow> 'a list"
    and inv :: "'w \<Rightarrow> bool" and cap :: nat
  assumes inv_empty: "inv empty"
    and inv_obs: "inv w \<Longrightarrow> inv (obs x w)"
    and contents_empty: "contents empty = []"
    and contents_obs: "inv w \<Longrightarrow> contents (obs x w) = lastn cap (contents w @ [x])"
begin

lemma run_inv: "inv (fold obs xs empty)"
  by (induction xs rule: rev_induct) (simp_all add: inv_empty inv_obs)

lemma run_contents: "contents (fold obs xs empty) = lastn cap xs"
  by (induction xs rule: rev_induct)
    (simp_all add: contents_empty contents_obs run_inv lastn_lastn_snoc)

lemma run_suffix: "cap \<le> length ys \<Longrightarrow> contents (fold obs (xs @ ys) empty) = contents (fold obs ys empty)"
  by (simp only: run_contents) (simp add: lastn_def)

end

section \<open>The ring buffer is a bounded log\<close>

definition window_inv :: "workWindow \<Rightarrow> bool" where
  "window_inv w \<longleftrightarrow> length (buf w) = workWindowSize \<and> next_ix w < workWindowSize \<and>
     cnt w \<le> workWindowSize \<and> (cnt w < workWindowSize \<longrightarrow> next_ix w = cnt w)"

text \<open>The live observations, the oldest first.\<close>

definition window_contents :: "workWindow \<Rightarrow> workObservation list" where
  "window_contents w =
     (if cnt w < workWindowSize then take (cnt w) (buf w)
      else drop (next_ix w) (buf w) @ take (next_ix w) (buf w))"

definition observe_obs :: "workObservation \<Rightarrow> workWindow \<Rightarrow> workWindow" where
  "observe_obs x = observe (duration x) (failed x)"

lemma window_inv_empty: "window_inv empty_window"
  by (simp add: window_inv_def empty_window_def workWindowSize_def)

lemma window_inv_observe: "window_inv w \<Longrightarrow> window_inv (observe d f w)"
  by (auto simp: window_inv_def observe_def workWindowSize_def mod_Suc)

lemma ring_step:
  assumes "i < length xs"
  shows "drop (Suc i mod length xs) (xs[i := x]) @ take (Suc i mod length xs) (xs[i := x])
         = tl (drop i xs @ take i xs) @ [x]"
proof (cases "Suc i = length xs")
  case True
  then have "drop i xs = [xs ! i]" using Cons_nth_drop_Suc [OF assms] by simp
  with True show ?thesis by (simp add: take_Suc_conv_app_nth list_update_same_conv upd_conv_take_nth_drop)
next
  case False
  with assms have "Suc i < length xs" by simp
  moreover have "drop i xs = xs ! i # drop (Suc i) xs" using assms by (simp add: Cons_nth_drop_Suc)
  ultimately show ?thesis using assms by (simp add: take_Suc_conv_app_nth)
qed

lemma window_contents_observe:
  assumes "window_inv w"
  shows "window_contents (observe d f w) =
         lastn workWindowSize (window_contents w @ [\<lparr>duration = d, failed = f\<rparr>])"
proof -
  let ?x = "\<lparr>duration = d, failed = f\<rparr>"
  have i: "next_ix w < length (buf w)" "length (buf w) = workWindowSize" "0 < workWindowSize"
    using assms by (simp_all add: window_inv_def workWindowSize_def)
  consider "Suc (cnt w) < workWindowSize" | "Suc (cnt w) = workWindowSize" | "cnt w = workWindowSize"
    using assms by (fastforce simp: window_inv_def)
  then show ?thesis
  proof cases
    case 1
    then have "next_ix w = cnt w" using assms by (simp add: window_inv_def)
    with 1 i show ?thesis
      by (simp add: window_contents_def observe_def lastn_short take_Suc_conv_app_nth)
  next
    case 2
    then have "next_ix w = cnt w" using assms by (simp add: window_inv_def)
    with 2 i show ?thesis
      by (simp add: window_contents_def observe_def lastn_short upd_conv_take_nth_drop)
  next
    case 3
    then have "window_contents (observe d f w) = tl (window_contents w) @ [?x]"
      using ring_step [OF i(1), of ?x] i by (simp add: window_contents_def observe_def)
    moreover have "length (window_contents w) = workWindowSize"
      using 3 i by (simp add: window_contents_def)
    ultimately show ?thesis using i by (simp add: lastn_snoc_full)
  qed
qed

interpretation ring: bounded_log empty_window observe_obs window_contents window_inv workWindowSize
proof
  show "window_inv empty_window" by (rule window_inv_empty)
  show "window_inv (observe_obs x w)" if "window_inv w" for x w
    using that by (simp add: observe_obs_def window_inv_observe)
  show "window_contents empty_window = []" by (simp add: window_contents_def empty_window_def workWindowSize_def)
  show "window_contents (observe_obs x w) = lastn workWindowSize (window_contents w @ [x])"
    if "window_inv w" for x w
    using window_contents_observe [OF that, of "duration x" "failed x"]
    by (cases x) (simp add: observe_obs_def)
qed

section \<open>The statistics of a window\<close>

lemma f64_095: "f64_of_rat (19 / 20) = Fin (4278419646001971 / 4503599627370496)"
  by (simp add: f64_defs f64_eval)

text \<open>Rounding to float64 does not move a value past the integer above it, nor down to the one below.\<close>

lemma ceiling_rnd:
  assumes "1 \<le> k" "k \<le> 2 ^ 40" "of_int (32 * k - 31) / 32 \<le> x" "x \<le> of_int k"
  shows "\<lceil>rnd x\<rceil> = k"
proof -
  let ?y = "of_int (32 * k - 31) / 32 :: rat"
  have "of_int (32 * k - 31) \<le> (of_int (32 * 2 ^ 40) :: rat)" using assms(2) by (subst of_int_le_iff) simp
  then have y: "0 < ?y" "?y < 2 powi 41"
    using assms(1) by (simp_all del: of_int_diff of_int_mult)
  then have "expo ?y < 41" using expo_bounds(1) [OF y(1)] powi_le_imp [of "expo ?y" 41] by linarith
  then have e: "max (expo ?y - 52) (- 1074) \<le> - 5" by simp
  let ?e = "max (expo ?y - 52) (- 1074)"
  have "?y = of_int ((32 * k - 31) * 2 ^ nat (- 5 - ?e)) * 2 powi ?e"
  proof -
    have "(2 :: rat) ^ nat (- 5 - ?e) * 2 powi ?e = 2 powi (- 5)"
      using e by (simp flip: power_int_of_nat power_int_add)
    moreover have "?y = of_int (32 * k - 31) * 2 powi (- 5)"
      by (simp add: power_int_def power_one_over)
    ultimately show ?thesis by (simp only: of_int_mult of_int_power of_int_numeral mult.assoc)
  qed
  then have "rnd ?y = ?y" using y(1) by (intro rnd_exact) (simp only: ulp_def abs_of_pos)
  then have "?y \<le> rnd x" using rnd_mono [OF assms(3)] by simp
  moreover have "rnd x \<le> of_int k"
    using rnd_mono [OF assms(4)] rnd_of_int [of k] assms(1,2) by simp
  ultimately show ?thesis by (intro ceiling_unique) (simp_all add: field_simps)
qed

text \<open>The float64 rank is the nearest rank of the 95th percentile, \<open>\<lceil>19 n / 20\<rceil>\<close>.\<close>

lemma p95_rank_exact: "1 \<le> n \<Longrightarrow> n \<le> 100 \<Longrightarrow> p95_rank n = int ((19 * n + 19) div 20) - 1"
proof -
  assume n: "1 \<le> n" "n \<le> 100"
  let ?k = "int ((19 * n + 19) div 20)"
  have i: "f64_of_int (int n) = Fin (of_int (int n))" using n by (intro f64_of_int_exact) simp
  let ?x = "4278419646001971 / 4503599627370496 * of_int (int n) :: rat"
  have k: "1 \<le> ?k" "?k \<le> int n" using n by linarith+
  then have k40: "?k \<le> 2 ^ 40" using n by simp
  have "19 * int n \<le> 20 * ?k" "20 * ?k \<le> 19 * int n + 19" by linarith+
  then have "of_int (19 * int n) \<le> (of_int (20 * ?k) :: rat)" "of_int (20 * ?k) \<le> (of_int (19 * int n + 19) :: rat)"
    "of_int (int n) \<le> (of_int 100 :: rat)" "(of_int 0 :: rat) \<le> of_int (int n)"
    unfolding of_int_le_iff using n by linarith+
  then have x: "of_int (32 * ?k - 31) / 32 \<le> ?x" "?x \<le> of_int ?k" "0 \<le> ?x" "?x \<le> 100"
    unfolding of_int_diff of_int_mult of_int_add by (simp_all add: field_simps)
  have "?x \<le> 2 ^ 1000" using order_trans [OF x(4), of "2 ^ 7"] power_increasing [of 7 1000 "2 :: rat"] by simp
  then have "fmul (Fin (4278419646001971 / 4503599627370496)) (Fin (of_int (int n))) = Fin (rnd ?x)"
    using x(3) by (simp add: f64_of_rat_small)
  moreover have "\<lceil>rnd ?x\<rceil> = ?k" by (rule ceiling_rnd [OF k(1) k40 x(1,2)])
  moreover have "?k < 2 ^ 63" using k40 by simp
  moreover have "trunc (of_int ?k) = ?k" by (rule trunc_of_int)
  ultimately show ?thesis using k by (simp add: p95_rank_def f64_095 i Let_def)
qed

text \<open>The statistics of a list of observations.\<close>

definition stats_of :: "workObservation list \<Rightarrow> f64 \<times> duration \<times> nat" where
  "stats_of xs =
     (if xs = [] then (Fin 0, 0, 0)
      else (fdiv (f64_of_int (int (length (filter failed xs)))) (f64_of_int (int (length xs))),
            sort_key sint (map duration xs) ! nat (p95_rank (length xs)), length xs))"

lemma sort_key_sint_cong:
  assumes "mset xs = mset ys" shows "sort_key sint xs = sort_key sint (ys :: 'a::len word list)"
  using assms by (intro sort_key_inj_key_eq) (auto simp: inj_on_def intro: signed_word_eqI)

lemma stats_of_mset:
  assumes "mset xs = mset ys" shows "stats_of xs = stats_of ys"
proof -
  have "length xs = length ys" "xs = [] \<longleftrightarrow> ys = []" using assms by (metis size_mset, metis mset_zero_iff)
  moreover have "length (filter failed xs) = length (filter failed ys)"
    using assms by (metis mset_filter size_mset)
  moreover have "sort_key sint (map duration xs) = sort_key sint (map duration ys)"
    using assms by (intro sort_key_sint_cong) simp
  ultimately show ?thesis by (simp add: stats_of_def)
qed

lemma mset_window_contents:
  "window_inv w \<Longrightarrow> mset (window_contents w) = mset (take (cnt w) (buf w))"
proof (cases "cnt w < workWindowSize")
  case False
  assume "window_inv w"
  with False have "cnt w = length (buf w)" by (simp add: window_inv_def)
  moreover have "mset (drop i xs @ take i xs) = mset xs" for i :: nat and xs :: "workObservation list"
    by (metis append_take_drop_id mset_append union_commute)
  ultimately show ?thesis using False by (simp add: window_contents_def del: mset_append)
qed (simp add: window_contents_def)

lemma stats_window:
  assumes "window_inv w" shows "stats w = stats_of (window_contents w)"
proof -
  have c: "length (take (cnt w) (buf w)) = cnt w" using assms by (simp add: window_inv_def)
  then have "stats w = stats_of (take (cnt w) (buf w))"
    by (auto simp: stats_def stats_of_def Let_def simp flip: take_map)
  then show ?thesis using mset_window_contents [OF assms] stats_of_mset by metis
qed

section \<open>The statistics are those of the last hundred requests\<close>

lemma stats_of_run: "stats (fold observe_obs xs empty_window) = stats_of (lastn workWindowSize xs)"
  by (simp add: stats_window ring.run_inv ring.run_contents)

lemma sorted_take_le:
  "sorted xs \<Longrightarrow> k < length xs \<Longrightarrow> Suc k \<le> length (filter (\<lambda>x. x \<le> xs ! k) xs)"
  for xs :: "int list"
proof -
  assume s: "sorted xs" "k < length xs"
  have "\<forall>x \<in> set (take (Suc k) xs). x \<le> xs ! k"
    using s by (auto simp: in_set_conv_nth sorted_iff_nth_mono)
  then have "filter (\<lambda>x. x \<le> xs ! k) (take (Suc k) xs) = take (Suc k) xs" by simp
  then have "Suc k \<le> length (filter (\<lambda>x. x \<le> xs ! k) (take (Suc k) xs))" using s by simp
  also have "\<dots> \<le> length (filter (\<lambda>x. x \<le> xs ! k) (take (Suc k) xs @ drop (Suc k) xs))"
    unfolding filter_append by simp
  finally show ?thesis by simp
qed

lemma sorted_take_less:
  "sorted xs \<Longrightarrow> k < length xs \<Longrightarrow> length (filter (\<lambda>x. x < xs ! k) xs) \<le> k"
  for xs :: "int list"
proof -
  assume s: "sorted xs" "k < length xs"
  have "\<forall>x \<in> set (drop k xs). \<not> x < xs ! k"
    using s by (auto simp: in_set_conv_nth sorted_iff_nth_mono not_less)
  then have "filter (\<lambda>x. x < xs ! k) (drop k xs) = []" by simp
  then have "length (filter (\<lambda>x. x < xs ! k) (take k xs @ drop k xs)) = length (filter (\<lambda>x. x < xs ! k) (take k xs))"
    unfolding filter_append by simp
  also have "\<dots> \<le> length (take k xs)" by (rule length_filter_le)
  also have "\<dots> \<le> k" by simp
  finally show ?thesis by simp
qed

lemma length_filter_map: "length (filter P (map f xs)) = length (filter (\<lambda>x. P (f x)) xs)"
  by (induction xs) simp_all

lemma length_filter_sort_key: "length (filter P (sort_key f xs)) = length (filter P xs)"
  by (metis mset_filter mset_sort size_mset)

lemma p95_index:
  assumes "1 \<le> n" defines "k \<equiv> (19 * n + 19) div 20 - 1"
  shows "k < n" "19 * n \<le> 20 * Suc k" "20 * k < 19 * (n :: nat)"
proof -
  define q r where "q = (19 * n + 19) div 20" and "r = (19 * n + 19) mod 20"
  have q: "19 * n + 19 = 20 * q + r" "r < 20" by (simp_all add: q_def r_def)
  with assms(1) have "1 \<le> q" by (cases q) simp_all
  then have k: "q = Suc k" by (simp add: k_def q_def)
  show "k < n" "19 * n \<le> 20 * Suc k" "20 * k < 19 * n" using q k assms(1) by simp_all
qed

lemma stats_of_p95:
  assumes "xs \<noteq> []" "length xs \<le> 100"
  defines "v \<equiv> fst (snd (stats_of xs))"
  shows "v \<in> duration ` set xs"
    "19 * length xs \<le> 20 * length (filter (\<lambda>x. sle (duration x) v) xs)"
    "20 * length (filter (\<lambda>x. slt (duration x) v) xs) < 19 * length xs"
proof -
  let ?n = "length xs" and ?s = "sort_key sint (map duration xs)"
  define k where "k = (19 * ?n + 19) div 20 - 1"
  have n: "1 \<le> ?n" using assms(1) by (cases xs) simp_all
  then have r: "nat (p95_rank ?n) = k" using p95_rank_exact [OF n assms(2)] by (simp add: k_def nat_diff_distrib)
  have k: "k < ?n" "19 * ?n \<le> 20 * Suc k" "20 * k < 19 * ?n"
    using p95_index [OF n] by (simp_all only: k_def)
  have v: "v = ?s ! k" using assms(1) r by (simp add: v_def stats_of_def)
  then have "v \<in> set ?s" using k(1) by (metis length_map length_sort nth_mem)
  then show "v \<in> duration ` set xs" by simp
  have s: "sorted (map sint ?s)" "k < length (map sint ?s)" using k(1) by simp_all
  have c: "length (filter (\<lambda>y. P (sint y)) (map duration xs)) = length (filter P (map sint ?s))" for P
    by (simp only: length_filter_map length_filter_sort_key)
  have le: "Suc k \<le> length (filter (\<lambda>x. sle (duration x) v) xs)"
    using sorted_take_le [OF s] c [of "\<lambda>z. z \<le> sint v"] s(2) by (simp add: v length_filter_map o_def)
  have ls: "length (filter (\<lambda>x. slt (duration x) v) xs) \<le> k"
    using sorted_take_less [OF s] c [of "\<lambda>z. z < sint v"] s(2) by (simp add: v length_filter_map o_def)
  show "19 * ?n \<le> 20 * length (filter (\<lambda>x. sle (duration x) v) xs)"
    by (rule order_trans [OF k(2) mult_le_mono2 [OF le]])
  show "20 * length (filter (\<lambda>x. slt (duration x) v) xs) < 19 * ?n"
    by (rule le_less_trans [OF mult_le_mono2 [OF ls] k(3)])
qed

section \<open>Correctness of the window\<close>

lemma rnd_unit: "0 \<le> x \<Longrightarrow> x \<le> 1 \<Longrightarrow> \<exists>r. f64_of_rat x = Fin r \<and> 0 \<le> r \<and> r \<le> 1"
proof -
  assume x: "0 \<le> x" "x \<le> 1"
  have "(1 :: rat) \<le> 2 ^ 1000" by (rule one_le_power) simp
  with x have "\<bar>x\<bar> \<le> 2 ^ 1000" by (simp only: abs_of_nonneg order_trans [of x 1])
  then have "f64_of_rat x = Fin (rnd x)" by (rule f64_of_rat_small)
  moreover have "0 \<le> rnd x" "rnd x \<le> 1"
    using rnd_nonneg [OF x(1)] rnd_le_pow2 [of x 0] x by simp_all
  ultimately show ?thesis by blast
qed

lemma stats_of_error_rate:
  assumes "length xs \<le> 100"
  shows "\<exists>e. fst (stats_of xs) = Fin e \<and> 0 \<le> e \<and> e \<le> 1"
proof (cases "xs = []")
  case False
  let ?f = "length (filter failed xs)" and ?n = "length xs"
  have f: "?f \<le> ?n" by (rule length_filter_le)
  have b: "\<bar>int ?f\<bar> \<le> 2 ^ 53" "\<bar>int ?n\<bar> \<le> 2 ^ 53" using order_trans [OF f assms] assms by simp_all
  have n: "(of_nat ?n :: rat) \<noteq> 0" using False by simp
  have "fst (stats_of xs) = f64_of_rat (of_nat ?f / of_nat ?n)"
    using False n f64_of_int_exact [OF b(1)] f64_of_int_exact [OF b(2)] by (simp add: stats_of_def)
  moreover have "(of_nat ?f / of_nat ?n :: rat) \<le> 1" using f n by (simp add: divide_le_eq)
  ultimately show ?thesis using rnd_unit [of "of_nat ?f / of_nat ?n"] by simp
qed (simp add: stats_of_def)

text \<open>C3: The ring buffer implements a rolling log: after any sequence of
  requests on a fresh process the statistics are exactly those of the last 100 requests,
  whatever came before them, and the buffer still has its 100 slots with the write position
  inside it.\<close>

theorem window_refines:
  "stats (fold observe_obs xs empty_window) = stats_of (lastn 100 xs) \<and>
   window_contents (fold observe_obs xs empty_window) = lastn 100 xs \<and>
   length (buf (fold observe_obs xs empty_window)) = 100 \<and>
   next_ix (fold observe_obs xs empty_window) < 100"
  using stats_of_run [of xs] ring.run_contents [of xs] ring.run_inv [of xs]
  by (simp add: workWindowSize_def window_inv_def)

text \<open>In a window that holds at least one request, the reported latency is
  one that a request really took, at least 95 percent of the requests took no longer, and
  fewer than 95 percent were strictly faster; the float64 computation of the rank does not
  disturb this for any window size.\<close>

theorem p95_nearest_rank:
  assumes "xs \<noteq> []" and "(e, v, n) = stats (fold observe_obs xs empty_window)"
  shows "v \<in> duration ` set (lastn 100 xs) \<and>
    19 * n \<le> 20 * length (filter (\<lambda>x. sle (duration x) v) (lastn 100 xs)) \<and>
    20 * length (filter (\<lambda>x. slt (duration x) v) (lastn 100 xs)) < 19 * n"
proof -
  let ?l = "lastn 100 xs"
  have l: "?l \<noteq> []" "length ?l \<le> 100" using assms(1) by (simp_all flip: length_greater_0_conv)
  have s: "(e, v, n) = stats_of ?l" using assms(2) stats_of_run [of xs] by (simp add: workWindowSize_def)
  have "v = fst (snd (stats_of ?l))" by (simp flip: s)
  moreover have "n = length ?l" using s l(1) by (simp add: stats_of_def)
  ultimately show ?thesis using stats_of_p95 [OF l] by simp
qed

theorem p95_nearest_rank_witness:
  "snd (stats (fold observe_obs [\<lparr>duration = 7, failed = False\<rparr>] empty_window)) = (7, 1) \<and>
   (7 :: duration) \<in> duration ` set (lastn 100 [\<lparr>duration = 7, failed = False\<rparr>])"
proof -
  let ?xs = "[\<lparr>duration = 7, failed = False\<rparr>]"
  have r: "nat (p95_rank 1) = 0" using p95_rank_exact [of 1] by simp
  have "stats (fold observe_obs ?xs empty_window) = stats_of ?xs"
    using stats_of_run [of ?xs] by (simp add: lastn_def workWindowSize_def)
  also have "\<dots> = (fst (stats_of ?xs), 7, 1)" using r by (simp add: stats_of_def)
  finally have s: "stats (fold observe_obs ?xs empty_window) = (fst (stats_of ?xs), 7, 1)" .
  then show ?thesis using p95_nearest_rank [OF _ s [symmetric]] by simp
qed

text \<open>The error rate the window reports is always a finite number between 0
  and 1, never NaN, and an empty window reports no errors, no latency and no requests.\<close>

theorem error_rate_unit:
  "(\<exists>e. fst (stats (fold observe_obs xs empty_window)) = Fin e \<and> 0 \<le> e \<and> e \<le> 1) \<and>
   stats empty_window = (Fin 0, 0, 0)"
  using stats_of_run [of xs] stats_of_error_rate [of "lastn 100 xs"]
  by (simp add: workWindowSize_def stats_def empty_window_def)

end
