(* ===== verification/Telemetry.thy ===== *)
theory Telemetry
  imports Mood
begin

text \<open>
  \<^verbatim>\<open>internal/telemetry/metrics.go\<close>: the metrics contract of the workload.

  The Prometheus client library is not part of the repository. What the code calls of it is
  the record \<open>prom\<close> of operations on a registry of any type \<open>'m\<close>: creating the
  series of a label combination (\<open>touch\<close>, which is \<^verbatim>\<open>WithLabelValues\<close>, or the
  registration of an unlabelled metric), setting a gauge, incrementing a counter, observing a
  value in a histogram, and reading the exposition (\<open>series\<close>; for a histogram its
  count). The locale \<open>prometheus\<close> states the documented behaviour the code relies on.
\<close>

section \<open>The interface of the Prometheus client\<close>

record 'm prom =
  touch :: "string \<Rightarrow> string list \<Rightarrow> 'm \<Rightarrow> 'm"
  gauge_set :: "string \<Rightarrow> string list \<Rightarrow> f64 \<Rightarrow> 'm \<Rightarrow> 'm"
  counter_inc :: "string \<Rightarrow> string list \<Rightarrow> 'm \<Rightarrow> 'm"
  hist_observe :: "string \<Rightarrow> string list \<Rightarrow> f64 \<Rightarrow> 'm \<Rightarrow> 'm"
  series :: "'m \<Rightarrow> string \<Rightarrow> string list \<Rightarrow> f64 option"

locale prometheus =
  fixes P :: "'m prom"
  assumes series_touch:
      "series P (touch P n ls m) k js =
        (if k = n \<and> js = ls \<and> series P m n ls = None then Some (Fin 0) else series P m k js)"
    and series_set:
      "series P (gauge_set P n ls v m) k js = (if k = n \<and> js = ls then Some v else series P m k js)"
    and series_inc:
      "series P (counter_inc P n ls m) k js =
        (if k = n \<and> js = ls
         then Some (case series P m n ls of None \<Rightarrow> Fin 1 | Some v \<Rightarrow> fadd v (Fin 1))
         else series P m k js)"
    and series_observe:
      "series P (hist_observe P n ls v m) k js =
        (if k = n \<and> js = ls
         then Some (case series P m n ls of None \<Rightarrow> Fin 1 | Some c \<Rightarrow> fadd c (Fin 1))
         else series P m k js)"

section \<open>The metrics of buddy-api\<close>

definition OutcomeSuccess :: string where "OutcomeSuccess = ''success''"
definition OutcomeWarning :: string where "OutcomeWarning = ''warning''"
definition OutcomeFailure :: string where "OutcomeFailure = ''failure''"

lemmas outcome_defs = OutcomeSuccess_def OutcomeWarning_def OutcomeFailure_def

definition Outcomes :: "string list" where
  "Outcomes = [OutcomeSuccess, OutcomeWarning, OutcomeFailure]"

abbreviation health_score_metric :: string where "health_score_metric \<equiv> ''buddy_health_score''"
abbreviation mood_metric :: string where "mood_metric \<equiv> ''buddy_mood''"
abbreviation ready_metric :: string where "ready_metric \<equiv> ''buddy_ready''"
abbreviation work_requests_metric :: string where "work_requests_metric \<equiv> ''buddy_work_requests_total''"
abbreviation work_duration_metric :: string where "work_duration_metric \<equiv> ''buddy_work_duration_seconds''"
abbreviation http_requests_metric :: string where "http_requests_metric \<equiv> ''buddy_http_requests_total''"
abbreviation build_info_metric :: string where "build_info_metric \<equiv> ''buddy_build_info''"

record build_info =
  bVersion :: string
  bCommit :: string
  bGoVersion :: string

text \<open>
  Registration makes the two plain gauges exported (at 0); a vector exports nothing until a
  label combination is asked for, which the loop over the outcomes does.
\<close>

definition NewMetrics :: "'m prom \<Rightarrow> build_info \<Rightarrow> 'm \<Rightarrow> 'm" where
  "NewMetrics P bi reg =
     (let m0 = touch P ready_metric [] (touch P health_score_metric [] reg);
          m1 = fold (\<lambda>outcome m. touch P work_duration_metric [outcome]
                                   (touch P work_requests_metric [outcome] m)) Outcomes m0
      in gauge_set P build_info_metric [bVersion bi, bCommit bi, bGoVersion bi] (Fin 1) m1)"

text \<open>\<^verbatim>\<open>time.Duration.Seconds\<close>: whole seconds plus the rest over 1e9, in float64.\<close>

definition duration_seconds :: "duration \<Rightarrow> f64" where
  "duration_seconds d =
     (let n = sint d; q = sgn n * (\<bar>n\<bar> div 1000000000); r = sgn n * (\<bar>n\<bar> mod 1000000000)
      in fadd (f64_of_int q) (fdiv (f64_of_int r) (f64_of_int 1000000000)))"

definition ObserveWork :: "'m prom \<Rightarrow> string \<Rightarrow> duration \<Rightarrow> 'm \<Rightarrow> 'm" where
  "ObserveWork P outcome d m =
     hist_observe P work_duration_metric [outcome] (duration_seconds d)
       (counter_inc P work_requests_metric [outcome] m)"

definition ObserveHTTP :: "'m prom \<Rightarrow> string \<Rightarrow> string \<Rightarrow> nat \<Rightarrow> 'm \<Rightarrow> 'm" where
  "ObserveHTTP P path method code m =
     counter_inc P http_requests_metric [path, method, itoa (int code)] m"

definition SetHealth :: "'m prom \<Rightarrow> f64 \<Rightarrow> mood \<Rightarrow> bool \<Rightarrow> 'm \<Rightarrow> 'm" where
  "SetHealth P score active ready m =
     (let m1 = gauge_set P health_score_metric [] score m;
          m2 = gauge_set P ready_metric [] (if ready then Fin 1 else Fin 0) m1
      in fold (\<lambda>candidate. gauge_set P mood_metric [candidate]
                 (if candidate = active then Fin 1 else Fin 0)) AllMoods m2)"

section \<open>What a call leaves in the exposition\<close>

context prometheus begin

lemma series_mood_fold:
  "series P (fold (\<lambda>c. gauge_set P mood_metric [c] (v c)) cs m) k js =
     (if k = mood_metric \<and> (\<exists>c \<in> set cs. js = [c]) then Some (v (hd js)) else series P m k js)"
  by (induction cs arbitrary: m) (auto simp: series_set)

lemma series_SetHealth:
  "series P (SetHealth P score active ready m) k js =
     (if k = mood_metric \<and> (\<exists>c \<in> set AllMoods. js = [c])
      then Some (if hd js = active then Fin 1 else Fin 0)
      else if k = ready_metric \<and> js = [] then Some (if ready then Fin 1 else Fin 0)
      else if k = health_score_metric \<and> js = [] then Some score
      else series P m k js)"
  unfolding SetHealth_def Let_def by (auto simp: series_mood_fold series_set)

lemma series_ObserveHTTP:
  "series P (ObserveHTTP P path method code m) k js =
     (if k = http_requests_metric \<and> js = [path, method, itoa (int code)]
      then Some (case series P m k js of None \<Rightarrow> Fin 1 | Some v \<Rightarrow> fadd v (Fin 1))
      else series P m k js)"
  by (simp add: ObserveHTTP_def series_inc)

lemma series_ObserveWork:
  "series P (ObserveWork P outcome d m) k js =
     (if (k = work_requests_metric \<or> k = work_duration_metric) \<and> js = [outcome]
      then Some (case series P m k js of None \<Rightarrow> Fin 1 | Some v \<Rightarrow> fadd v (Fin 1))
      else series P m k js)"
  by (auto simp: ObserveWork_def series_inc series_observe)

lemma series_touch_fold:
  "series P (fold (\<lambda>c m. touch P w [c] (touch P r [c] m)) cs m) k js = None \<longleftrightarrow>
     series P m k js = None \<and> \<not> ((k = w \<or> k = r) \<and> (\<exists>c \<in> set cs. js = [c]))"
  by (induction cs arbitrary: m) (auto simp: series_touch)

end

text \<open>A registry as a finite map from metric and label values to the exported value.\<close>

type_synonym registry = "string \<Rightarrow> string list \<Rightarrow> f64 option"

definition map_prom :: "registry prom" where
  "map_prom =
     \<lparr>touch = (\<lambda>n ls m. m(n := (m n)(ls := (case m n ls of None \<Rightarrow> Some (Fin 0) | Some v \<Rightarrow> Some v)))),
      gauge_set = (\<lambda>n ls v m. m(n := (m n)(ls := Some v))),
      counter_inc = (\<lambda>n ls m. m(n := (m n)(ls := Some (case m n ls of None \<Rightarrow> Fin 1 | Some v \<Rightarrow> fadd v (Fin 1))))),
      hist_observe = (\<lambda>n ls v m. m(n := (m n)(ls := Some (case m n ls of None \<Rightarrow> Fin 1 | Some c \<Rightarrow> fadd c (Fin 1))))),
      series = (\<lambda>m n ls. m n ls)\<rparr>"

interpretation map_registry: prometheus map_prom
  by unfold_locales (auto simp: map_prom_def split: option.split)

section \<open>Properties\<close>

text \<open>One call of SetHealth leaves the three health gauges mutually
  consistent whatever they exported before: the score and the readiness are the ones given,
  the series of the active mood is 1 and the series of each of the other five is 0, and no
  other series of the registry changes.\<close>

theorem health_gauges_consistent:
  assumes "prometheus P"
  shows "series P (SetHealth P score active ready m) health_score_metric [] = Some score \<and>
    series P (SetHealth P score active ready m) ready_metric [] = Some (if ready then Fin 1 else Fin 0) \<and>
    (\<forall>c \<in> set AllMoods. series P (SetHealth P score active ready m) mood_metric [c] =
       Some (if c = active then Fin 1 else Fin 0)) \<and>
    (\<forall>k js. k \<notin> {health_score_metric, ready_metric, mood_metric} \<longrightarrow>
       series P (SetHealth P score active ready m) k js = series P m k js)"
  by (simp add: prometheus.series_SetHealth [OF assms])

theorem health_gauges_consistent_witness:
  "series map_prom (SetHealth map_prom (Fin 90) MoodSprouting True
     (SetHealth map_prom (Fin 96) MoodLeafy True (\<lambda>_ _. None))) mood_metric [MoodLeafy] = Some (Fin 0)"
  using health_gauges_consistent [OF map_registry.prometheus_axioms, of "Fin 90" MoodSprouting True
      "SetHealth map_prom (Fin 96) MoodLeafy True (\<lambda>_ _. None)"]
  by (simp add: AllMoods_def mood_defs)

text \<open>A fresh process exports every outcome of the work counter and of the
  work histogram at 0 before the first request, and recording work under one of those outcomes
  brings no new series into existence: it advances the counter and the histogram by one and
  leaves every other series as it was.\<close>

theorem outcome_series_exist:
  assumes "prometheus P" and "\<forall>k js. series P reg k js = None" and "outcome \<in> set Outcomes"
  shows "series P (NewMetrics P bi reg) work_requests_metric [outcome] = Some (Fin 0) \<and>
    series P (NewMetrics P bi reg) work_duration_metric [outcome] = Some (Fin 0) \<and>
    series P (ObserveWork P outcome d (NewMetrics P bi reg)) work_requests_metric [outcome] = Some (Fin 1) \<and>
    (\<forall>k js. series P (ObserveWork P outcome d (NewMetrics P bi reg)) k js = None \<longleftrightarrow>
       series P (NewMetrics P bi reg) k js = None)"
proof -
  have z: "series P (NewMetrics P bi reg) k [outcome] = Some (Fin 0)"
    if "k \<in> {work_requests_metric, work_duration_metric}" for k
    using assms(2,3) that
    by (auto simp: NewMetrics_def Outcomes_def outcome_defs
        prometheus.series_touch [OF assms(1)] prometheus.series_set [OF assms(1)])
  have one: "f64_of_rat 1 = Fin 1" by (simp add: f64_defs f64_eval Let_def)
  show ?thesis
    using z by (auto simp: prometheus.series_ObserveWork [OF assms(1)] one)
qed

theorem outcome_series_exist_witness:
  "series map_prom (ObserveWork map_prom OutcomeFailure 5
     (NewMetrics map_prom \<lparr>bVersion = ''dev'', bCommit = ''none'', bGoVersion = ''go1.25''\<rparr> (\<lambda>_ _. None)))
     work_requests_metric [OutcomeFailure] = Some (Fin 1)"
proof -
  have e: "\<forall>k js. series map_prom (\<lambda>_ _. None) k js = None" by (simp add: map_prom_def)
  have v: "OutcomeFailure \<in> set Outcomes" by (simp add: Outcomes_def)
  show ?thesis using outcome_series_exist [OF map_registry.prometheus_axioms e v] by blast
qed

end
