(* ===== verification/ApiServer.thy ===== *)
theory ApiServer
  imports WorkWindow Telemetry
begin

text \<open>
  \<^verbatim>\<open>internal/api\<close>: server.go, handlers.go and middleware.go. The state of a
  server, its handlers, the routes, the middleware chain around them, and the background
  refresher.

  Time is an integer count of nanoseconds and every reading of the clock is an argument. The
  random generator (\<open>rand_src\<close>) and the registry (\<open>prom\<close>) are parameters with
  the laws the code relies on. A request runs to completion before the next one; Interleave
  takes its accesses to shared state apart. \<^verbatim>\<open>time.Sleep\<close> has no effect on the state.
\<close>

section \<open>State\<close>

record api_config =
  cPlantName :: string
  cSpecies :: string
  cLatencyBudget :: duration
  cWorkErrorRate :: f64
  cWorkMinDelay :: duration
  cWorkMaxDelay :: duration
  cEnableChaosEndpoints :: bool
  cHealthRefreshInterval :: duration

text \<open>\<^verbatim>\<open>*rand.Rand\<close>; \<open>Int63n\<close> returns \<open>None\<close> where it panics.\<close>

record 'r rand_src =
  Int63n :: "i64 \<Rightarrow> 'r \<Rightarrow> (i64 \<times> 'r) option"
  Float64 :: "'r \<Rightarrow> f64 \<times> 'r"

locale go_rand =
  fixes R :: "'r rand_src"
  assumes Int63n_panics: "sint n \<le> 0 \<Longrightarrow> Int63n R n g = None"
    and Int63n_range: "0 < sint n \<Longrightarrow> \<exists>v g'. Int63n R n g = Some (v, g') \<and> 0 \<le> sint v \<and> sint v < sint n"
    and Float64_range: "\<exists>q g'. Float64 R g = (Fin q, g') \<and> 0 \<le> q \<and> q < 1"

datatype log_line =
    HttpRequest log_level string string string string nat i64
  | PanicRecovered string string
  | ReadinessOverridden bool
  | EncodeFailed

record ('m, 'r) server =
  sCfg :: api_config
  sLog :: "log_line list"
  sMetrics :: 'm
  sStartedAt :: int
  sReady :: bool
  sRand :: 'r
  sWork :: workWindow

definition New :: "api_config \<Rightarrow> 'm \<Rightarrow> 'r \<Rightarrow> int \<Rightarrow> ('m, 'r) server" where
  "New cfg m resolvedRand now =
     \<lparr>sCfg = cfg, sLog = [], sMetrics = m, sStartedAt = now, sReady = True, sRand = resolvedRand,
      sWork = empty_window\<rparr>"

text \<open>\<^verbatim>\<open>Time.Sub\<close>, which saturates.\<close>

definition time_sub :: "int \<Rightarrow> int \<Rightarrow> duration" where
  "time_sub t u = word_of_int (max (- (2 ^ 63)) (min (2 ^ 63 - 1) (t - u)))"

section \<open>Reports and gauges\<close>

text \<open>\<open>t1\<close> is the reading of \<^verbatim>\<open>time.Since\<close>, \<open>t2\<close> the one of NewReport.\<close>

definition currentReport :: "int \<Rightarrow> int \<Rightarrow> ('m, 'r) server \<Rightarrow> int report" where
  "currentReport t1 t2 s =
     (let (errorRate, p95, _) = stats (sWork s);
          signals = \<lparr>Ready = sReady s, ErrorRate = errorRate, P95Latency = p95,
                     LatencyBudget = cLatencyBudget (sCfg s), RestartCount = 0\<rparr>;
          uptime = time_sub t1 (sStartedAt s)
      in NewReport signals (cPlantName (sCfg s)) (cSpecies (sCfg s)) uptime t2)"

definition syncMetrics :: "'m prom \<Rightarrow> int report \<Rightarrow> ('m, 'r) server \<Rightarrow> ('m, 'r) server" where
  "syncMetrics P r s = s\<lparr>sMetrics := SetHealth P (rHealthScore r) (rMood r) (rReady r) (sMetrics s)\<rparr>"

definition SetReady :: "'m prom \<Rightarrow> int \<Rightarrow> int \<Rightarrow> bool \<Rightarrow> ('m, 'r) server \<Rightarrow> ('m, 'r) server" where
  "SetReady P t1 t2 b s =
     (let s1 = s\<lparr>sReady := b\<rparr> in syncMetrics P (currentReport t1 t2 s1) s1)"

text \<open>
  The refresher over the ticks its select takes before it takes the end of its context (when both
  are ready Go picks either), each with the two clock readings of its report.
\<close>

definition RunHealthRefresher ::
  "'m prom \<Rightarrow> duration \<Rightarrow> (int \<times> int) list \<Rightarrow> ('m, 'r) server \<Rightarrow> string + ('m, 'r) server" where
  "RunHealthRefresher P interval ticks s =
     (if sle interval 0
      then Inl (''health refresh interval must be positive, got '' @ duration_string interval)
      else Inr (fold (\<lambda>(t1, t2) s. syncMetrics P (currentReport t1 t2 s) s) ticks s))"

section \<open>Responses\<close>

datatype body =
    StatusBody string
  | ReportBody "int report"
  | WorkResponse string i64 string
  | TextBody string

text \<open>
  A \<^verbatim>\<open>http.ResponseWriter\<close>: the connection with the status it has sent and what
  was written, or a \<^verbatim>\<open>statusRecorder\<close> (its status, \<^verbatim>\<open>wroteHeader\<close>)
  around another writer. net/http sends an informational 1xx status without committing the
  response to it, except for 101.
\<close>

datatype writer =
    Conn "nat option" "body list"
  | Recorder nat bool writer

definition informational :: "nat \<Rightarrow> bool" where
  "informational code \<longleftrightarrow> 100 \<le> code \<and> code \<le> 199 \<and> code \<noteq> 101"

definition newStatusRecorder :: "writer \<Rightarrow> writer" where
  "newStatusRecorder w = Recorder 200 False w"

fun WriteHeader :: "nat \<Rightarrow> writer \<Rightarrow> writer" where
  "WriteHeader code (Conn st bs) =
     Conn (case st of None \<Rightarrow> if informational code then None else Some code | Some c \<Rightarrow> Some c) bs"
| "WriteHeader code (Recorder st wrote w) =
     Recorder (if wrote then st else code) True (WriteHeader code w)"

lemma size_WriteHeader [termination_simp]: "size (WriteHeader code w) = size w"
  by (induction w) (simp_all split: option.split)

fun Write :: "body \<Rightarrow> writer \<Rightarrow> writer" where
  "Write b (Conn st bs) = Conn (case st of None \<Rightarrow> Some 200 | Some c \<Rightarrow> Some c) (bs @ [b])"
| "Write b (Recorder st wrote w) =
     (if wrote then Recorder st True (Write b w)
      else Recorder 200 True (Write b (WriteHeader 200 w)))"

fun recorded :: "writer \<Rightarrow> nat" where
  "recorded (Recorder st _ _) = st"
| "recorded (Conn st _) = (case st of None \<Rightarrow> 200 | Some c \<Rightarrow> c)"

fun inner_writer :: "writer \<Rightarrow> writer" where
  "inner_writer (Recorder _ _ w) = w"
| "inner_writer (Conn st bs) = Conn st bs"

text \<open>The response as the client sees it: net/http sends 200 when no handler chose a status.\<close>

fun sent_status :: "writer \<Rightarrow> nat" where
  "sent_status (Conn st _) = (case st of None \<Rightarrow> 200 | Some c \<Rightarrow> c)"
| "sent_status (Recorder _ _ w) = sent_status w"

fun sent_bodies :: "writer \<Rightarrow> body list" where
  "sent_bodies (Conn _ bs) = bs"
| "sent_bodies (Recorder _ _ w) = sent_bodies w"

text \<open>\<^verbatim>\<open>encoding/json\<close> has no representation of NaN and the infinities.\<close>

definition json_encodable :: "body \<Rightarrow> bool" where
  "json_encodable b = (case b of ReportBody r \<Rightarrow> (case rHealthScore r of Fin _ \<Rightarrow> True | _ \<Rightarrow> False) | _ \<Rightarrow> True)"

definition writeJSON :: "nat \<Rightarrow> body \<Rightarrow> ('m, 'r) server \<times> writer \<Rightarrow> ('m, 'r) server \<times> writer" where
  "writeJSON status b sw =
     (case sw of (s, w) \<Rightarrow>
       (let w1 = WriteHeader status w in
        if json_encodable b then (s, Write b w1) else (s\<lparr>sLog := sLog s @ [EncodeFailed]\<rparr>, w1)))"

section \<open>Handlers\<close>

text \<open>
  A request, with what its handling reads of the outside: \<open>rqTimes\<close> are the clock readings of
  a report, \<open>rqEntropy\<close> is what \<^verbatim>\<open>crypto/rand.Read\<close> puts into the eight bytes
  of the request ID (\<open>None\<close> when it fails), and \<open>rqClock\<close> the time of day of an ID
  without entropy and the readings before and after the handling.
\<close>

record request =
  rqMethod :: string
  rqPath :: string
  rqClean :: bool
  rqStar :: bool
  rqDecoded :: "bool option"
  rqTimes :: "int \<times> int"
  rqEntropy :: "8 word list option"
  rqClock :: "int \<times> int \<times> int"

text \<open>A handler returns the server and the writer it leaves, and whether it panicked.\<close>

type_synonym ('m, 'r) handler_result = "('m, 'r) server \<times> writer \<times> bool"

definition finished :: "('m, 'r) server \<times> writer \<Rightarrow> ('m, 'r) handler_result" where
  "finished sw = (fst sw, snd sw, False)"

definition healthzHandler :: "('m, 'r) server \<times> writer \<Rightarrow> ('m, 'r) handler_result" where
  "healthzHandler sw = finished (writeJSON 200 (StatusBody ''ok'') sw)"

definition readyzHandler :: "('m, 'r) server \<times> writer \<Rightarrow> ('m, 'r) handler_result" where
  "readyzHandler sw =
     (if \<not> sReady (fst sw) then finished (writeJSON 503 (StatusBody ''not ready'') sw)
      else finished (writeJSON 200 (StatusBody ''ready'') sw))"

definition statusHandler ::
  "'m prom \<Rightarrow> request \<Rightarrow> ('m, 'r) server \<times> writer \<Rightarrow> ('m, 'r) handler_result" where
  "statusHandler P rq sw =
     (case sw of (s, w) \<Rightarrow>
       (let report = currentReport (fst (rqTimes rq)) (snd (rqTimes rq)) s
        in finished (writeJSON 200 (ReportBody report) (syncMetrics P report s, w))))"

definition workMessage :: "string \<Rightarrow> duration \<Rightarrow> duration \<Rightarrow> string" where
  "workMessage outcome delay budget =
     (if outcome = OutcomeFailure then ''dropped a leaf: simulated work failure''
      else if outcome = OutcomeWarning then
        ''took '' @ duration_string delay @ '', over the '' @ duration_string budget @ '' latency budget''
      else ''watered on time'')"

text \<open>The span and its successor are \<^verbatim>\<open>int64\<close> and wrap around.\<close>

definition randomWorkDelay ::
  "'r rand_src \<Rightarrow> api_config \<Rightarrow> 'r \<Rightarrow> (duration \<times> 'r) option" where
  "randomWorkDelay R cfg g =
     (let lo = cWorkMinDelay cfg; hi = cWorkMaxDelay cfg in
      if sle hi lo then Some (lo, g)
      else (let span = hi - lo in
        (case Int63n R (span + 1) g of None \<Rightarrow> None | Some (v, g') \<Rightarrow> Some (lo + v, g'))))"

definition sampleWorkOutcome ::
  "'r rand_src \<Rightarrow> api_config \<Rightarrow> duration \<Rightarrow> 'r \<Rightarrow> (string \<times> nat) \<times> 'r" where
  "sampleWorkOutcome R cfg delay g =
     (let (roll, g') = Float64 R g in
      (if flt roll (cWorkErrorRate cfg) then (OutcomeFailure, 500)
       else if slt 0 (cLatencyBudget cfg) \<and> slt (cLatencyBudget cfg) delay then (OutcomeWarning, 200)
       else (OutcomeSuccess, 200), g'))"

text \<open>\<^verbatim>\<open>Duration.Milliseconds\<close>: the quotient truncated toward zero.\<close>

definition milliseconds :: "duration \<Rightarrow> i64" where
  "milliseconds d = word_of_int (sgn (sint d) * (\<bar>sint d\<bar> div 1000000))"

definition workHandler ::
  "'m prom \<Rightarrow> 'r rand_src \<Rightarrow> ('m, 'r) server \<times> writer \<Rightarrow> ('m, 'r) handler_result" where
  "workHandler P R sw =
     (case sw of (s, w) \<Rightarrow>
       (case randomWorkDelay R (sCfg s) (sRand s) of
          None \<Rightarrow> (s, w, True)
        | Some (delay, g1) \<Rightarrow>
            (let ((outcome, status), g2) = sampleWorkOutcome R (sCfg s) delay g1;
                 s1 = s\<lparr>sRand := g2,
                        sWork := observe delay (outcome = OutcomeFailure) (sWork s),
                        sMetrics := ObserveWork P outcome delay (sMetrics s)\<rparr>
             in finished (writeJSON status
                  (WorkResponse outcome (milliseconds delay)
                     (workMessage outcome delay (cLatencyBudget (sCfg s)))) (s1, w)))))"

definition chaosReadinessHandler ::
  "'m prom \<Rightarrow> request \<Rightarrow> ('m, 'r) server \<times> writer \<Rightarrow> ('m, 'r) handler_result" where
  "chaosReadinessHandler P rq sw =
     (case sw of (s, w) \<Rightarrow>
       (case rqDecoded rq of
          None \<Rightarrow> finished (writeJSON 400 (StatusBody ''invalid request body'') (s, w))
        | Some b \<Rightarrow>
            (let s1 = SetReady P (fst (rqTimes rq)) (snd (rqTimes rq)) b s;
                 s2 = s1\<lparr>sLog := sLog s1 @ [ReadinessOverridden b]\<rparr>
             in finished (writeJSON 200 (StatusBody (''readiness set to '' @ format_bool b)) (s2, w)))))"

section \<open>Routing\<close>

text \<open>
  \<^verbatim>\<open>http.ServeMux\<close> matches the segments of the cleaned path (\<open>rqPath\<close>); when
  cleaning changed the request's path (\<open>rqClean\<close> false) it redirects, keeping the matched
  pattern. A \<^verbatim>\<open>GET\<close> pattern also matches \<^verbatim>\<open>HEAD\<close>. When only the
  method differs the answer is 405, and with no match it is 404, both with an empty
  \<^verbatim>\<open>Request.Pattern\<close>; so is the answer 400 to the target \<^verbatim>\<open>*\<close>
  (\<open>rqStar\<close>).
\<close>

definition routes :: "api_config \<Rightarrow> (string \<times> string) list" where
  "routes cfg =
     [(''GET'', ''/healthz''), (''GET'', ''/readyz''), (''GET'', ''/status''), (''GET'', ''/work''),
      (''GET'', ''/metrics'')]
     @ (if cEnableChaosEndpoints cfg then [(''POST'', ''/chaos/readiness'')] else [])"

definition method_matches :: "string \<Rightarrow> string \<Rightarrow> bool" where
  "method_matches pm m \<longleftrightarrow> m = pm \<or> pm = ''GET'' \<and> m = ''HEAD''"

definition matched_route :: "api_config \<Rightarrow> request \<Rightarrow> (string \<times> string) option" where
  "matched_route cfg rq =
     (if rqStar rq then None
      else find (\<lambda>(pm, p). method_matches pm (rqMethod rq) \<and> p = rqPath rq) (routes cfg))"

definition Pattern :: "api_config \<Rightarrow> request \<Rightarrow> string" where
  "Pattern cfg rq = (case matched_route cfg rq of None \<Rightarrow> [] | Some (pm, p) \<Rightarrow> pm @ '' '' @ p)"

definition unmatchedRoutePattern :: string where "unmatchedRoutePattern = ''unmatched''"

definition routePattern :: "string \<Rightarrow> string" where
  "routePattern pattern =
     (if pattern = [] then unmatchedRoutePattern
      else (case cut_byte (CHR '' '') pattern of (_, path, ok) \<Rightarrow> if ok then path else pattern))"


section \<open>The mux and the middleware\<close>

text \<open>
  The parameters of a server: the registry's operations, the generator's,
  \<^verbatim>\<open>promhttp.HandlerFor\<close>, which renders a registry as a status and a text, and
  the status of the mux's redirects, which depends on the release of Go.
\<close>

record ('m, 'r) api_env =
  eProm :: "'m prom"
  eRand :: "'r rand_src"
  ePromhttp :: "'m \<Rightarrow> nat \<times> string"
  eRedirect :: nat

definition promhttpHandler ::
  "('m \<Rightarrow> nat \<times> string) \<Rightarrow> ('m, 'r) server \<times> writer \<Rightarrow> ('m, 'r) handler_result" where
  "promhttpHandler H sw =
     (case sw of (s, w) \<Rightarrow>
       (let (code, out) = H (sMetrics s) in finished (s, Write (TextBody out) (WriteHeader code w))))"

definition http_error :: "nat \<Rightarrow> string \<Rightarrow> ('m, 'r) server \<times> writer \<Rightarrow> ('m, 'r) handler_result" where
  "http_error code msg sw = finished (fst sw, Write (TextBody msg) (WriteHeader code (snd sw)))"

definition redirect :: "nat \<Rightarrow> request \<Rightarrow> ('m, 'r) server \<times> writer \<Rightarrow> ('m, 'r) handler_result" where
  "redirect code rq sw =
     (let w1 = WriteHeader code (snd sw)
      in finished (fst sw, if rqMethod rq = ''GET'' then Write (TextBody []) w1 else w1))"

text \<open>The handler registered for the path of a pattern.\<close>

definition route_handler ::
  "('m, 'r) api_env \<Rightarrow> request \<Rightarrow> string \<Rightarrow> ('m, 'r) server \<times> writer \<Rightarrow> ('m, 'r) handler_result" where
  "route_handler E rq p sw =
     (if p = ''/healthz'' then healthzHandler sw
      else if p = ''/readyz'' then readyzHandler sw
      else if p = ''/status'' then statusHandler (eProm E) rq sw
      else if p = ''/work'' then workHandler (eProm E) (eRand E) sw
      else if p = ''/metrics'' then promhttpHandler (ePromhttp E) sw
      else chaosReadinessHandler (eProm E) rq sw)"

definition mux_serve ::
  "('m, 'r) api_env \<Rightarrow> request \<Rightarrow> ('m, 'r) server \<times> writer \<Rightarrow> ('m, 'r) handler_result" where
  "mux_serve E rq sw =
     (let cfg = sCfg (fst sw) in
      if rqStar rq then finished (fst sw, WriteHeader 400 (snd sw))
      else if \<not> rqClean rq \<and> rqMethod rq \<noteq> ''CONNECT'' then redirect (eRedirect E) rq sw
      else (case matched_route cfg rq of
        None \<Rightarrow>
          if \<exists>(pm, p) \<in> set (routes cfg). p = rqPath rq
          then http_error 405 ''Method Not Allowed'' sw
          else http_error 404 ''404 page not found'' sw
      | Some (pm, p) \<Rightarrow> route_handler E rq p sw))"

text \<open>A panic leaves what the handler had already written and logged.\<close>

definition withRecovery ::
  "request \<Rightarrow> (('m, 'r) server \<times> writer \<Rightarrow> ('m, 'r) handler_result) \<Rightarrow>
   ('m, 'r) server \<times> writer \<Rightarrow> ('m, 'r) handler_result" where
  "withRecovery rq next sw =
     (case next sw of (s1, w1, panicked) \<Rightarrow>
       if panicked
       then finished (writeJSON 500 (StatusBody ''internal error'')
              (s1\<lparr>sLog := sLog s1 @ [PanicRecovered (rqMethod rq) (rqPath rq)]\<rparr>, w1))
       else (s1, w1, False))"

definition withMetrics ::
  "'m prom \<Rightarrow> request \<Rightarrow> string \<Rightarrow> (('m, 'r) server \<times> writer \<Rightarrow> ('m, 'r) handler_result) \<Rightarrow>
   ('m, 'r) server \<times> writer \<Rightarrow> ('m, 'r) handler_result" where
  "withMetrics P rq pattern next sw =
     (case next (fst sw, newStatusRecorder (snd sw)) of (s1, rec, panicked) \<Rightarrow>
       if panicked then (s1, inner_writer rec, True)
       else (s1\<lparr>sMetrics := ObserveHTTP P (routePattern pattern) (rqMethod rq) (recorded rec) (sMetrics s1)\<rparr>,
             inner_writer rec, False))"

definition probeRoutes :: "string \<Rightarrow> bool" where
  "probeRoutes route \<longleftrightarrow> route = ''/healthz'' \<or> route = ''/readyz''"

definition newRequestID :: "request \<Rightarrow> string" where
  "newRequestID rq =
     (case rqEntropy rq of None \<Rightarrow> FormatInt16 (word_of_int (fst (rqClock rq))) | Some bs \<Rightarrow> EncodeToString bs)"

definition withRequestLogging ::
  "request \<Rightarrow> string \<Rightarrow> (('m, 'r) server \<times> writer \<Rightarrow> ('m, 'r) handler_result) \<Rightarrow>
   ('m, 'r) server \<times> writer \<Rightarrow> ('m, 'r) handler_result" where
  "withRequestLogging rq pattern next sw =
     (let id = newRequestID rq; start = fst (snd (rqClock rq)) in
      (case next (fst sw, newStatusRecorder (snd sw)) of (s1, rec, panicked) \<Rightarrow>
        if panicked then (s1, inner_writer rec, True)
        else (let duration = time_sub (snd (snd (rqClock rq))) start;
                  route = routePattern pattern;
                  level = (if probeRoutes route then LevelDebug else LevelInfo)
              in (s1\<lparr>sLog := sLog s1 @
                    [HttpRequest level id (rqMethod rq) route (rqPath rq) (recorded rec) (milliseconds duration)]\<rparr>,
                  inner_writer rec, False))))"

text \<open>\<^verbatim>\<open>Server.Handler\<close>; the pattern is the one the mux sets on the request.\<close>

definition Handler ::
  "('m, 'r) api_env \<Rightarrow> request \<Rightarrow> ('m, 'r) server \<times> writer \<Rightarrow> ('m, 'r) handler_result" where
  "Handler E rq sw =
     (let pattern = Pattern (sCfg (fst sw)) rq in
      withRequestLogging rq pattern
        (withMetrics (eProm E) rq pattern (withRecovery rq (mux_serve E rq))) sw)"

text \<open>One request on a new connection: the server after it, its status and what was written.\<close>

definition serve :: "('m, 'r) api_env \<Rightarrow> request \<Rightarrow> ('m, 'r) server \<Rightarrow> ('m, 'r) server \<times> nat \<times> body list" where
  "serve E rq s =
     (case Handler E rq (s, Conn None []) of (s1, w, _) \<Rightarrow> (s1, sent_status w, sent_bodies w))"

section \<open>Lemmas on writers\<close>

text \<open>What the code relies on: statuses that commit the response.\<close>

definition env_ok :: "('m, 'r) api_env \<Rightarrow> bool" where
  "env_ok E \<longleftrightarrow> prometheus (eProm E) \<and> go_rand (eRand E) \<and>
     (\<forall>m. \<not> informational (fst (ePromhttp E m))) \<and> \<not> informational (eRedirect E)"

lemma env_okD:
  "env_ok E \<Longrightarrow> prometheus (eProm E)" "env_ok E \<Longrightarrow> go_rand (eRand E)"
  "env_ok E \<Longrightarrow> \<not> informational (fst (ePromhttp E m))" "env_ok E \<Longrightarrow> \<not> informational (eRedirect E)"
  by (simp_all add: env_ok_def)

subsection \<open>Recorders agree with the connection\<close>

fun committed :: "writer \<Rightarrow> bool" where
  "committed (Conn st _) = (st \<noteq> None)"
| "committed (Recorder _ _ w) = committed w"

fun rec_ok :: "writer \<Rightarrow> bool" where
  "rec_ok (Conn st bs) = True"
| "rec_ok (Recorder st wrote w) = (rec_ok w \<and> wrote = committed w \<and> st = sent_status w)"

lemma sent_status_uncommitted: "\<not> committed w \<Longrightarrow> sent_status w = 200"
  by (induction w) simp_all

lemma committed_WriteHeader: "\<not> informational c \<Longrightarrow> committed (WriteHeader c w)"
  by (induction w) (auto split: option.split)

lemma sent_WriteHeader:
  "\<not> informational c \<Longrightarrow> sent_status (WriteHeader c w) = (if committed w then sent_status w else c)"
  by (induction w) (auto split: option.split)

lemma rec_ok_WriteHeader: "\<not> informational c \<Longrightarrow> rec_ok w \<Longrightarrow> rec_ok (WriteHeader c w)"
  by (induction w) (auto simp: committed_WriteHeader sent_WriteHeader)

lemma committed_Write: "committed (Write b w)"
  by (induction b w rule: Write.induct) (auto split: option.split)

lemma not_informational_200 [simp]: "\<not> informational 200"
  by (simp add: informational_def)

lemma sent_Write: "sent_status (Write b w) = sent_status w"
proof (induction b w rule: Write.induct)
  case (2 b st wrote w)
  then show ?case by (auto simp: sent_WriteHeader sent_status_uncommitted)
qed (simp split: option.split)

lemma rec_ok_Write: "rec_ok w \<Longrightarrow> rec_ok (Write b w)"
proof (induction b w rule: Write.induct)
  case (2 b st wrote w)
  then show ?case
    by (auto simp: committed_Write sent_Write rec_ok_WriteHeader sent_WriteHeader)
qed simp

datatype write_op = OpHeader nat | OpWrite body

fun apply_op :: "write_op \<Rightarrow> writer \<Rightarrow> writer" where
  "apply_op (OpHeader c) w = WriteHeader c w"
| "apply_op (OpWrite b) w = Write b w"

lemma rec_ok_run:
  "\<forall>c. OpHeader c \<in> set ops \<longrightarrow> \<not> informational c \<Longrightarrow> rec_ok w \<Longrightarrow> rec_ok (fold apply_op ops w)"
proof (induction ops arbitrary: w)
  case (Cons x xs)
  then have "rec_ok (apply_op x w)"
    by (cases x) (simp_all add: rec_ok_WriteHeader rec_ok_Write)
  with Cons show ?case by simp
qed simp

lemma rec_ok_recorded: "rec_ok w \<Longrightarrow> recorded w = sent_status w"
  by (cases w) simp_all

text \<open>What the connection and its two recorders are after the writes of a handler.\<close>

definition after_writes :: "write_op list \<Rightarrow> writer" where
  "after_writes ops = fold apply_op ops (newStatusRecorder (newStatusRecorder (Conn None [])))"

lemma rec_ok_after_writes:
  "\<forall>c. OpHeader c \<in> set ops \<longrightarrow> \<not> informational c \<Longrightarrow> rec_ok (after_writes ops)"
  unfolding after_writes_def by (rule rec_ok_run) (simp_all add: newStatusRecorder_def)

text \<open>Whatever a handler does to the two nested status recorders, any
  sequence of WriteHeader and Write calls in any order and repetition, the status the outer
  and the inner recorder remember is the one the client receives, as long as no informational
  (1xx) status is sent; so the metrics and the log report the real status.\<close>

theorem recorder_faithful:
  assumes "\<forall>c. OpHeader c \<in> set ops \<longrightarrow> \<not> informational c"
  shows "recorded (after_writes ops) = sent_status (after_writes ops) \<and>
    recorded (inner_writer (after_writes ops)) = sent_status (after_writes ops)"
  using rec_ok_after_writes [OF assms] by (cases "after_writes ops") (auto simp: rec_ok_recorded)

theorem recorder_faithful_witness:
  "recorded (after_writes [OpWrite (TextBody ''x''), OpHeader 503]) = 200"
  using recorder_faithful [of "[OpWrite (TextBody ''x''), OpHeader 503]"]
  by (simp add: after_writes_def newStatusRecorder_def informational_def)

subsection \<open>One request\<close>

definition fresh :: writer where
  "fresh = newStatusRecorder (newStatusRecorder (Conn None []))"

definition wrote :: "nat \<Rightarrow> body list \<Rightarrow> writer" where
  "wrote c bs = Recorder c True (Recorder c True (Conn (Some c) bs))"

lemma write_fresh:
  "\<not> informational c \<Longrightarrow> WriteHeader c fresh = wrote c []"
  "Write b (wrote c bs) = wrote c (bs @ [b])"
  by (simp_all add: fresh_def wrote_def newStatusRecorder_def)

lemma wrote_eq [simp]: "wrote c bs = wrote c' bs' \<longleftrightarrow> c = c' \<and> bs = bs'"
  by (auto simp: wrote_def)

lemma json_encodable_simps [simp]:
  "json_encodable (StatusBody t)" "json_encodable (WorkResponse t i u)" "json_encodable (TextBody t)"
  by (simp_all add: json_encodable_def)

lemma informational_codes [simp]:
  "\<not> informational 301" "\<not> informational 400" "\<not> informational 404" "\<not> informational 405"
  "\<not> informational 500" "\<not> informational 503"
  by (simp_all add: informational_def)

lemma writeJSON_fresh:
  "\<not> informational c \<Longrightarrow> writeJSON c b (s, fresh) =
     (if json_encodable b then (s, wrote c [b]) else (s\<lparr>sLog := sLog s @ [EncodeFailed]\<rparr>, wrote c []))"
  by (simp add: writeJSON_def write_fresh)

text \<open>The log line and the counter that follow every request.\<close>

definition account ::
  "'m prom \<Rightarrow> string \<Rightarrow> request \<Rightarrow> nat \<Rightarrow> ('m, 'r) server \<Rightarrow> ('m, 'r) server" where
  "account P route rq c s =
     s\<lparr>sMetrics := ObserveHTTP P route (rqMethod rq) c (sMetrics s),
       sLog := sLog s @ [HttpRequest (if probeRoutes route then LevelDebug else LevelInfo) (newRequestID rq)
                          (rqMethod rq) route (rqPath rq) c
                          (milliseconds (time_sub (snd (snd (rqClock rq))) (fst (snd (rqClock rq)))))]\<rparr>"

lemma serve_finished:
  assumes "mux_serve E rq (s, fresh) = (s', wrote c bs, False)"
  shows "serve E rq s = (account (eProm E) (routePattern (Pattern (sCfg s) rq)) rq c s', c, bs)"
  using assms unfolding fresh_def wrote_def
  by (simp add: serve_def Handler_def withRequestLogging_def withMetrics_def withRecovery_def
      newStatusRecorder_def account_def Let_def)

lemma serve_panicked:
  assumes "mux_serve E rq (s, fresh) = (s', fresh, True)"
  shows "serve E rq s =
    (account (eProm E) (routePattern (Pattern (sCfg s) rq)) rq 500
       (s'\<lparr>sLog := sLog s' @ [PanicRecovered (rqMethod rq) (rqPath rq)]\<rparr>), 500, [StatusBody ''internal error''])"
proof -
  have j: "writeJSON 500 (StatusBody ''internal error'') (s'', fresh) =
      (s'', wrote 500 [StatusBody ''internal error''])" for s'' :: "('a, 'b) server"
    by (simp add: writeJSON_fresh)
  then show ?thesis using assms unfolding fresh_def wrote_def
    by (simp add: serve_def Handler_def withRequestLogging_def withMetrics_def withRecovery_def
        newStatusRecorder_def account_def finished_def Let_def)
qed

lemma account_simps [simp]:
  "sCfg (account P route rq c s) = sCfg s" "sReady (account P route rq c s) = sReady s"
  "sWork (account P route rq c s) = sWork s" "sRand (account P route rq c s) = sRand s"
  "sStartedAt (account P route rq c s) = sStartedAt s"
  "sMetrics (account P route rq c s) = ObserveHTTP P route (rqMethod rq) c (sMetrics s)"
  by (simp_all add: account_def)

lemma SetReady_simps [simp]:
  "sCfg (SetReady P t1 t2 b s) = sCfg s" "sReady (SetReady P t1 t2 b s) = b"
  "sWork (SetReady P t1 t2 b s) = sWork s" "sStartedAt (SetReady P t1 t2 b s) = sStartedAt s"
  by (simp_all add: SetReady_def syncMetrics_def Let_def)

lemma syncMetrics_simps [simp]:
  "sCfg (syncMetrics P r s) = sCfg s" "sReady (syncMetrics P r s) = sReady s"
  "sWork (syncMetrics P r s) = sWork s" "sStartedAt (syncMetrics P r s) = sStartedAt s"
  by (simp_all add: syncMetrics_def)

text \<open>The routes.\<close>

lemma find_SomeD: "find P xs = Some x \<Longrightarrow> x \<in> set xs \<and> P x"
  by (induction xs) (auto split: if_splits)

lemma matched_route_path:
  "matched_route cfg rq = Some (pm, p) \<Longrightarrow>
     (pm, p) \<in> set (routes cfg) \<and> p = rqPath rq \<and> method_matches pm (rqMethod rq)"
  unfolding matched_route_def by (auto dest!: find_SomeD split: if_splits)

definition get_request :: "string \<Rightarrow> int \<times> int \<Rightarrow> request" where
  "get_request p ts = \<lparr>rqMethod = ''GET'', rqPath = p, rqClean = True, rqStar = False,
     rqDecoded = None, rqTimes = ts,
     rqEntropy = Some [0, 0, 0, 0, 0, 0, 0, 0], rqClock = (0, 0, 0)\<rparr>"

lemma get_request_simps [simp]:
  "rqMethod (get_request p ts) = ''GET''" "rqPath (get_request p ts) = p" "rqClean (get_request p ts)"
  "\<not> rqStar (get_request p ts)" "rqTimes (get_request p ts) = ts"
  by (simp_all add: get_request_def)

lemma matched_get:
  "p \<in> {''/healthz'', ''/readyz'', ''/status'', ''/work'', ''/metrics''} \<Longrightarrow>
     matched_route cfg (get_request p ts) = Some (''GET'', p)"
  by (auto simp: matched_route_def routes_def method_matches_def)

lemma routePattern_route:
  "(pm, p) \<in> set (routes cfg) \<Longrightarrow> routePattern (pm @ '' '' @ p) = p"
  by (auto simp: routes_def routePattern_def cut_byte_def split: if_splits)

lemma routePattern_Pattern:
  "routePattern (Pattern cfg rq) =
     (case matched_route cfg rq of None \<Rightarrow> unmatchedRoutePattern | Some (pm, p) \<Rightarrow> p)"
proof (cases "matched_route cfg rq")
  case None
  then show ?thesis by (simp add: Pattern_def routePattern_def)
next
  case (Some r)
  obtain pm p where r: "r = (pm, p)" by (cases r)
  have m: "matched_route cfg rq = Some (pm, p)" using Some r by simp
  have "routePattern (pm @ '' '' @ p) = p"
    using matched_route_path [OF m] routePattern_route by blast
  then show ?thesis by (simp add: Pattern_def m)
qed


lemma window_contents_length: "window_inv w \<Longrightarrow> length (window_contents w) \<le> 100"
  by (auto simp: window_contents_def window_inv_def workWindowSize_def)

lemma error_rate_Fin: "window_inv w \<Longrightarrow> \<exists>e. fst (stats w) = Fin e \<and> 0 \<le> e \<and> e \<le> 1"
  using stats_of_error_rate [OF window_contents_length] stats_window by simp

lemma report_score_Fin:
  assumes "window_inv (sWork s)"
  shows "\<exists>r. rHealthScore (currentReport t1 t2 s) = Fin r \<and> 0 \<le> r \<and> r \<le> 100"
  using error_rate_Fin [OF assms]
  by (auto simp: currentReport_def NewReport_def Let_def split: prod.split intro!: Score_bounds)

lemma report_encodable: "window_inv (sWork s) \<Longrightarrow> json_encodable (ReportBody (currentReport t1 t2 s))"
  using report_score_Fin [of s t1 t2] by (auto simp: json_encodable_def)

lemma report_mood: "rMood (currentReport t1 t2 s) \<in> set AllMoods"
  by (auto simp: currentReport_def NewReport_def FromScore_def AllMoods_def Let_def split: prod.split)

lemma report_ready: "rReady (currentReport t1 t2 s) = sReady s"
  by (auto simp: currentReport_def NewReport_def Let_def split: prod.split)

text \<open>The answers of the mux.\<close>

lemma routes_cases:
  "(pm, q) \<in> set (routes cfg) \<Longrightarrow>
     q = ''/healthz'' \<or> q = ''/readyz'' \<or> q = ''/status'' \<or> q = ''/work'' \<or> q = ''/metrics'' \<or>
     q = ''/chaos/readiness'' \<and> cEnableChaosEndpoints cfg"
  by (cases "cEnableChaosEndpoints cfg") (auto simp: routes_def)

lemma mux_cases:
  obtains (bad_request) "mux_serve E rq sw = finished (fst sw, WriteHeader 400 (snd sw))"
  | (redirected) "mux_serve E rq sw = redirect (eRedirect E) rq sw"
  | (error) code msg where "mux_serve E rq sw = http_error code msg sw" "code \<in> {404, 405}"
  | (healthz) "mux_serve E rq sw = healthzHandler sw"
  | (readyz) "mux_serve E rq sw = readyzHandler sw"
  | (status) "mux_serve E rq sw = statusHandler (eProm E) rq sw"
  | (work) "mux_serve E rq sw = workHandler (eProm E) (eRand E) sw"
  | (metrics) "mux_serve E rq sw = promhttpHandler (ePromhttp E) sw"
  | (chaos) "mux_serve E rq sw = chaosReadinessHandler (eProm E) rq sw"
      "cEnableChaosEndpoints (sCfg (fst sw))" "matched_route (sCfg (fst sw)) rq \<noteq> None"
      "rqPath rq = ''/chaos/readiness''"
proof (cases "rqStar rq \<or> (\<not> rqClean rq \<and> rqMethod rq \<noteq> ''CONNECT'')")
  case True
  then show thesis using bad_request redirected
    by (cases "rqStar rq") (simp_all add: mux_serve_def)
next
  case False
  then have m: "mux_serve E rq sw = (case matched_route (sCfg (fst sw)) rq of
        None \<Rightarrow>
          if \<exists>(pm, p) \<in> set (routes (sCfg (fst sw))). p = rqPath rq
          then http_error 405 ''Method Not Allowed'' sw
          else http_error 404 ''404 page not found'' sw
      | Some (pm, p) \<Rightarrow> route_handler E rq p sw)"
    by (cases "rqStar rq"; cases "rqClean rq") (simp_all add: mux_serve_def Let_def)
  show thesis
  proof (cases "matched_route (sCfg (fst sw)) rq")
    case None
    with m show thesis using error
      by (cases "\<exists>(pm, p) \<in> set (routes (sCfg (fst sw))). p = rqPath rq") simp_all
  next
    case (Some r)
    obtain pm q where r: "r = (pm, q)" by (cases r)
    have "(pm, q) \<in> set (routes (sCfg (fst sw)))" using matched_route_path Some r by blast
    note q = routes_cases [OF this]
    have e: "mux_serve E rq sw = route_handler E rq q sw" by (simp add: m Some r)
    from q show thesis
    proof (elim disjE conjE)
      assume "q = ''/healthz''" then show thesis using e by (intro healthz) (simp add: route_handler_def)
    next
      assume "q = ''/readyz''" then show thesis using e by (intro readyz) (simp add: route_handler_def)
    next
      assume "q = ''/status''" then show thesis using e by (intro status) (simp add: route_handler_def)
    next
      assume "q = ''/work''" then show thesis using e by (intro work) (simp add: route_handler_def)
    next
      assume "q = ''/metrics''" then show thesis using e by (intro metrics) (simp add: route_handler_def)
    next
      assume "q = ''/chaos/readiness''" "cEnableChaosEndpoints (sCfg (fst sw))"
      moreover have "q = rqPath rq" using matched_route_path Some r by blast
      ultimately show thesis using e Some by (intro chaos) (simp_all add: route_handler_def)
    qed
  qed
qed

lemma workHandler_finishes:
  "workHandler P R (s, fresh) = (s, fresh, True) \<and> randomWorkDelay R (sCfg s) (sRand s) = None \<or>
    (\<exists>s' c bs. workHandler P R (s, fresh) = (s', wrote c bs, False))"
proof (cases "randomWorkDelay R (sCfg s) (sRand s)")
  case (Some x)
  obtain d g where x: "x = (d, g)" by (cases x)
  obtain out st g2 where o: "sampleWorkOutcome R (sCfg s) d g = ((out, st), g2)"
    by (metis prod.exhaust)
  then have "\<not> informational st" by (auto simp: sampleWorkOutcome_def Let_def split: prod.splits if_splits)
  then show ?thesis using Some x o by (simp add: workHandler_def writeJSON_fresh finished_def)
qed (simp add: workHandler_def)

text \<open>Every answer of the mux but a panic of the generator commits one status.\<close>

lemma finished_writeJSON:
  "\<not> informational c \<Longrightarrow> \<exists>s' bs. finished (writeJSON c b (s, fresh)) = (s', wrote c bs, False)"
  by (simp add: writeJSON_fresh finished_def)

lemma mux_finishes:
  assumes "env_ok E"
  shows "mux_serve E rq (s, fresh) = (s, fresh, True) \<and> randomWorkDelay (eRand E) (sCfg s) (sRand s) = None \<or>
    (\<exists>s' c bs. mux_serve E rq (s, fresh) = (s', wrote c bs, False))"
proof (cases rule: mux_cases [of E rq "(s, fresh)"])
  case bad_request
  then show ?thesis by (simp add: write_fresh finished_def)
next
  case redirected
  then show ?thesis using env_okD(4) [OF assms]
    by (simp add: redirect_def write_fresh finished_def Let_def)
next
  case (error code msg)
  then show ?thesis by (auto simp: http_error_def write_fresh finished_def)
next
  case healthz
  then show ?thesis using finished_writeJSON [of 200] by (simp add: healthzHandler_def) blast
next
  case readyz
  then show ?thesis using finished_writeJSON [of 200] finished_writeJSON [of 503]
    by (simp add: readyzHandler_def) blast
next
  case status
  then show ?thesis using finished_writeJSON [of 200] by (simp add: statusHandler_def Let_def) blast
next
  case work
  then show ?thesis using workHandler_finishes [of "eProm E" "eRand E" s] by simp
next
  case metrics
  then show ?thesis using env_okD(3) [OF assms, of "sMetrics s"]
    by (cases "ePromhttp E (sMetrics s)") (simp add: promhttpHandler_def write_fresh finished_def)
next
  case chaos
  then show ?thesis
    using finished_writeJSON [of 200] finished_writeJSON [of 400]
    by (cases "rqDecoded rq") (simp add: chaosReadinessHandler_def Let_def; blast)+
qed

text \<open>What a request can do to the shared state, apart from the log and the generator.\<close>

inductive effect :: "'m prom \<Rightarrow> ('m, 'r) server \<Rightarrow> ('m, 'r) server \<Rightarrow> bool" for P where
  no_effect: "\<lbrakk>sCfg s' = sCfg s; sReady s' = sReady s; sWork s' = sWork s; sMetrics s' = sMetrics s\<rbrakk>
    \<Longrightarrow> effect P s s'"
| synced: "\<lbrakk>sCfg s' = sCfg s; sReady s' = sReady s; sWork s' = sWork s;
     sMetrics s' = sMetrics (syncMetrics P (currentReport t1 t2 s) s)\<rbrakk> \<Longrightarrow> effect P s s'"
| worked: "\<lbrakk>sCfg s' = sCfg s; sReady s' = sReady s; outcome \<in> set Outcomes;
     sWork s' = observe d (outcome = OutcomeFailure) (sWork s);
     sMetrics s' = ObserveWork P outcome d (sMetrics s)\<rbrakk> \<Longrightarrow> effect P s s'"
| overridden: "\<lbrakk>cEnableChaosEndpoints (sCfg s); sCfg s' = sCfg s; sReady s' = b; sWork s' = sWork s;
     sMetrics s' = sMetrics (SetReady P t1 t2 b s)\<rbrakk> \<Longrightarrow> effect P s s'"

lemma writeJSON_state:
  "writeJSON c b (s, w) = (s', w') \<Longrightarrow>
     sCfg s' = sCfg s \<and> sReady s' = sReady s \<and> sWork s' = sWork s \<and> sMetrics s' = sMetrics s"
  by (auto simp: writeJSON_def Let_def split: if_splits)

lemma effect_writeJSON:
  assumes "effect P s s1" "finished (writeJSON c b (s1, w)) = (s', w', p)"
  shows "effect P s s'"
proof -
  have e: "sCfg s' = sCfg s1 \<and> sReady s' = sReady s1 \<and> sWork s' = sWork s1 \<and> sMetrics s' = sMetrics s1"
    using assms(2) by (intro writeJSON_state [of c b s1 w s' w']) (simp add: finished_def prod_eq_iff)
  show ?thesis using assms(1)
  proof cases
    case no_effect
    then show ?thesis using e by (intro effect.no_effect) simp_all
  next
    case (synced t1 t2)
    then show ?thesis using e by (intro effect.synced [of _ _ _ t1 t2]) simp_all
  next
    case (worked outcome d)
    then show ?thesis using e by (intro effect.worked [of _ _ outcome d]) simp_all
  next
    case (overridden b t1 t2)
    then show ?thesis using e by (intro effect.overridden [of _ _ b _ t1 t2]) simp_all
  qed
qed

lemma effect_refl: "effect P s s"
  by (rule no_effect) simp_all

lemma workHandler_effect:
  assumes "workHandler P R (s, w) = (s', w', p)"
  shows "effect P s s'"
proof (cases "randomWorkDelay R (sCfg s) (sRand s)")
  case (Some x)
  obtain d g where x: "x = (d, g)" by (cases x)
  obtain out st g2 where o: "sampleWorkOutcome R (sCfg s) d g = ((out, st), g2)"
    by (metis prod.exhaust)
  then have "out \<in> set Outcomes"
    by (auto simp: sampleWorkOutcome_def Outcomes_def Let_def split: prod.splits if_splits)
  then have "effect P s (s\<lparr>sRand := g2, sWork := observe d (out = OutcomeFailure) (sWork s),
      sMetrics := ObserveWork P out d (sMetrics s)\<rparr>)"
    by (intro worked [of _ _ out d]) simp_all
  moreover have "finished (writeJSON st (WorkResponse out (milliseconds d)
        (workMessage out d (cLatencyBudget (sCfg s))))
      (s\<lparr>sRand := g2, sWork := observe d (out = OutcomeFailure) (sWork s),
      sMetrics := ObserveWork P out d (sMetrics s)\<rparr>, w)) = (s', w', p)"
    using assms Some x o by (simp add: workHandler_def)
  ultimately show ?thesis by (rule effect_writeJSON)
qed (use assms in \<open>auto simp: workHandler_def effect_refl\<close>)

lemma mux_effect:
  assumes m: "mux_serve E rq (s, w) = (s', w', p)"
  shows "effect (eProm E) s s'"
proof (cases rule: mux_cases [of E rq "(s, w)"])
  case bad_request
  then show ?thesis using m by (simp add: finished_def effect_refl)
next
  case redirected
  then show ?thesis using m by (auto simp: redirect_def finished_def effect_refl Let_def)
next
  case (error code msg)
  then show ?thesis using m by (auto simp: http_error_def finished_def effect_refl)
next
  case healthz
  then have "finished (writeJSON 200 (StatusBody ''ok'') (s, w)) = (s', w', p)"
    using m by (simp add: healthzHandler_def)
  then show ?thesis by (rule effect_writeJSON [OF effect_refl])
next
  case readyz
  obtain c b where "finished (writeJSON c b (s, w)) = (s', w', p)"
    using m readyz by (cases "sReady s") (simp_all add: readyzHandler_def)
  then show ?thesis by (rule effect_writeJSON [OF effect_refl])
next
  case status
  obtain t1 t2 where f: "finished (writeJSON 200 (ReportBody (currentReport t1 t2 s))
      (syncMetrics (eProm E) (currentReport t1 t2 s) s, w)) = (s', w', p)"
    using m status by (simp add: statusHandler_def Let_def)
  have "effect (eProm E) s (syncMetrics (eProm E) (currentReport t1 t2 s) s)"
    by (rule synced) simp_all
  then show ?thesis using f by (rule effect_writeJSON)
next
  case work
  show ?thesis using m [unfolded work] by (rule workHandler_effect)
next
  case metrics
  then show ?thesis using m by (auto simp: promhttpHandler_def finished_def effect_refl Let_def split: prod.splits)
next
  case chaos
  have o: "effect (eProm E) s (SetReady (eProm E) t1 t2 b s
      \<lparr>sLog := sLog (SetReady (eProm E) t1 t2 b s) @ l\<rparr>)" for t1 t2 b l
    using chaos by (intro overridden [of s _ b _ t1 t2]) simp_all
  show ?thesis
  proof (cases "rqDecoded rq")
    case None
    then have "finished (writeJSON 400 (StatusBody ''invalid request body'') (s, w)) = (s', w', p)"
      using m chaos by (simp add: chaosReadinessHandler_def)
    then show ?thesis by (rule effect_writeJSON [OF effect_refl])
  next
    case (Some b)
    show ?thesis
      using m [unfolded chaos chaosReadinessHandler_def prod.case Some option.case Let_def]
      by (rule effect_writeJSON [OF o])
  qed
qed

section \<open>Runs of a server\<close>

text \<open>
  A run: requests, ticks of the refresher, and the first step of the shutdown, in any order.
\<close>

inductive step :: "('m, 'r) api_env \<Rightarrow> ('m, 'r) server \<Rightarrow> ('m, 'r) server \<Rightarrow> bool" for E where
  request: "step E s (fst (serve E rq s))"
| refresh: "step E s (syncMetrics (eProm E) (currentReport t1 t2 s) s)"
| shutdown: "step E s (SetReady (eProm E) t1 t2 False s)"

inductive reachable :: "('m, 'r) api_env \<Rightarrow> ('m, 'r) server \<Rightarrow> ('m, 'r) server \<Rightarrow> bool" for E s0 where
  start: "reachable E s0 s0"
| more: "\<lbrakk>reachable E s0 s; step E s s'\<rbrakk> \<Longrightarrow> reachable E s0 s'"

text \<open>A process just started, with nothing in its registry before its own metrics.\<close>

definition started :: "('m, 'r) api_env \<Rightarrow> ('m, 'r) server \<Rightarrow> bool" where
  "started E s \<longleftrightarrow> (\<exists>cfg bi reg g now. (\<forall>k js. series (eProm E) reg k js = None) \<and>
     s = New cfg (NewMetrics (eProm E) bi reg) g now)"

lemma serve_effect:
  assumes "env_ok E"
  obtains s1 c where "effect (eProm E) s s1"
    "fst (serve E rq s) = account (eProm E) (routePattern (Pattern (sCfg s) rq)) rq c s1"
    "fst (snd (serve E rq s)) = c"
proof -
  consider (panic) "mux_serve E rq (s, fresh) = (s, fresh, True)"
    | (finish) s' c bs where "mux_serve E rq (s, fresh) = (s', wrote c bs, False)"
    using mux_finishes [OF assms] by blast
  then show thesis
  proof cases
    case panic
    then show thesis
      by (intro that [of "s\<lparr>sLog := sLog s @ [PanicRecovered (rqMethod rq) (rqPath rq)]\<rparr>" 500])
        (simp_all add: serve_panicked no_effect)
  next
    case finish
    then show thesis by (intro that [of s' c]) (simp_all add: serve_finished mux_effect)
  qed
qed

inductive_cases effect_cases: "effect P s s'"

lemma effect_sCfg: "effect P s s' \<Longrightarrow> sCfg s' = sCfg s"
  by (erule effect_cases)

lemma step_sCfg:
  assumes "env_ok E" "step E s s'" shows "sCfg s' = sCfg s"
  using assms(2)
proof cases
  case (request rq)
  show ?thesis by (rule serve_effect [OF assms(1), of s rq]) (simp add: request effect_sCfg)
qed simp_all

lemma reachable_sCfg: "reachable E s0 s \<Longrightarrow> env_ok E \<Longrightarrow> sCfg s = sCfg s0"
  by (induction rule: reachable.induct) (simp_all add: step_sCfg)

lemma effect_window: "effect P s s' \<Longrightarrow> window_inv (sWork s) \<Longrightarrow> window_inv (sWork s')"
  by (auto elim!: effect.cases simp: window_inv_observe)

lemma reachable_window:
  "reachable E s0 s \<Longrightarrow> env_ok E \<Longrightarrow> started E s0 \<Longrightarrow> window_inv (sWork s)"
proof (induction rule: reachable.induct)
  case start
  then show ?case by (auto simp: started_def New_def window_inv_empty)
next
  case (more s s')
  from more.hyps(2) show ?case
  proof cases
    case (request rq)
    then show ?thesis using more serve_effect [of E s rq] effect_window by (metis account_simps(3))
  qed (use more in simp_all)
qed

subsection \<open>The gauges\<close>

text \<open>The health gauges say what \<open>/readyz\<close> says, under a single active mood.\<close>

definition gauges_synced :: "'m prom \<Rightarrow> ('m, 'r) server \<Rightarrow> bool" where
  "gauges_synced P s \<longleftrightarrow>
     series P (sMetrics s) ready_metric [] = Some (if sReady s then Fin 1 else Fin 0) \<and>
     (\<exists>m \<in> set AllMoods. \<forall>c \<in> set AllMoods.
        series P (sMetrics s) mood_metric [c] = Some (if c = m then Fin 1 else Fin 0))"

definition gauges_unset :: "'m prom \<Rightarrow> ('m, 'r) server \<Rightarrow> bool" where
  "gauges_unset P s \<longleftrightarrow> sReady s \<and> series P (sMetrics s) ready_metric [] = Some (Fin 0) \<and>
     (\<forall>c. series P (sMetrics s) mood_metric [c] = None)"

lemma synced_syncMetrics:
  assumes "prometheus P" "rReady r = sReady s" "rMood r \<in> set AllMoods"
  shows "gauges_synced P (syncMetrics P r s)"
  using assms(2,3)
  by (auto simp: gauges_synced_def syncMetrics_def prometheus.series_SetHealth [OF assms(1)] intro!: bexI [of _ "rMood r"])

lemma gauges_frame:
  assumes "sReady s' = sReady s"
    "\<And>k js. k \<in> {ready_metric, mood_metric} \<Longrightarrow> series P (sMetrics s') k js = series P (sMetrics s) k js"
  shows "gauges_synced P s' = gauges_synced P s" "gauges_unset P s' = gauges_unset P s"
  using assms by (simp_all add: gauges_synced_def gauges_unset_def)

lemma effect_gauges:
  assumes "effect P s s'" "prometheus P"
  shows "gauges_synced P s' \<or> (gauges_unset P s' = gauges_unset P s \<and> gauges_synced P s' = gauges_synced P s)"
  using assms(1)
proof cases
  case no_effect
  then show ?thesis using gauges_frame [of s' s P] by simp
next
  case (synced t1 t2)
  have "gauges_synced P (syncMetrics P (currentReport t1 t2 s) s)"
    using synced_syncMetrics [OF assms(2) report_ready report_mood] .
  then show ?thesis using synced by (simp add: gauges_synced_def)
next
  case (worked outcome d)
  then have "series P (sMetrics s') k js = series P (sMetrics s) k js"
    if "k \<in> {ready_metric, mood_metric}" for k js
    using that by (auto simp: prometheus.series_ObserveWork [OF assms(2)])
  then show ?thesis using gauges_frame [of s' s P] worked(2) by metis
next
  case (overridden b t1 t2)
  have "gauges_synced P (SetReady P t1 t2 b s)"
    unfolding SetReady_def Let_def
    by (rule synced_syncMetrics [OF assms(2) report_ready report_mood])
  then show ?thesis using overridden by (simp add: gauges_synced_def)
qed

lemma account_gauges:
  assumes "prometheus P"
  shows "gauges_synced P (account P route rq c s) = gauges_synced P s"
    "gauges_unset P (account P route rq c s) = gauges_unset P s"
  by (intro gauges_frame; auto simp: prometheus.series_ObserveHTTP [OF assms])+

lemma started_gauges: "prometheus (eProm E) \<Longrightarrow> started E s \<Longrightarrow> gauges_unset (eProm E) s"
  by (auto simp: started_def gauges_unset_def New_def NewMetrics_def Outcomes_def
      prometheus.series_touch prometheus.series_set)

lemma SetReady_synced: "prometheus P \<Longrightarrow> gauges_synced P (SetReady P t1 t2 b s)"
  unfolding SetReady_def Let_def by (rule synced_syncMetrics [OF _ report_ready report_mood])

lemma step_gauges:
  assumes "env_ok E" "step E s s'"
  shows "gauges_synced (eProm E) s' \<or>
    (gauges_unset (eProm E) s' = gauges_unset (eProm E) s \<and> gauges_synced (eProm E) s' = gauges_synced (eProm E) s)"
  using assms(2)
proof cases
  note P = env_okD(1) [OF assms(1)]
  {
    case (request rq)
    obtain s1 c where "effect (eProm E) s s1"
      "s' = account (eProm E) (routePattern (Pattern (sCfg s) rq)) rq c s1"
      using serve_effect [OF assms(1), of s rq] request by metis
    then show ?thesis using effect_gauges [OF _ P, of s s1] account_gauges [OF P] by metis
  next
    case (refresh t1 t2)
    then show ?thesis by (simp add: synced_syncMetrics [OF P report_ready report_mood])
  next
    case (shutdown t1 t2)
    then show ?thesis by (simp add: SetReady_synced [OF P])
  }
qed

lemma reachable_gauges:
  "reachable E s0 s \<Longrightarrow> env_ok E \<Longrightarrow> started E s0 \<Longrightarrow>
     gauges_synced (eProm E) s \<or> gauges_unset (eProm E) s"
proof (induction rule: reachable.induct)
  case start
  then show ?case using started_gauges env_okD(1) by blast
next
  case (more s s')
  then show ?case using step_gauges [OF more.prems(1) more.hyps(2)] by blast
qed

subsection \<open>The label values of the request counter\<close>

definition known_paths :: "api_config \<Rightarrow> string set" where
  "known_paths cfg = insert unmatchedRoutePattern (snd ` set (routes cfg))"

lemma route_known: "routePattern (Pattern cfg rq) \<in> known_paths cfg"
proof (cases "matched_route cfg rq")
  case (Some r)
  then show ?thesis using matched_route_path [of cfg rq "fst r" "snd r"]
    by (auto simp: routePattern_Pattern known_paths_def split: prod.split intro: rev_image_eqI)
qed (simp add: routePattern_Pattern known_paths_def)

definition paths_known :: "'m prom \<Rightarrow> ('m, 'r) server \<Rightarrow> bool" where
  "paths_known P s \<longleftrightarrow> (\<forall>path method code. series P (sMetrics s) http_requests_metric [path, method, code] \<noteq> None
      \<longrightarrow> path \<in> known_paths (sCfg s))"

lemma effect_http_series:
  assumes "effect P s s'" "prometheus P"
  shows "series P (sMetrics s') http_requests_metric js = series P (sMetrics s) http_requests_metric js"
  using assms(1) by cases
    (simp_all add: syncMetrics_def SetReady_def Let_def prometheus.series_SetHealth [OF assms(2)]
      prometheus.series_ObserveWork [OF assms(2)])

lemma reachable_paths:
  "reachable E s0 s \<Longrightarrow> env_ok E \<Longrightarrow> started E s0 \<Longrightarrow> paths_known (eProm E) s"
proof (induction rule: reachable.induct)
  case start
  note P = env_okD(1) [OF start(1)]
  show ?case using start(2)
    by (auto simp: started_def paths_known_def New_def NewMetrics_def Outcomes_def
        prometheus.series_touch [OF P] prometheus.series_set [OF P])
next
  case (more s s')
  note P = env_okD(1) [OF more.prems(1)]
  from more.hyps(2) show ?case
  proof cases
    case (request rq)
    obtain s1 c where e: "effect (eProm E) s s1"
      "s' = account (eProm E) (routePattern (Pattern (sCfg s) rq)) rq c s1"
      using serve_effect [OF more.prems(1), of s rq] request by metis
    then show ?thesis using more effect_http_series [OF e(1) P] effect_sCfg [OF e(1)] route_known [of "sCfg s" rq]
      by (auto simp: paths_known_def prometheus.series_ObserveHTTP [OF P] split: if_splits)
  next
    case (refresh t1 t2)
    then show ?thesis using more
      by (simp add: paths_known_def syncMetrics_def prometheus.series_SetHealth [OF P])
  next
    case (shutdown t1 t2)
    then show ?thesis using more
      by (simp add: paths_known_def syncMetrics_def SetReady_def Let_def prometheus.series_SetHealth [OF P])
  qed
qed

section \<open>A concrete environment\<close>

text \<open>A registry as a finite map, a counting generator and a text exposition.\<close>

definition counter_rand :: "nat rand_src" where
  "counter_rand =
     \<lparr>Int63n = (\<lambda>n g. if sint n \<le> 0 then None else Some (word_of_int (int g mod sint n), Suc g)),
      Float64 = (\<lambda>g. (Fin (of_nat (g mod 1024) / 1024), Suc g))\<rparr>"

interpretation counter: go_rand counter_rand
proof unfold_locales
  fix n :: i64 and g :: nat
  assume n: "0 < sint n"
  let ?v = "int g mod sint n"
  have "0 \<le> ?v" "?v < sint n" using n by simp_all
  moreover from this have "sint (word_of_int ?v :: i64) = ?v"
    using sint_i64_upper [of n] by (intro sint_word_of_int_i64) simp_all
  ultimately show "\<exists>v g'. Int63n counter_rand n g = Some (v, g') \<and> 0 \<le> sint v \<and> sint v < sint n"
    using n by (simp add: counter_rand_def)
next
  fix g :: nat
  have "(of_nat (g mod 1024) :: rat) / 1024 < 1" by simp
  then show "\<exists>q g'. Float64 counter_rand g = (Fin q, g') \<and> 0 \<le> q \<and> q < 1"
    by (intro exI [of _ "of_nat (g mod 1024) / 1024"]) (simp add: counter_rand_def)
qed (simp add: counter_rand_def)

definition demo_env :: "(registry, nat) api_env" where
  "demo_env = \<lparr>eProm = map_prom, eRand = counter_rand, ePromhttp = (\<lambda>_. (200, [])), eRedirect = 301\<rparr>"

lemma demo_env_ok: "env_ok demo_env"
  by (simp add: env_ok_def demo_env_def map_registry.prometheus_axioms counter.go_rand_axioms)

definition demo_config :: api_config where
  "demo_config =
     \<lparr>cPlantName = ''fern'', cSpecies = ''monstera'', cLatencyBudget = 300000000, cWorkErrorRate = Fin (1 / 64),
      cWorkMinDelay = 10000000, cWorkMaxDelay = 250000000, cEnableChaosEndpoints = False,
      cHealthRefreshInterval = 15000000000\<rparr>"

definition demo_server :: "(registry, nat) server" where
  "demo_server = New demo_config
     (NewMetrics map_prom \<lparr>bVersion = ''dev'', bCommit = ''none'', bGoVersion = ''go1.26''\<rparr> (\<lambda>_ _. None)) 0 0"

lemma demo_started: "started demo_env demo_server"
  unfolding started_def demo_server_def
  by (intro exI conjI) (auto simp: demo_env_def map_prom_def)

section \<open>Properties\<close>

text \<open>In every state of the server the liveness probe answers 200, whatever the
  readiness, the score or the configuration; the readiness probe answers 200 exactly when the
  server is ready and 503 otherwise; and neither probe changes the readiness, the window, or the
  configuration.\<close>

theorem probes_answer:
  "snd (serve E (get_request ''/healthz'' ts) s) = (200, [StatusBody ''ok'']) \<and>
   snd (serve E (get_request ''/readyz'' ts) s) =
     (if sReady s then (200, [StatusBody ''ready'']) else (503, [StatusBody ''not ready''])) \<and>
   (\<forall>p \<in> {''/healthz'', ''/readyz''}. let s' = fst (serve E (get_request p ts) s) in
      sReady s' = sReady s \<and> sWork s' = sWork s \<and> sCfg s' = sCfg s)"
proof -
  have h: "mux_serve E (get_request ''/healthz'' ts) (s, fresh) = (s, wrote 200 [StatusBody ''ok''], False)"
    by (simp add: mux_serve_def matched_get route_handler_def healthzHandler_def writeJSON_fresh finished_def)
  have r: "mux_serve E (get_request ''/readyz'' ts) (s, fresh) =
      (s, (if sReady s then wrote 200 [StatusBody ''ready''] else wrote 503 [StatusBody ''not ready'']), False)"
    by (simp add: mux_serve_def matched_get route_handler_def readyzHandler_def writeJSON_fresh finished_def)
  note h = serve_finished [OF h]
  show ?thesis
  proof (cases "sReady s")
    case True
    with r have "mux_serve E (get_request ''/readyz'' ts) (s, fresh) = (s, wrote 200 [StatusBody ''ready''], False)"
      by simp
    from serve_finished [OF this] show ?thesis using h True by simp
  next
    case False
    with r have "mux_serve E (get_request ''/readyz'' ts) (s, fresh) = (s, wrote 503 [StatusBody ''not ready''], False)"
      by simp
    from serve_finished [OF this] show ?thesis using h False by simp
  qed
qed

theorem probes_answer_witness:
  "snd (serve demo_env (get_request ''/readyz'' (0, 0)) (SetReady map_prom 0 0 False demo_server)) =
     (503, [StatusBody ''not ready''])"
  using probes_answer [of demo_env "(0, 0)" "SetReady map_prom 0 0 False demo_server"] by simp

text \<open>C10: A started server whose operations do not overlap: requests, refresher ticks and the
  shutdown come in any order, but each is finished before another touches the flag, the window or the
  gauges (the theory Interleave shows what overlapping ones do, where this can fail). In every such run the
  exported gauges either have not been set since the start (ready at 0, no mood series at all, on a
  server that is in fact ready) or agree with the server: buddy_ready is what /readyz answers and
  exactly one of the six moods is at 1. Once they agree they agree after every further such step, and one
  tick of the refresher is enough to get there.\<close>

theorem gauges_agree:
  assumes "env_ok E" "started E s0" "reachable E s0 s" "step E s s'"
  shows "(gauges_synced (eProm E) s \<or> gauges_unset (eProm E) s) \<and>
    (gauges_synced (eProm E) s \<longrightarrow> gauges_synced (eProm E) s') \<and>
    gauges_synced (eProm E) (syncMetrics (eProm E) (currentReport t1 t2 s) s)"
  using reachable_gauges [OF assms(3,1,2)] step_gauges [OF assms(1,4)]
    synced_syncMetrics [OF env_okD(1) [OF assms(1)] report_ready report_mood, of t1 t2 s]
  by blast

theorem gauges_agree_witness:
  "gauges_synced map_prom (syncMetrics map_prom (currentReport 5 6 demo_server) demo_server)"
  using gauges_agree [OF demo_env_ok demo_started reachable.start step.shutdown, of 5 6]
  by (simp add: demo_env_def)

text \<open>However many requests of whatever paths a server answers, the path label
  of buddy_http_requests_total only takes the registered routes of its configuration and the
  placeholder for unmatched requests, at most seven values; the chaos route is one of them only
  when chaos endpoints are enabled.\<close>

theorem route_labels_bounded:
  assumes "env_ok E" "started E s0" "reachable E s0 s"
    "series (eProm E) (sMetrics s) http_requests_metric [path, method, code] \<noteq> None"
  shows "path \<in> {''unmatched'', ''/healthz'', ''/readyz'', ''/status'', ''/work'', ''/metrics''} \<or>
    path = ''/chaos/readiness'' \<and> cEnableChaosEndpoints (sCfg s0)"
proof -
  have "path \<in> known_paths (sCfg s)"
    using reachable_paths [OF assms(3,1,2)] assms(4) unfolding paths_known_def by blast
  then show ?thesis using reachable_sCfg [OF assms(3,1)]
    by (cases "cEnableChaosEndpoints (sCfg s0)")
      (auto simp: known_paths_def routes_def unmatchedRoutePattern_def)
qed


theorem route_labels_bounded_witness:
  "series map_prom (sMetrics (fst (serve demo_env (get_request ''/healthz'' (0, 0)) demo_server)))
     http_requests_metric [''/healthz'', ''GET'', ''200''] \<noteq> None \<and>
   (''/healthz'' \<in> {''unmatched'', ''/healthz'', ''/readyz'', ''/status'', ''/work'', ''/metrics''} \<or>
    ''/healthz'' = ''/chaos/readiness'' \<and> cEnableChaosEndpoints (sCfg demo_server))"
proof -
  let ?rq = "get_request ''/healthz'' (0, 0)"
  have r: "reachable demo_env demo_server (fst (serve demo_env ?rq demo_server))" by (rule more [OF start request])
  have h: "mux_serve demo_env ?rq (demo_server, fresh) = (demo_server, wrote 200 [StatusBody ''ok''], False)"
    by (simp add: mux_serve_def matched_get route_handler_def healthzHandler_def writeJSON_fresh finished_def)
  have s: "fst (serve demo_env ?rq demo_server) = account map_prom ''/healthz'' ?rq 200 demo_server"
    by (simp only: serve_finished [OF h] fst_conv) (simp add: routePattern_Pattern matched_get demo_env_def)
  have v: "series map_prom (sMetrics (account map_prom ''/healthz'' ?rq 200 demo_server))
      http_requests_metric [''/healthz'', ''GET'', ''200''] \<noteq> None"
    by (simp add: map_registry.series_ObserveHTTP itoa_def dec_eval)
  then have "series (eProm demo_env) (sMetrics (fst (serve demo_env ?rq demo_server)))
      http_requests_metric [''/healthz'', ''GET'', ''200''] \<noteq> None"
    unfolding s by (simp add: demo_env_def)
  from route_labels_bounded [OF demo_env_ok demo_started r this] show ?thesis using v unfolding s by blast
qed

text \<open>The method label has no such bound: a request for a path no route has
  counts under whatever method token its client chose, with code 404, so two requests that differ
  only in an invented method leave two series.\<close>

theorem method_label_unbounded:
  assumes "prometheus (eProm E)" "rqPath rq \<notin> snd ` set (routes (sCfg s))" "rqClean rq" "\<not> rqStar rq"
  shows "series (eProm E) (sMetrics (fst (serve E rq s))) http_requests_metric
           [''unmatched'', rqMethod rq, ''404''] \<noteq> None"
proof -
  have n: "matched_route (sCfg s) rq = None"
    using assms(2) by (cases "matched_route (sCfg s) rq")
      (auto dest!: matched_route_path intro: rev_image_eqI)
  have p: "\<not> (\<exists>(pm, p) \<in> set (routes (sCfg s)). p = rqPath rq)"
    using assms(2) by (auto intro: rev_image_eqI)
  have "mux_serve E rq (s, fresh) = (s, wrote 404 [TextBody ''404 page not found''], False)"
    using assms(3,4) n p by (simp add: mux_serve_def http_error_def write_fresh finished_def Let_def)
  from serve_finished [OF this] show ?thesis
    by (simp add: prometheus.series_ObserveHTTP [OF assms(1)] routePattern_Pattern n
        unmatchedRoutePattern_def itoa_def dec_eval)
qed

theorem method_label_unbounded_witness:
  "series map_prom (sMetrics (fst (serve demo_env
     ((get_request ''/x'' (0, 0))\<lparr>rqMethod := ''MADE-UP''\<rparr>) demo_server)))
     http_requests_metric [''unmatched'', ''MADE-UP'', ''404''] \<noteq> None"
proof -
  let ?rq = "(get_request ''/x'' (0, 0))\<lparr>rqMethod := ''MADE-UP''\<rparr>"
  have "rqPath ?rq \<notin> snd ` set (routes (sCfg demo_server))" "rqClean ?rq" "\<not> rqStar ?rq"
    by (simp_all add: get_request_def routes_def demo_server_def New_def demo_config_def)
  from method_label_unbounded [OF env_okD(1) [OF demo_env_ok] this] show ?thesis
    by (simp add: demo_env_def get_request_def)
qed

text \<open>Without the chaos endpoints in the configuration no request, whatever its method,
  path and body, changes the readiness of a server, and the chaos path is answered like a path
  that does not exist.\<close>

theorem chaos_gated:
  assumes "env_ok E" "\<not> cEnableChaosEndpoints (sCfg s)"
  shows "sReady (fst (serve E rq s)) = sReady s \<and>
    (rqPath rq = ''/chaos/readiness'' \<and> rqClean rq \<and> \<not> rqStar rq \<longrightarrow>
       snd (serve E rq s) = (404, [TextBody ''404 page not found'']))"
proof
  obtain s1 c where "effect (eProm E) s s1"
    "fst (serve E rq s) = account (eProm E) (routePattern (Pattern (sCfg s) rq)) rq c s1"
    using serve_effect [OF assms(1), of s rq] by metis
  then show "sReady (fst (serve E rq s)) = sReady s" using assms(2)
    by (auto elim!: effect_cases)
  show "rqPath rq = ''/chaos/readiness'' \<and> rqClean rq \<and> \<not> rqStar rq \<longrightarrow>
      snd (serve E rq s) = (404, [TextBody ''404 page not found''])"
  proof
    assume h: "rqPath rq = ''/chaos/readiness'' \<and> rqClean rq \<and> \<not> rqStar rq"
    have n: "matched_route (sCfg s) rq = None" using h assms(2)
      by (simp add: matched_route_def routes_def)
    have "mux_serve E rq (s, fresh) = (s, wrote 404 [TextBody ''404 page not found''], False)"
      using h n assms(2) by (simp add: mux_serve_def http_error_def write_fresh finished_def Let_def routes_def)
    from serve_finished [OF this] show "snd (serve E rq s) = (404, [TextBody ''404 page not found''])" by simp
  qed
qed

theorem chaos_gated_witness:
  "snd (serve demo_env ((get_request ''/chaos/readiness'' (0, 0))\<lparr>rqMethod := ''POST'', rqDecoded := Some False\<rparr>)
     demo_server) = (404, [TextBody ''404 page not found''])"
  using chaos_gated [OF demo_env_ok, of demo_server
      "(get_request ''/chaos/readiness'' (0, 0))\<lparr>rqMethod := ''POST'', rqDecoded := Some False\<rparr>"]
  by (simp add: demo_server_def New_def demo_config_def get_request_def)

text \<open>C40: The simulated delay of /work: with the bounds in order it is never below the minimum
  nor above the maximum; with inverted or equal bounds it is the configured minimum, and no random number
  is drawn. Sampling panics exactly when the
  distance of the bounds is 2^63 - 1 nanoseconds or more, where the span plus one wraps around
  to a number that is not positive.\<close>

theorem delay_range:
  assumes "go_rand R"
  shows "(randomWorkDelay R cfg g = None \<longleftrightarrow>
      2 ^ 63 - 1 \<le> sint (cWorkMaxDelay cfg) - sint (cWorkMinDelay cfg)) \<and>
    (\<forall>d g'. randomWorkDelay R cfg g = Some (d, g') \<longrightarrow>
      (if sle (cWorkMaxDelay cfg) (cWorkMinDelay cfg) then d = cWorkMinDelay cfg \<and> g' = g
       else sle (cWorkMinDelay cfg) d \<and> sle d (cWorkMaxDelay cfg)))"
proof -
  let ?lo = "cWorkMinDelay cfg" and ?hi = "cWorkMaxDelay cfg"
  let ?n = "?hi - ?lo + 1"
  note b = sint_i64_lower [of ?lo] sint_i64_upper [of ?hi]
  consider (inv) "sle ?hi ?lo"
    | (ok) "slt ?lo ?hi" "sint ?hi - sint ?lo < 2 ^ 63 - 1"
    | (wide) "2 ^ 63 - 1 \<le> sint ?hi - sint ?lo" by linarith
  then show ?thesis
  proof cases
    case inv
    then show ?thesis by (auto simp: randomWorkDelay_def)
  next
    case ok
    have d: "sint (?hi - ?lo) = sint ?hi - sint ?lo"
      using ok by (intro sint_diff_i64) simp_all
    have n: "sint ?n = sint ?hi - sint ?lo + 1"
      using ok sint_add_i64 [of "?hi - ?lo" 1] by (simp add: d)
    obtain v g' where v: "Int63n R ?n g = Some (v, g')" "0 \<le> sint v" "sint v < sint ?n"
      using go_rand.Int63n_range [OF assms, of ?n g] ok n by auto
    have "sint (?lo + v) = sint ?lo + sint v"
      using v n b ok by (intro sint_add_i64) linarith+
    then show ?thesis using ok v n by (simp add: randomWorkDelay_def Let_def)
  next
    case wide
    have e: "?n = word_of_int (sint ?hi - sint ?lo + 1 - 2 ^ 64)"
      by (simp only: word_of_int_wrap_i64) simp
    have "sint (word_of_int (sint ?hi - sint ?lo + 1 - 2 ^ 64) :: i64) = sint ?hi - sint ?lo + 1 - 2 ^ 64"
      using wide b by (intro sint_word_of_int_i64) simp_all
    then have n: "sint ?n = sint ?hi - sint ?lo + 1 - 2 ^ 64" by (simp only: e)
    have "sint ?n \<le> 0" unfolding n using wide b by simp
    then have "Int63n R ?n g = None" by (rule go_rand.Int63n_panics [OF assms])
    then show ?thesis using wide by (simp add: randomWorkDelay_def Let_def)
  qed
qed

theorem delay_range_witness:
  "randomWorkDelay counter_rand demo_config 7 \<noteq> None \<and>
   randomWorkDelay counter_rand (demo_config\<lparr>cWorkMinDelay := 0, cWorkMaxDelay := 9223372036854775807\<rparr>) 7 = None"
  using delay_range [OF counter.go_rand_axioms, of demo_config 7]
    delay_range [OF counter.go_rand_axioms,
      of "demo_config\<lparr>cWorkMinDelay := 0, cWorkMaxDelay := 9223372036854775807\<rparr>" 7]
  by (simp add: demo_config_def)

text \<open>The outcome of a /work request is one of the three of the metrics
  vocabulary; its status is 500 for a failure and 200 otherwise; a failure takes priority over a
  warning; a rate of 0 never fails and a rate of 1 always does; and without a positive budget
  nothing is a warning.\<close>

theorem outcome_priority:
  assumes "go_rand R"
  shows "(let ((out, st), g') = sampleWorkOutcome R cfg d g; roll = fst (Float64 R g) in
     out \<in> set Outcomes \<and> (st = 500 \<longleftrightarrow> out = OutcomeFailure) \<and> (st = 200 \<longleftrightarrow> out \<noteq> OutcomeFailure) \<and>
     (out = OutcomeFailure \<longleftrightarrow> flt roll (cWorkErrorRate cfg)) \<and>
     (out = OutcomeWarning \<longleftrightarrow> \<not> flt roll (cWorkErrorRate cfg) \<and>
        slt 0 (cLatencyBudget cfg) \<and> slt (cLatencyBudget cfg) d) \<and>
     (cWorkErrorRate cfg = Fin 0 \<longrightarrow> out \<noteq> OutcomeFailure) \<and>
     (cWorkErrorRate cfg = Fin 1 \<longrightarrow> out = OutcomeFailure))"
proof -
  obtain q g' where f: "Float64 R g = (Fin q, g')" "0 \<le> q" "q < 1"
    using go_rand.Float64_range [OF assms, of g] by blast
  let ?w = "slt 0 (cLatencyBudget cfg) \<and> slt (cLatencyBudget cfg) d"
  have v: "OutcomeFailure \<noteq> OutcomeWarning" "OutcomeFailure \<noteq> OutcomeSuccess" "OutcomeWarning \<noteq> OutcomeSuccess"
    by (simp_all add: outcome_defs)
  show ?thesis
  proof (cases "flt (Fin q) (cWorkErrorRate cfg)")
    case True
    then show ?thesis using f v by (auto simp: sampleWorkOutcome_def Outcomes_def)
  next
    case False
    then show ?thesis using f v by (cases ?w) (auto simp: sampleWorkOutcome_def Outcomes_def)
  qed
qed

theorem outcome_priority_witness:
  "fst (sampleWorkOutcome counter_rand (demo_config\<lparr>cWorkErrorRate := Fin 1\<rparr>) 400000000 7) = (OutcomeFailure, 500)"
  using outcome_priority [OF counter.go_rand_axioms, of "demo_config\<lparr>cWorkErrorRate := Fin 1\<rparr>" 400000000 7]
  by (auto simp: Let_def split: prod.splits)

text \<open>A /work request whose delay is drawn answers with the sampled outcome, its
  status and its message, and before that it has put the same delay and outcome into the rolling
  window and into the work metrics: the three never disagree, and the readiness is untouched. A
  request whose sampling panics is answered 500 and records nothing.\<close>

theorem work_recorded:
  "(\<forall>d g1 out st g2. randomWorkDelay (eRand E) (sCfg s) (sRand s) = Some (d, g1) \<longrightarrow>
      sampleWorkOutcome (eRand E) (sCfg s) d g1 = ((out, st), g2) \<longrightarrow>
      (case serve E (get_request ''/work'' ts) s of (s', st', bs) \<Rightarrow>
         st' = st \<and> bs = [WorkResponse out (milliseconds d) (workMessage out d (cLatencyBudget (sCfg s)))] \<and>
         sWork s' = observe d (out = OutcomeFailure) (sWork s) \<and>
         sMetrics s' = ObserveHTTP (eProm E) ''/work'' ''GET'' st (ObserveWork (eProm E) out d (sMetrics s)) \<and>
         sRand s' = g2 \<and> sReady s' = sReady s)) \<and>
   (randomWorkDelay (eRand E) (sCfg s) (sRand s) = None \<longrightarrow>
      (case serve E (get_request ''/work'' ts) s of (s', st', bs) \<Rightarrow>
         st' = 500 \<and> bs = [StatusBody ''internal error''] \<and> sWork s' = sWork s \<and> sReady s' = sReady s \<and>
         sMetrics s' = ObserveHTTP (eProm E) ''/work'' ''GET'' 500 (sMetrics s)))"
proof (intro conjI allI impI)
  have m: "mux_serve E (get_request ''/work'' ts) (s, fresh) = workHandler (eProm E) (eRand E) (s, fresh)"
    by (simp add: mux_serve_def matched_get route_handler_def)
  {
    fix d g1 out st g2
    assume r: "randomWorkDelay (eRand E) (sCfg s) (sRand s) = Some (d, g1)"
      and o: "sampleWorkOutcome (eRand E) (sCfg s) d g1 = ((out, st), g2)"
    have "\<not> informational st"
      using o by (auto simp: sampleWorkOutcome_def Let_def split: prod.splits if_splits)
    then have h: "mux_serve E (get_request ''/work'' ts) (s, fresh) =
        (s\<lparr>sRand := g2, sWork := observe d (out = OutcomeFailure) (sWork s),
           sMetrics := ObserveWork (eProm E) out d (sMetrics s)\<rparr>,
         wrote st [WorkResponse out (milliseconds d) (workMessage out d (cLatencyBudget (sCfg s)))], False)"
      using r o by (simp add: m workHandler_def writeJSON_fresh finished_def)
    show "case serve E (get_request ''/work'' ts) s of (s', st', bs) \<Rightarrow>
         st' = st \<and> bs = [WorkResponse out (milliseconds d) (workMessage out d (cLatencyBudget (sCfg s)))] \<and>
         sWork s' = observe d (out = OutcomeFailure) (sWork s) \<and>
         sMetrics s' = ObserveHTTP (eProm E) ''/work'' ''GET'' st (ObserveWork (eProm E) out d (sMetrics s)) \<and>
         sRand s' = g2 \<and> sReady s' = sReady s"
      by (simp add: serve_finished [OF h] routePattern_Pattern matched_get)
  next
    assume "randomWorkDelay (eRand E) (sCfg s) (sRand s) = None"
    then have h: "mux_serve E (get_request ''/work'' ts) (s, fresh) = (s, fresh, True)"
      by (simp add: m workHandler_def)
    show "case serve E (get_request ''/work'' ts) s of (s', st', bs) \<Rightarrow>
         st' = 500 \<and> bs = [StatusBody ''internal error''] \<and> sWork s' = sWork s \<and> sReady s' = sReady s \<and>
         sMetrics s' = ObserveHTTP (eProm E) ''/work'' ''GET'' 500 (sMetrics s)"
      by (simp add: serve_panicked [OF h] routePattern_Pattern matched_get)
  }
qed


theorem work_recorded_witness:
  "fst (snd (serve demo_env (get_request ''/work'' (0, 0))
     (demo_server\<lparr>sCfg := demo_config\<lparr>cWorkMinDelay := 0, cWorkMaxDelay := 9223372036854775807\<rparr>\<rparr>))) = 500"
proof -
  let ?s = "demo_server\<lparr>sCfg := demo_config\<lparr>cWorkMinDelay := 0, cWorkMaxDelay := 9223372036854775807\<rparr>\<rparr>"
  have "randomWorkDelay (eRand demo_env) (sCfg ?s) (sRand ?s) = None"
    by (simp add: randomWorkDelay_def demo_env_def counter_rand_def)
  then show ?thesis using work_recorded [of demo_env ?s "(0, 0)"] by (auto split: prod.splits)
qed

section \<open>The log\<close>

fun request_line :: "log_line \<Rightarrow> bool" where
  "request_line (HttpRequest _ _ _ _ _ _ _) = True"
| "request_line _ = False"

text \<open>The log grows by lines of which none is that of a request.\<close>

definition more_log :: "('m, 'r) server \<Rightarrow> ('m, 'r) server \<Rightarrow> bool" where
  "more_log s s' \<longleftrightarrow> (\<exists>ls. sLog s' = sLog s @ ls \<and> filter request_line ls = [])"

lemma more_log_same: "sLog s' = sLog s \<Longrightarrow> more_log s s'"
  by (simp add: more_log_def)

lemma more_log_add: "more_log s s1 \<Longrightarrow> \<not> request_line l \<Longrightarrow> sLog s' = sLog s1 @ [l] \<Longrightarrow> more_log s s'"
  by (auto simp: more_log_def)

lemma more_log_writeJSON:
  assumes "more_log s s1" "finished (writeJSON c b (s1, w)) = (s', w', p)"
  shows "more_log s s'"
  using assms more_log_add [OF assms(1), of EncodeFailed s']
  by (auto simp: finished_def writeJSON_def more_log_def Let_def split: if_splits)

lemma log_sync [simp]: "sLog (syncMetrics P r s) = sLog s" "sLog (SetReady P t1 t2 b s) = sLog s"
  by (simp_all add: syncMetrics_def SetReady_def Let_def)

lemma mux_log:
  assumes m: "mux_serve E rq (s, w) = (s', w', p)"
  shows "more_log s s'"
proof (cases rule: mux_cases [of E rq "(s, w)"])
  case readyz
  obtain c b where "finished (writeJSON c b (s, w)) = (s', w', p)"
    using m readyz by (cases "sReady s") (simp_all add: readyzHandler_def)
  then show ?thesis by (rule more_log_writeJSON [OF more_log_same [OF refl]])
next
  case work
  show ?thesis
  proof (cases "randomWorkDelay (eRand E) (sCfg s) (sRand s)")
    case (Some x)
    obtain d g where x: "x = (d, g)" by (cases x)
    obtain out st g2 where o: "sampleWorkOutcome (eRand E) (sCfg s) d g = ((out, st), g2)"
      by (metis prod.exhaust)
    let ?s1 = "s\<lparr>sRand := g2, sWork := observe d (out = OutcomeFailure) (sWork s),
      sMetrics := ObserveWork (eProm E) out d (sMetrics s)\<rparr>"
    have "more_log s ?s1" by (rule more_log_same) simp
    moreover have "finished (writeJSON st (WorkResponse out (milliseconds d)
        (workMessage out d (cLatencyBudget (sCfg s)))) (?s1, w)) = (s', w', p)"
      using m Some x o by (simp add: work workHandler_def)
    ultimately show ?thesis by (rule more_log_writeJSON)
  qed (use m work in \<open>auto simp: workHandler_def more_log_same\<close>)
next
  case chaos
  have o: "more_log s (s\<^sub>1\<lparr>sLog := sLog s\<^sub>1 @ [ReadinessOverridden b]\<rparr>)"
    if "s\<^sub>1 = SetReady (eProm E) t1 t2 b s" for s\<^sub>1 t1 t2 b
    using that by (auto simp: more_log_def)
  show ?thesis
  proof (cases "rqDecoded rq")
    case None
    then show ?thesis using m chaos
      by (auto simp: chaosReadinessHandler_def intro: more_log_writeJSON [OF more_log_same])
  next
    case (Some b)
    show ?thesis
      using m [unfolded chaos chaosReadinessHandler_def prod.case Some option.case Let_def]
      by (rule more_log_writeJSON [OF o [OF refl]])
  qed
qed (use m in \<open>auto simp: finished_def redirect_def http_error_def healthzHandler_def statusHandler_def
    promhttpHandler_def Let_def more_log_same intro: more_log_writeJSON [rotated] split: prod.splits\<close>)

lemma routePattern_known:
  "routePattern (Pattern cfg rq) \<in> insert unmatchedRoutePattern (snd ` set (routes cfg))"
  by (cases "matched_route cfg rq") (auto simp: routePattern_Pattern dest!: matched_route_path intro: rev_image_eqI)

lemma milliseconds_pos: "0 \<le> sint d \<Longrightarrow> 0 \<le> sint (milliseconds d)"
proof -
  assume d: "0 \<le> sint d"
  have "sgn (sint d) * (\<bar>sint d\<bar> div 1000000) = sint d div 1000000" using d by (cases "sint d = 0") auto
  moreover have "sint (word_of_int (sint d div 1000000) :: i64) = sint d div 1000000"
    using d sint_i64_upper [of d] by (intro sint_word_of_int_i64) (simp_all add: pos_imp_zdiv_nonneg_iff)
  ultimately show ?thesis using d unfolding milliseconds_def by (simp only: pos_imp_zdiv_nonneg_iff)
qed

lemma time_sub_pos: "u \<le> t \<Longrightarrow> 0 \<le> sint (time_sub t u)"
  unfolding time_sub_def by (subst sint_word_of_int_i64) auto

text \<open>C29: Every request, whatever its handler does and even when it panics, leaves
  exactly one request line in the log, as the last one: with the status the client received, a
  route of the fixed vocabulary, the level Debug exactly for the two probes, a duration that is not
  negative when the clock does not go back, and the request's ID. An ID drawn from working entropy
  is made of 16 lower-case hexadecimal digits, and two of them are equal only if all the drawn bytes are.\<close>

theorem request_logged:
  assumes "env_ok E"
  shows "(\<exists>ls level route ms. sLog (fst (serve E rq s)) =
      sLog s @ ls @ [HttpRequest level (newRequestID rq) (rqMethod rq) route (rqPath rq) (fst (snd (serve E rq s))) ms] \<and>
      filter request_line ls = [] \<and> route \<in> insert unmatchedRoutePattern (snd ` set (routes (sCfg s))) \<and>
      level = (if route \<in> {''/healthz'', ''/readyz''} then LevelDebug else LevelInfo) \<and>
      (fst (snd (rqClock rq)) \<le> snd (snd (rqClock rq)) \<longrightarrow> 0 \<le> sint ms)) \<and>
    (\<forall>bs. rqEntropy rq = Some bs \<longrightarrow> length bs = 8 \<longrightarrow>
      length (newRequestID rq) = 16 \<and> set (newRequestID rq) \<subseteq> set ''0123456789abcdef'' \<and>
      (\<forall>rq' cs. rqEntropy rq' = Some cs \<longrightarrow> (newRequestID rq = newRequestID rq' \<longleftrightarrow> bs = cs)))"
proof (intro conjI)
  obtain s1 c where 1: "more_log s s1" "fst (snd (serve E rq s)) = c"
    "fst (serve E rq s) = account (eProm E) (routePattern (Pattern (sCfg s) rq)) rq c s1"
  proof (cases "mux_serve E rq (s, fresh) = (s, fresh, True)")
    case True
    have "more_log s (s\<lparr>sLog := sLog s @ [PanicRecovered (rqMethod rq) (rqPath rq)]\<rparr>)" by (simp add: more_log_def)
    then show ?thesis using serve_panicked [OF True] by (intro that) simp_all
  next
    case False
    then obtain s' c bs where m: "mux_serve E rq (s, fresh) = (s', wrote c bs, False)"
      using mux_finishes [OF assms] by blast
    then show ?thesis using serve_finished [OF m] mux_log [OF m] by (intro that) simp_all
  qed
  then obtain ls where "sLog s1 = sLog s @ ls" "filter request_line ls = []" by (auto simp: more_log_def)
  then show "\<exists>ls level route ms. sLog (fst (serve E rq s)) =
      sLog s @ ls @ [HttpRequest level (newRequestID rq) (rqMethod rq) route (rqPath rq) (fst (snd (serve E rq s))) ms] \<and>
      filter request_line ls = [] \<and> route \<in> insert unmatchedRoutePattern (snd ` set (routes (sCfg s))) \<and>
      level = (if route \<in> {''/healthz'', ''/readyz''} then LevelDebug else LevelInfo) \<and>
      (fst (snd (rqClock rq)) \<le> snd (snd (rqClock rq)) \<longrightarrow> 0 \<le> sint ms)"
    using 1 routePattern_known [of "sCfg s" rq] milliseconds_pos time_sub_pos
    by (auto simp: account_def probeRoutes_def)
next
  show "\<forall>bs. rqEntropy rq = Some bs \<longrightarrow> length bs = 8 \<longrightarrow>
      length (newRequestID rq) = 16 \<and> set (newRequestID rq) \<subseteq> set ''0123456789abcdef'' \<and>
      (\<forall>rq' cs. rqEntropy rq' = Some cs \<longrightarrow> (newRequestID rq = newRequestID rq' \<longleftrightarrow> bs = cs))"
    using EncodeToString_hex by (simp add: newRequestID_def EncodeToString_length EncodeToString_inj)
qed

theorem request_logged_witness:
  "\<exists>ls level route ms. sLog (fst (serve demo_env (get_request ''/readyz'' (0, 0)) demo_server)) =
     ls @ [HttpRequest level ''0000000000000000'' ''GET'' route ''/readyz''
       (fst (snd (serve demo_env (get_request ''/readyz'' (0, 0)) demo_server))) ms] \<and> filter request_line ls = []"
proof -
  have "newRequestID (get_request ''/readyz'' (0, 0)) = ''0000000000000000''"
    by (simp add: newRequestID_def get_request_def hex_digit_def)
  moreover have "sLog demo_server = []" by (simp add: demo_server_def New_def)
  ultimately show ?thesis
    using conjunct1 [OF request_logged [OF demo_env_ok, of "get_request ''/readyz'' (0, 0)" demo_server]] by auto
qed

text \<open>In a started server's run /status always answers 200 with a report whose
  message is that of its mood, whose mood is that of its score, and whose readiness is the one
  /readyz would answer; the score is a finite number between 0 and 100, so the report has a JSON
  encoding; and after the answer the exported score, readiness and mood are those of the report.\<close>

theorem status_consistent:
  assumes "env_ok E" "started E s0" "reachable E s0 s"
  shows "\<exists>r s'. serve E (get_request ''/status'' ts) s = (s', 200, [ReportBody r]) \<and>
    rMessage r = Message (rMood r) \<and> rMood r = FromScore (rHealthScore r) \<and> rReady r = sReady s \<and>
    (\<exists>x. rHealthScore r = Fin x \<and> 0 \<le> x \<and> x \<le> 100) \<and>
    series (eProm E) (sMetrics s') health_score_metric [] = Some (rHealthScore r) \<and>
    series (eProm E) (sMetrics s') mood_metric [rMood r] = Some (Fin 1) \<and> gauges_synced (eProm E) s'"
proof -
  note P = env_okD(1) [OF assms(1)]
  note w = reachable_window [OF assms(3,1,2)]
  let ?r = "currentReport (fst ts) (snd ts) s" and ?c = "account (eProm E) ''/status'' (get_request ''/status'' ts) 200"
  have m: "mux_serve E (get_request ''/status'' ts) (s, fresh) =
      (syncMetrics (eProm E) ?r s, wrote 200 [ReportBody ?r], False)"
    by (simp add: mux_serve_def matched_get route_handler_def statusHandler_def writeJSON_fresh finished_def
        report_encodable [OF w] Let_def)
  have "serve E (get_request ''/status'' ts) s = (?c (syncMetrics (eProm E) ?r s), 200, [ReportBody ?r])"
    by (simp add: serve_finished [OF m] routePattern_Pattern matched_get)
  moreover have "rMessage ?r = Message (rMood ?r) \<and> rMood ?r = FromScore (rHealthScore ?r)"
    by (simp add: currentReport_def NewReport_def Let_def split: prod.split)
  moreover have "gauges_synced (eProm E) (?c (syncMetrics (eProm E) ?r s))"
    using synced_syncMetrics [OF P report_ready report_mood] by (simp add: account_gauges [OF P])
  moreover have "series (eProm E) (sMetrics (?c (syncMetrics (eProm E) ?r s))) health_score_metric [] = Some (rHealthScore ?r)"
    "series (eProm E) (sMetrics (?c (syncMetrics (eProm E) ?r s))) mood_metric [rMood ?r] = Some (Fin 1)"
    using report_mood [of "fst ts" "snd ts" s]
    by (simp_all add: prometheus.series_ObserveHTTP [OF P] syncMetrics_def prometheus.series_SetHealth [OF P])
  ultimately show ?thesis using report_ready report_score_Fin [OF w] by blast
qed

theorem status_consistent_witness:
  "\<exists>r s'. serve demo_env (get_request ''/status'' (5, 6)) demo_server = (s', 200, [ReportBody r]) \<and>
     gauges_synced map_prom s'"
  using status_consistent [OF demo_env_ok demo_started reachable.start, of "(5, 6)"]
  by (auto simp: demo_env_def)

section \<open>The refresher and the reach of the moods\<close>

lemma fold_sync_synced:
  assumes "prometheus P" "ts \<noteq> []"
  shows "gauges_synced P (fold (\<lambda>(t1, t2) s. syncMetrics P (currentReport t1 t2 s) s) ts s)"
proof -
  obtain ts' t1 t2 where "ts = ts' @ [(t1, t2)]" using assms(2) by (metis rev_exhaust surj_pair)
  then show ?thesis by (simp add: synced_syncMetrics [OF assms(1) report_ready report_mood])
qed

lemma fold_sync_frame:
  "sReady (fold (\<lambda>(t1, t2) s. syncMetrics P (currentReport t1 t2 s) s) ts s) = sReady s \<and>
   sWork (fold (\<lambda>(t1, t2) s. syncMetrics P (currentReport t1 t2 s) s) ts s) = sWork s"
proof (induction ts arbitrary: s)
  case (Cons t ts)
  then show ?case by (cases t) simp
qed simp

text \<open>The background refresher rejects every interval that is not positive
  with an error, without touching the server; otherwise it returns without an error once its
  context is done, has changed neither the readiness nor the window, and after at least one
  tick the gauges agree with the server, although nothing ever called /status.\<close>

theorem refresher_keeps_gauges:
  assumes "prometheus P"
  shows "(sle interval 0 \<longrightarrow> (\<exists>msg. RunHealthRefresher P interval ts s = Inl msg)) \<and>
    (slt 0 interval \<longrightarrow> (\<exists>s'. RunHealthRefresher P interval ts s = Inr s' \<and>
       sReady s' = sReady s \<and> sWork s' = sWork s \<and> (ts \<noteq> [] \<longrightarrow> gauges_synced P s')))"
  using fold_sync_synced [OF assms, of ts s] fold_sync_frame [of P ts s]
  by (simp add: RunHealthRefresher_def)

theorem refresher_keeps_gauges_witness:
  "\<exists>s'. RunHealthRefresher map_prom 15000000000 [(1, 2)] demo_server = Inr s' \<and> gauges_synced map_prom s'"
  using refresher_keeps_gauges [OF map_registry.prometheus_axioms, of 15000000000 "[(1, 2)]" demo_server] by auto

text \<open>A server of the demo configuration after the given requests.\<close>

definition server_after :: "bool \<Rightarrow> workObservation list \<Rightarrow> (registry, nat) server" where
  "server_after b xs = demo_server\<lparr>sReady := b, sWork := fold observe_obs xs empty_window\<rparr>"

lemma report_after:
  "length xs \<le> 100 \<Longrightarrow> rMood (currentReport t1 t2 (server_after b xs)) =
     FromScore (Score \<lparr>Ready = b, ErrorRate = fst (stats_of xs), P95Latency = fst (snd (stats_of xs)),
                       LatencyBudget = 300000000, RestartCount = 0\<rparr>)"
  using stats_of_run [of xs]
  by (simp add: currentReport_def NewReport_def server_after_def demo_server_def New_def demo_config_def
      lastn_short workWindowSize_def Let_def split: prod.split)

lemma stats_of_Nil: "stats_of [] = (Fin 0, 0, 0)"
  by (simp add: stats_of_def)

lemma rank_1: "nat (p95_rank (Suc 0)) = 0"
  using p95_rank_exact [of 1] by simp

lemma rank_2: "nat (p95_rank (Suc (Suc 0))) = 1"
  using p95_rank_exact [of 2] by (simp add: numeral_2_eq_2)

abbreviation obs1 :: "duration \<Rightarrow> bool \<Rightarrow> workObservation" where
  "obs1 d f \<equiv> \<lparr>duration = d, failed = f\<rparr>"

lemma stats_of_one: "stats_of [obs1 d f] = (if f then Fin 1 else Fin 0, d, 1)"
  by (simp add: stats_of_def rank_1 f64_defs f64_eval Let_def)

lemma stats_of_two: "stats_of [obs1 d True, obs1 d False] = (Fin (1 / 2), d, 2)"
  by (simp add: stats_of_def rank_2 f64_defs f64_eval Let_def)

lemmas mood_eval = Score_def errorComponent_def latencyComponent_def readinessComponent_def restartPenalty_def
  clampScore_def score_consts FromScore_def f64_defs f64_eval Let_def

text \<open>Every mood of the ladder is reported in some state that requests and the
  readiness switch lead to, under the default configuration: no mood is out of reach of the score
  the server computes from its rolling window.\<close>

theorem all_moods_reachable:
  "m \<in> set AllMoods \<Longrightarrow> \<exists>b xs. rMood (currentReport t1 t2 (server_after b xs)) = m"
proof -
  have "rMood (currentReport t1 t2 (server_after True [])) = MoodLeafy"
    by (simp add: report_after stats_of_Nil) (simp add: mood_eval)
  moreover have "rMood (currentReport t1 t2 (server_after True [obs1 100000000 False])) = MoodSprouting"
    by (simp add: report_after stats_of_one) (simp add: mood_eval)
  moreover have "rMood (currentReport t1 t2 (server_after True [obs1 300000000 False])) = MoodThirsty"
    by (simp add: report_after stats_of_one) (simp add: mood_eval)
  moreover have "rMood (currentReport t1 t2 (server_after True [obs1 300000000 True, obs1 300000000 False])) = MoodLostALeaf"
    by (simp add: report_after stats_of_two) (simp add: mood_eval)
  moreover have "rMood (currentReport t1 t2 (server_after False [])) = MoodNotTooHot"
    by (simp add: report_after stats_of_Nil) (simp add: mood_eval)
  moreover have "rMood (currentReport t1 t2 (server_after False [obs1 300000000 True])) = MoodWilting"
    by (simp add: report_after stats_of_one) (simp add: mood_eval)
  moreover assume "m \<in> set AllMoods"
  ultimately show ?thesis unfolding AllMoods_def by auto
qed

theorem all_moods_reachable_witness:
  "\<exists>b xs. rMood (currentReport 0 0 (server_after b xs)) = MoodWilting"
  using all_moods_reachable [of MoodWilting 0 0] by (simp add: AllMoods_def)

end
