(* ===== verification/BuddyConfig.thy ===== *)
theory BuddyConfig
  imports GoParse ApiServer
begin

text \<open>
  \<^verbatim>\<open>cmd/buddy-api/main.go\<close>: the configuration of the workload, read from its
  environment, and its shutdown sequence. The environment is a partial function; an error message
  is a constructor with the values it quotes.
\<close>

section \<open>The environment\<close>

datatype config_error =
    InvalidInteger string string
  | InvalidFloat string string
  | InvalidBool string string
  | InvalidDuration string string
  | PortOutOfRange i64
  | NotPositive string duration
  | Negative string duration
  | RateOutOfRange f64
  | MinAboveMax duration duration
  | InvalidLogLevel string

definition getEnv :: "environ \<Rightarrow> string \<Rightarrow> string \<Rightarrow> string" where
  "getEnv env key def = (case env key of Some v \<Rightarrow> if v \<noteq> [] then v else def | None \<Rightarrow> def)"

definition parseIntEnv :: "environ \<Rightarrow> string \<Rightarrow> i64 \<Rightarrow> config_error + i64" where
  "parseIntEnv env key def =
     (case env key of
        None \<Rightarrow> Inr def
      | Some v \<Rightarrow> if v = [] then Inr def
          else (case Atoi v of None \<Rightarrow> Inl (InvalidInteger key v) | Some n \<Rightarrow> Inr n))"

definition parseFloatEnv :: "environ \<Rightarrow> string \<Rightarrow> f64 \<Rightarrow> config_error + f64" where
  "parseFloatEnv env key def =
     (case env key of
        None \<Rightarrow> Inr def
      | Some v \<Rightarrow> if v = [] then Inr def
          else (case ParseFloat v of None \<Rightarrow> Inl (InvalidFloat key v) | Some f \<Rightarrow> Inr f))"

definition parseBoolEnv :: "environ \<Rightarrow> string \<Rightarrow> bool \<Rightarrow> config_error + bool" where
  "parseBoolEnv env key def =
     (case env key of
        None \<Rightarrow> Inr def
      | Some v \<Rightarrow> if v = [] then Inr def
          else (case parse_bool v of None \<Rightarrow> Inl (InvalidBool key v) | Some b \<Rightarrow> Inr b))"

definition parseDurationEnv :: "environ \<Rightarrow> string \<Rightarrow> duration \<Rightarrow> config_error + duration" where
  "parseDurationEnv env key def =
     (case env key of
        None \<Rightarrow> Inr def
      | Some v \<Rightarrow> if v = [] then Inr def
          else (case ParseDuration v of None \<Rightarrow> Inl (InvalidDuration key v) | Some d \<Rightarrow> Inr d))"

section \<open>The configuration\<close>

record config =
  bPlantName :: string
  bSpecies :: string
  bPort :: i64
  bLogLevel :: string
  bLatencyBudget :: duration
  bWorkErrorRate :: f64
  bWorkMinDelay :: duration
  bWorkMaxDelay :: duration
  bEnableChaosEndpoints :: bool
  bShutdownDelay :: duration
  bHealthRefreshInterval :: duration

text \<open>One check per early return, in the order of the code.\<close>

definition loadConfig :: "environ \<Rightarrow> config_error + config" where
  "loadConfig env =
     (case parseIntEnv env ''BUDDY_PORT'' 8080 of
        Inl e \<Rightarrow> Inl e
      | Inr port \<Rightarrow>
     if slt port 1 \<or> slt 65535 port then Inl (PortOutOfRange port)
     else (case parseDurationEnv env ''BUDDY_LATENCY_BUDGET'' (150 * millisecond) of
        Inl e \<Rightarrow> Inl e
      | Inr latencyBudget \<Rightarrow>
     if sle latencyBudget 0 then Inl (NotPositive ''BUDDY_LATENCY_BUDGET'' latencyBudget)
     else (case parseFloatEnv env ''BUDDY_WORK_ERROR_RATE'' (f64_of_rat (5 / 100)) of
        Inl e \<Rightarrow> Inl e
      | Inr workErrorRate \<Rightarrow>
     if flt workErrorRate (Fin 0) \<or> fgt workErrorRate (Fin 1) then Inl (RateOutOfRange workErrorRate)
     else (case parseDurationEnv env ''BUDDY_WORK_MIN_DELAY'' (10 * millisecond) of
        Inl e \<Rightarrow> Inl e
      | Inr workMinDelay \<Rightarrow>
     if slt workMinDelay 0 then Inl (Negative ''BUDDY_WORK_MIN_DELAY'' workMinDelay)
     else (case parseDurationEnv env ''BUDDY_WORK_MAX_DELAY'' (200 * millisecond) of
        Inl e \<Rightarrow> Inl e
      | Inr workMaxDelay \<Rightarrow>
     if slt workMaxDelay 0 then Inl (Negative ''BUDDY_WORK_MAX_DELAY'' workMaxDelay)
     else if slt workMaxDelay workMinDelay then Inl (MinAboveMax workMinDelay workMaxDelay)
     else (case parseBoolEnv env ''BUDDY_ENABLE_CHAOS_ENDPOINTS'' False of
        Inl e \<Rightarrow> Inl e
      | Inr enableChaosEndpoints \<Rightarrow>
     (case parseDurationEnv env ''BUDDY_SHUTDOWN_DELAY'' (5 * second) of
        Inl e \<Rightarrow> Inl e
      | Inr shutdownDelay \<Rightarrow>
     if slt shutdownDelay 0 then Inl (Negative ''BUDDY_SHUTDOWN_DELAY'' shutdownDelay)
     else (case parseDurationEnv env ''BUDDY_HEALTH_REFRESH_INTERVAL'' (5 * second) of
        Inl e \<Rightarrow> Inl e
      | Inr healthRefreshInterval \<Rightarrow>
     if sle healthRefreshInterval 0 then Inl (NotPositive ''BUDDY_HEALTH_REFRESH_INTERVAL'' healthRefreshInterval)
     else Inr
       \<lparr>bPlantName = getEnv env ''BUDDY_NAME'' ''fernie'', bSpecies = getEnv env ''BUDDY_SPECIES'' ''fern'',
        bPort = port, bLogLevel = getEnv env ''BUDDY_LOG_LEVEL'' ''info'', bLatencyBudget = latencyBudget,
        bWorkErrorRate = workErrorRate, bWorkMinDelay = workMinDelay, bWorkMaxDelay = workMaxDelay,
        bEnableChaosEndpoints = enableChaosEndpoints, bShutdownDelay = shutdownDelay,
        bHealthRefreshInterval = healthRefreshInterval\<rparr>))))))))"

definition parseLogLevel :: "string \<Rightarrow> config_error + log_level" where
  "parseLogLevel s =
     (let l = to_lower s in
      if l = ''debug'' then Inr LevelDebug
      else if l = ''info'' then Inr LevelInfo
      else if l = ''warn'' \<or> l = ''warning'' then Inr LevelWarn
      else if l = ''error'' then Inr LevelError
      else Inl (InvalidLogLevel s))"

text \<open>The configuration \<^verbatim>\<open>run\<close> hands to the server.\<close>

definition server_config :: "config \<Rightarrow> api_config" where
  "server_config cfg =
     \<lparr>cPlantName = bPlantName cfg, cSpecies = bSpecies cfg, cLatencyBudget = bLatencyBudget cfg,
      cWorkErrorRate = bWorkErrorRate cfg, cWorkMinDelay = bWorkMinDelay cfg, cWorkMaxDelay = bWorkMaxDelay cfg,
      cEnableChaosEndpoints = bEnableChaosEndpoints cfg, cHealthRefreshInterval = bHealthRefreshInterval cfg\<rparr>"

section \<open>Shutting down\<close>

definition shutdownDrainTimeout :: duration where "shutdownDrainTimeout = 15 * second"
definition serveGoroutineDrainTimeout :: duration where "serveGoroutineDrainTimeout = 2 * second"

datatype shutdown_log =
    SignalReceived
  | ReadinessDisabled
  | WaitingForEndpoints duration
  | WaitComplete
  | Draining duration
  | Drained
  | ShutdownComplete
  | StartingBuddyApi log_level config
  | ServeErrorDuringShutdown string
  | ServeGoroutineTimeout

text \<open>
  While the process sleeps or drains, requests are still served: both steps are functions on the
  server and the world. \<open>clock\<close> holds the clock readings of \<open>SetReady\<close>. A failure to
  drain is the text of its error.
\<close>

record ('m, 'r, 'w) process =
  prServer :: "('m, 'r) server"
  prWorld :: 'w
  prLog :: "shutdown_log list"

record ('m, 'r, 'w) process_env =
  peProm :: "'m prom"
  peSleep :: "duration \<Rightarrow> ('m, 'r) server \<times> 'w \<Rightarrow> ('m, 'r) server \<times> 'w"
  peShutdown :: "duration \<Rightarrow> ('m, 'r) server \<times> 'w \<Rightarrow> string option \<times> ('m, 'r) server \<times> 'w"

definition say :: "shutdown_log list \<Rightarrow> ('m, 'r, 'w) process \<Rightarrow> ('m, 'r, 'w) process" where
  "say ls p = p\<lparr>prLog := prLog p @ ls\<rparr>"

definition gracefulShutdown :: "('m, 'r, 'w) process_env \<Rightarrow> int \<times> int \<Rightarrow> duration \<Rightarrow> ('m, 'r, 'w) process
    \<Rightarrow> string option \<times> ('m, 'r, 'w) process" where
  "gracefulShutdown E clock delay p0 =
     (let p1 = say [SignalReceived] p0;
          p2 = say [ReadinessDisabled]
                 (p1\<lparr>prServer := SetReady (peProm E) (fst clock) (snd clock) False (prServer p1)\<rparr>);
          p3 = say [WaitingForEndpoints delay] p2;
          (s, w) = peSleep E delay (prServer p3, prWorld p3);
          p4 = say [WaitComplete, Draining shutdownDrainTimeout] (p3\<lparr>prServer := s, prWorld := w\<rparr>);
          (err, s', w') = peShutdown E shutdownDrainTimeout (prServer p4, prWorld p4);
          p5 = p4\<lparr>prServer := s', prWorld := w'\<rparr>
      in case err of
           Some e \<Rightarrow> (Some e, p5)
         | None \<Rightarrow> (None, say [Drained, ShutdownComplete] p5))"

section \<open>The process\<close>

text \<open>
  What happens between the start of the listener and the first event of the \<^verbatim>\<open>select\<close>
  (the listener returned, with the error that is not \<^verbatim>\<open>ErrServerClosed\<close> if there is
  one, or a signal came) is the argument \<open>serving\<close>; what the listener sends afterwards,
  if anything within the timeout, is \<open>last\<close>. A run that never got as far as the
  listener has no process.
\<close>

datatype first_event = ListenerReturned "string option" | Signalled

datatype run_error =
    LoadConfigError config_error
  | LogLevelError config_error
  | ListenAndServe string
  | GracefulShutdown string

record ('m, 'r, 'w) launch =
  laEnv :: "('m, 'r, 'w) process_env"
  laBuild :: build_info
  laRegistry :: 'm
  laRand :: 'r
  laStart :: int
  laServing :: "i64 \<Rightarrow> ('m, 'r) server \<times> 'w \<Rightarrow> first_event \<times> ('m, 'r) server \<times> 'w"
  laClock :: "int \<times> int"
  laLast :: "'w \<Rightarrow> string option option"

definition run :: "environ \<Rightarrow> ('m, 'r, 'w) launch \<Rightarrow> 'w
    \<Rightarrow> run_error option \<times> ('m, 'r, 'w) process option" where
  "run env L w =
     (case loadConfig env of
        Inl e \<Rightarrow> (Some (LoadConfigError e), None)
      | Inr cfg \<Rightarrow>
     (case parseLogLevel (bLogLevel cfg) of
        Inl e \<Rightarrow> (Some (LogLevelError e), None)
      | Inr level \<Rightarrow>
     (let metrics = NewMetrics (peProm (laEnv L)) (laBuild L) (laRegistry L);
          srv = New (server_config cfg) metrics (laRand L) (laStart L);
          (event, s, w1) = laServing L (bPort cfg) (srv, w);
          p = \<lparr>prServer = s, prWorld = w1, prLog = [StartingBuddyApi level cfg]\<rparr>
      in case event of
           ListenerReturned err \<Rightarrow> (map_option ListenAndServe err, Some p)
         | Signalled \<Rightarrow>
             (let (shutdownErr, p1) = gracefulShutdown (laEnv L) (laClock L) (bShutdownDelay cfg) p;
                  p2 = (case laLast L (prWorld p1) of
                     None \<Rightarrow> say [ServeGoroutineTimeout] p1
                   | Some None \<Rightarrow> p1
                   | Some (Some serveErr) \<Rightarrow> say [ServeErrorDuringShutdown serveErr] p1)
              in (map_option GracefulShutdown shutdownErr, Some p2)))))"

section \<open>Lemmas on the environment\<close>

lemma parse_env_unset:
  "env k = None \<or> env k = Some [] \<Longrightarrow> parseIntEnv env k i = Inr i"
  "env k = None \<or> env k = Some [] \<Longrightarrow> parseFloatEnv env k f = Inr f"
  "env k = None \<or> env k = Some [] \<Longrightarrow> parseBoolEnv env k b = Inr b"
  "env k = None \<or> env k = Some [] \<Longrightarrow> parseDurationEnv env k d = Inr d"
  by (auto simp: parseIntEnv_def parseFloatEnv_def parseBoolEnv_def parseDurationEnv_def)

lemma parse_env_set:
  "env k = Some v \<Longrightarrow> v \<noteq> [] \<Longrightarrow> parseIntEnv env k i = (case Atoi v of None \<Rightarrow> Inl (InvalidInteger k v) | Some n \<Rightarrow> Inr n)"
  "env k = Some v \<Longrightarrow> v \<noteq> [] \<Longrightarrow> parseFloatEnv env k f = (case ParseFloat v of None \<Rightarrow> Inl (InvalidFloat k v) | Some n \<Rightarrow> Inr n)"
  "env k = Some v \<Longrightarrow> v \<noteq> [] \<Longrightarrow> parseBoolEnv env k b = (case parse_bool v of None \<Rightarrow> Inl (InvalidBool k v) | Some n \<Rightarrow> Inr n)"
  "env k = Some v \<Longrightarrow> v \<noteq> [] \<Longrightarrow> parseDurationEnv env k d = (case ParseDuration v of None \<Rightarrow> Inl (InvalidDuration k v) | Some n \<Rightarrow> Inr n)"
  by (simp_all add: parseIntEnv_def parseFloatEnv_def parseBoolEnv_def parseDurationEnv_def)

section \<open>What a configuration is read from\<close>

text \<open>
  A setting is the default when its variable is unset or empty, and otherwise what the variable
  parses to.
\<close>

definition setting :: "environ \<Rightarrow> (string \<Rightarrow> 'a option) \<Rightarrow> string \<Rightarrow> 'a \<Rightarrow> 'a \<Rightarrow> bool" where
  "setting env parse key def x \<longleftrightarrow>
     (case env key of None \<Rightarrow> x = def | Some v \<Rightarrow> if v = [] then x = def else parse v = Some x)"

definition reads :: "environ \<Rightarrow> config \<Rightarrow> bool" where
  "reads env cfg \<longleftrightarrow>
     setting env Some ''BUDDY_NAME'' ''fernie'' (bPlantName cfg) \<and>
     setting env Some ''BUDDY_SPECIES'' ''fern'' (bSpecies cfg) \<and>
     setting env Atoi ''BUDDY_PORT'' 8080 (bPort cfg) \<and>
     setting env Some ''BUDDY_LOG_LEVEL'' ''info'' (bLogLevel cfg) \<and>
     setting env ParseDuration ''BUDDY_LATENCY_BUDGET'' (150 * millisecond) (bLatencyBudget cfg) \<and>
     setting env ParseFloat ''BUDDY_WORK_ERROR_RATE'' (f64_of_rat (5 / 100)) (bWorkErrorRate cfg) \<and>
     setting env ParseDuration ''BUDDY_WORK_MIN_DELAY'' (10 * millisecond) (bWorkMinDelay cfg) \<and>
     setting env ParseDuration ''BUDDY_WORK_MAX_DELAY'' (200 * millisecond) (bWorkMaxDelay cfg) \<and>
     setting env parse_bool ''BUDDY_ENABLE_CHAOS_ENDPOINTS'' False (bEnableChaosEndpoints cfg) \<and>
     setting env ParseDuration ''BUDDY_SHUTDOWN_DELAY'' (5 * second) (bShutdownDelay cfg) \<and>
     setting env ParseDuration ''BUDDY_HEALTH_REFRESH_INTERVAL'' (5 * second) (bHealthRefreshInterval cfg)"

definition admissible :: "config \<Rightarrow> bool" where
  "admissible cfg \<longleftrightarrow>
     1 \<le> sint (bPort cfg) \<and> sint (bPort cfg) \<le> 65535 \<and>
     0 < sint (bLatencyBudget cfg) \<and>
     \<not> flt (bWorkErrorRate cfg) (Fin 0) \<and> \<not> fgt (bWorkErrorRate cfg) (Fin 1) \<and>
     0 \<le> sint (bWorkMinDelay cfg) \<and> sint (bWorkMinDelay cfg) \<le> sint (bWorkMaxDelay cfg) \<and>
     0 \<le> sint (bShutdownDelay cfg) \<and> 0 < sint (bHealthRefreshInterval cfg)"

lemma parse_env_setting:
  "getEnv env k s = x \<longleftrightarrow> setting env Some k s x"
  "parseIntEnv env k i = Inr n \<longleftrightarrow> setting env Atoi k i n"
  "parseFloatEnv env k f = Inr r \<longleftrightarrow> setting env ParseFloat k f r"
  "parseBoolEnv env k b = Inr c \<longleftrightarrow> setting env parse_bool k b c"
  "parseDurationEnv env k d = Inr e \<longleftrightarrow> setting env ParseDuration k d e"
  by (auto simp: setting_def getEnv_def parseIntEnv_def parseFloatEnv_def parseBoolEnv_def parseDurationEnv_def
      split: option.splits)

lemma result_case_Inr: "(case r of Inl e \<Rightarrow> Inl e | Inr x \<Rightarrow> f x) = Inr y \<longleftrightarrow> (\<exists>x. r = Inr x \<and> f x = Inr y)"
  by (cases r) simp_all

lemma result_guard_Inr: "(if b then Inl e else r) = Inr y \<longleftrightarrow> \<not> b \<and> r = Inr y"
  by simp

lemma port_literals: "sint (0 :: i64) = 0" "sint (1 :: i64) = 1" "sint (65535 :: i64) = 65535"
  by simp_all

lemmas config_checks = reads_def admissible_def parse_env_setting(2-) parse_env_setting(1) [symmetric]
  not_less not_le de_Morgan_disj port_literals

lemma loadConfig_reads: "loadConfig env = Inr cfg \<longleftrightarrow> reads env cfg \<and> admissible cfg"
proof (cases cfg)
  case (fields n s p l b r mi ma c d h)
  have trans: "0 \<le> sint mi \<Longrightarrow> sint mi \<le> sint ma \<Longrightarrow> 0 \<le> sint ma" by (rule order_trans)
  show ?thesis
    unfolding fields loadConfig_def result_case_Inr result_guard_Inr sum.inject config.ext_inject
      config_checks config.simps
    by (rule iffI; elim exE conjE; hypsubst; intro exI conjI; (assumption | rule refl | rule trans))
qed

section \<open>Properties\<close>

text \<open>C24: The workload starts with a configuration exactly when every field is what its
  variable says (the documented default when the variable is unset or empty, never otherwise) and
  the fields are admissible: a TCP port, a positive latency budget, an error rate that is not
  outside [0,1], non-negative delays with the minimum not above the maximum, a non-negative
  shutdown delay and a positive refresh interval. No invalid value is replaced by a default.\<close>

theorem config_exact: "loadConfig env = Inr cfg \<longleftrightarrow> reads env cfg \<and> admissible cfg"
  by (rule loadConfig_reads)

lemma result_case_Inl:
  "(case r of Inl e \<Rightarrow> Inl e | Inr x \<Rightarrow> f x) = Inl y \<longleftrightarrow> r = Inl y \<or> (\<exists>x. r = Inr x \<and> f x = Inl y)"
  by (cases r) auto

lemma result_guard_Inl: "(if b then Inl e else r) = Inl y \<longleftrightarrow> b \<and> e = y \<or> \<not> b \<and> r = Inl y"
  by simp

lemma parse_env_Inl:
  "parseIntEnv env k i = Inl e \<Longrightarrow> \<exists>v. env k = Some v \<and> v \<noteq> [] \<and> e = InvalidInteger k v"
  "parseFloatEnv env k f = Inl e \<Longrightarrow> \<exists>v. env k = Some v \<and> v \<noteq> [] \<and> e = InvalidFloat k v"
  "parseBoolEnv env k b = Inl e \<Longrightarrow> \<exists>v. env k = Some v \<and> v \<noteq> [] \<and> e = InvalidBool k v"
  "parseDurationEnv env k d = Inl e \<Longrightarrow> \<exists>v. env k = Some v \<and> v \<noteq> [] \<and> e = InvalidDuration k v"
  by (auto simp: parseIntEnv_def parseFloatEnv_def parseBoolEnv_def parseDurationEnv_def
      split: option.splits if_splits)

text \<open>The variables an error message names.\<close>

fun blamed :: "config_error \<Rightarrow> string list" where
  "blamed (InvalidInteger k v) = [k]"
| "blamed (InvalidFloat k v) = [k]"
| "blamed (InvalidBool k v) = [k]"
| "blamed (InvalidDuration k v) = [k]"
| "blamed (PortOutOfRange n) = [''BUDDY_PORT'']"
| "blamed (NotPositive k d) = [k]"
| "blamed (Negative k d) = [k]"
| "blamed (RateOutOfRange r) = [''BUDDY_WORK_ERROR_RATE'']"
| "blamed (MinAboveMax a b) = [''BUDDY_WORK_MIN_DELAY'', ''BUDDY_WORK_MAX_DELAY'']"
| "blamed (InvalidLogLevel s) = [''BUDDY_LOG_LEVEL'']"

definition is_set :: "environ \<Rightarrow> string \<Rightarrow> bool" where
  "is_set env k \<longleftrightarrow> env k \<noteq> None \<and> env k \<noteq> Some []"

lemma setting_off_default: "setting env parse k d x \<Longrightarrow> x \<noteq> d \<Longrightarrow> is_set env k"
  by (auto simp: setting_def is_set_def split: option.splits)

lemma parse_env_blamed:
  "parseIntEnv env k i = Inl e \<Longrightarrow> \<exists>k \<in> set (blamed e). is_set env k"
  "parseFloatEnv env k f = Inl e \<Longrightarrow> \<exists>k \<in> set (blamed e). is_set env k"
  "parseBoolEnv env k b = Inl e \<Longrightarrow> \<exists>k \<in> set (blamed e). is_set env k"
  "parseDurationEnv env k d = Inl e \<Longrightarrow> \<exists>k \<in> set (blamed e). is_set env k"
  by (auto dest!: parse_env_Inl simp: is_set_def)

lemma off_default:
  "setting env Atoi k 8080 p \<Longrightarrow> slt p 1 \<Longrightarrow> is_set env k"
  "setting env Atoi k 8080 p \<Longrightarrow> slt 65535 p \<Longrightarrow> is_set env k"
  "setting env ParseFloat k (f64_of_rat (5 / 100)) r \<Longrightarrow> flt r (Fin 0) \<Longrightarrow> is_set env k"
  "setting env ParseFloat k (f64_of_rat (5 / 100)) r \<Longrightarrow> fgt r (Fin 1) \<Longrightarrow> is_set env k"
  "setting env ParseDuration k (150 * millisecond) d \<Longrightarrow> sle d 0 \<Longrightarrow> is_set env k"
  "setting env ParseDuration k (10 * millisecond) d \<Longrightarrow> slt d 0 \<Longrightarrow> is_set env k"
  "setting env ParseDuration k (200 * millisecond) d \<Longrightarrow> slt d 0 \<Longrightarrow> is_set env k"
  "setting env ParseDuration k (5 * second) d \<Longrightarrow> slt d 0 \<Longrightarrow> is_set env k"
  "setting env ParseDuration k (5 * second) d \<Longrightarrow> sle d 0 \<Longrightarrow> is_set env k"
  by (erule setting_off_default; force simp: f64_of_rat_def rnd_def ulp_def expo_def rne_quot_def f64_eval overflow_bound_def Let_def)+

lemma off_default_ordered:
  assumes "setting env ParseDuration k (10 * millisecond) x" "setting env ParseDuration k' (200 * millisecond) y"
    "sint y < sint x"
  shows "is_set env k \<or> is_set env k'"
  using assms setting_off_default [OF assms(1)] setting_off_default [OF assms(2)]
  by (cases "x = 10 * millisecond"; cases "y = 200 * millisecond") auto

lemma refusals:
  "setting env Atoi ''BUDDY_PORT'' 8080 p \<Longrightarrow> slt p 1 \<Longrightarrow> \<exists>k \<in> set (blamed (PortOutOfRange p)). is_set env k"
  "setting env Atoi ''BUDDY_PORT'' 8080 p \<Longrightarrow> slt 65535 p \<Longrightarrow> \<exists>k \<in> set (blamed (PortOutOfRange p)). is_set env k"
  "setting env ParseFloat ''BUDDY_WORK_ERROR_RATE'' (f64_of_rat (5 / 100)) r \<Longrightarrow> flt r (Fin 0) \<Longrightarrow>
     \<exists>k \<in> set (blamed (RateOutOfRange r)). is_set env k"
  "setting env ParseFloat ''BUDDY_WORK_ERROR_RATE'' (f64_of_rat (5 / 100)) r \<Longrightarrow> fgt r (Fin 1) \<Longrightarrow>
     \<exists>k \<in> set (blamed (RateOutOfRange r)). is_set env k"
  "setting env ParseDuration k (150 * millisecond) d \<Longrightarrow> sle d 0 \<Longrightarrow> \<exists>k \<in> set (blamed (NotPositive k d)). is_set env k"
  "setting env ParseDuration k (10 * millisecond) d \<Longrightarrow> slt d 0 \<Longrightarrow> \<exists>k \<in> set (blamed (Negative k d)). is_set env k"
  "setting env ParseDuration k (200 * millisecond) d \<Longrightarrow> slt d 0 \<Longrightarrow> \<exists>k \<in> set (blamed (Negative k d)). is_set env k"
  "setting env ParseDuration k (5 * second) d \<Longrightarrow> slt d 0 \<Longrightarrow> \<exists>k \<in> set (blamed (Negative k d)). is_set env k"
  "setting env ParseDuration k (5 * second) d \<Longrightarrow> sle d 0 \<Longrightarrow> \<exists>k \<in> set (blamed (NotPositive k d)). is_set env k"
  unfolding blamed.simps list.set insert_iff bex_simps
  by (rule disjI1, erule (1) off_default)+

lemma refusal_ordered:
  "setting env ParseDuration ''BUDDY_WORK_MIN_DELAY'' (10 * millisecond) x \<Longrightarrow>
   setting env ParseDuration ''BUDDY_WORK_MAX_DELAY'' (200 * millisecond) y \<Longrightarrow> slt y x \<Longrightarrow>
     \<exists>k \<in> set (blamed (MinAboveMax x y)). is_set env k"
  using off_default_ordered [of env _ x _ y] by simp

text \<open>A refusal to start always names a variable that is set: no combination of unset
  variables is an error, and the message of a refusal is about something its reader wrote.\<close>

theorem refusal_named: "loadConfig env = Inl e \<Longrightarrow> \<exists>k \<in> set (blamed e). is_set env k"
  unfolding loadConfig_def result_case_Inl result_guard_Inl parse_env_setting
  by (elim disjE exE conjE; (erule parse_env_blamed | erule sum.distinct [THEN notE] |
      (hypsubst, (erule (1) refusals | erule (2) refusal_ordered))))

theorem refusal_named_witness:
  "\<exists>k \<in> set (blamed (PortOutOfRange 0)). is_set [''BUDDY_PORT'' \<mapsto> ''0''] k"
proof (rule refusal_named)
  have "Atoi ''0'' = Some 0" by (simp add: Atoi_def split_sign_def is_digit_def digit_val_def)
  then show "loadConfig [''BUDDY_PORT'' \<mapsto> ''0''] = Inl (PortOutOfRange 0)"
    by (simp add: loadConfig_def parse_env_set)
qed

section \<open>The shutdown sequence\<close>

text \<open>
  What happens to a server while the process waits: requests, ticks of the refresher, and late writes. A
  late write is what an operation does that was under way before: it leaves any gauges behind, but not
  another flag, because without the chaos endpoints no operation stores the flag.
\<close>

datatype 'm traffic = Request request | Tick int int | LateWrite 'm

fun handle :: "('m, 'r) api_env \<Rightarrow> 'm traffic \<Rightarrow> ('m, 'r) server \<Rightarrow> ('m, 'r) server" where
  "handle E (Request rq) s = fst (serve E rq s)"
| "handle E (Tick t1 t2) s = syncMetrics (eProm E) (currentReport t1 t2 s) s"
| "handle E (LateWrite m) s = s\<lparr>sMetrics := m\<rparr>"

fun late :: "'m traffic \<Rightarrow> bool" where
  "late (LateWrite m) \<longleftrightarrow> True"
| "late (Request rq) \<longleftrightarrow> False"
| "late (Tick t1 t2) \<longleftrightarrow> False"

definition handles_traffic :: "('m, 'r) api_env \<Rightarrow> bool \<Rightarrow> ('m, 'r) server \<Rightarrow> ('m, 'r) server \<Rightarrow> bool" where
  "handles_traffic E in_flight s s' \<longleftrightarrow> (\<exists>xs. s' = fold (handle E) xs s \<and> (in_flight \<or> filter late xs = []))"

definition refuses_traffic :: "('m, 'r) api_env \<Rightarrow> bool \<Rightarrow> ('m, 'r) server \<Rightarrow> bool" where
  "refuses_traffic E in_flight s \<longleftrightarrow> \<not> sReady s \<and> \<not> cEnableChaosEndpoints (sCfg s) \<and>
     (in_flight \<or> gauges_synced (eProm E) s)"

lemma refuses_traffic_handle:
  assumes "env_ok E" "refuses_traffic E in_flight s" "in_flight \<or> \<not> late x"
  shows "refuses_traffic E in_flight (handle E x s)"
proof (cases x)
  case (Request rq)
  have c: "sCfg (fst (serve E rq s)) = sCfg s" using step_sCfg [OF assms(1) step.request] .
  obtain s1 k where e: "effect (eProm E) s s1"
    "fst (serve E rq s) = account (eProm E) (routePattern (Pattern (sCfg s) rq)) rq k s1"
    using serve_effect [OF assms(1), of s rq] by metis
  have "sReady (fst (serve E rq s)) = sReady s" using e assms(2)
    by (auto elim!: effect_cases simp: refuses_traffic_def)
  moreover have "in_flight \<or> gauges_synced (eProm E) (fst (serve E rq s))"
    using step_gauges [OF assms(1) step.request] assms(2) unfolding refuses_traffic_def by blast
  ultimately show ?thesis using c assms(2) by (simp add: refuses_traffic_def Request)
next
  case (Tick t1 t2)
  show ?thesis using assms(2) synced_syncMetrics [OF env_okD(1) [OF assms(1)] report_ready report_mood, of t1 t2 s]
    by (simp add: refuses_traffic_def syncMetrics_def Tick Let_def)
next
  case (LateWrite m)
  then show ?thesis using assms(2,3) by (simp add: refuses_traffic_def)
qed

lemma refuses_traffic_handles:
  assumes "env_ok E" "refuses_traffic E in_flight s" "handles_traffic E in_flight s s'"
  shows "refuses_traffic E in_flight s'"
proof -
  obtain xs where xs: "s' = fold (handle E) xs s" "in_flight \<or> filter late xs = []"
    using assms(3) by (auto simp: handles_traffic_def)
  have "refuses_traffic E in_flight (fold (handle E) xs s)"
    using assms(2) xs(2)
  proof (induction xs arbitrary: s)
    case (Cons x xs)
    then show ?case using refuses_traffic_handle [OF assms(1) Cons.prems(1), of x] by (auto split: if_splits)
  qed simp
  then show ?thesis using xs(1) by simp
qed

lemma probe_unready:
  assumes "\<not> sReady s"
  shows "snd (serve E (get_request ''/readyz'' ts) s) = (503, [StatusBody ''not ready''])"
proof -
  have "mux_serve E (get_request ''/readyz'' ts) (s, fresh) = (s, wrote 503 [StatusBody ''not ready''], False)"
    using assms by (simp add: mux_serve_def matched_get route_handler_def readyzHandler_def writeJSON_fresh finished_def)
  from serve_finished [OF this] show ?thesis by simp
qed

text \<open>C14: The shutdown of a workload without chaos endpoints: readiness is withdrawn first, then the
  process waits the whole configured delay, then it drains with the fixed timeout. From the first step to
  the end the server answers readiness probes with 503, whatever requests and refresher ticks it handles
  in between, also when some of them were under way as readiness was withdrawn and write any gauges late.
  When none was, it also exports buddy_ready at 0 all that time. The result is the error of the drain, and
  the last two log lines appear exactly when there is none.\<close>

theorem shutdown_stays_unready:
  assumes "env_ok E" "peProm PE = eProm E" "\<not> cEnableChaosEndpoints (sCfg (prServer p))"
    and sleep: "\<And>d s w. handles_traffic E in_flight s (fst (peSleep PE d (s, w)))"
    and drain: "\<And>d s w. handles_traffic E in_flight s (fst (snd (peShutdown PE d (s, w))))"
    and run: "gracefulShutdown PE clock delay p = (err, p')"
  shows "\<exists>s1 s2 w2. s1 = SetReady (eProm E) (fst clock) (snd clock) False (prServer p) \<and>
    peSleep PE delay (s1, prWorld p) = (s2, w2) \<and>
    peShutdown PE (15 * second) (s2, w2) = (err, prServer p', prWorld p') \<and>
    (\<forall>s \<in> {s1, s2, prServer p'}.
       snd (serve E (get_request ''/readyz'' ts) s) = (503, [StatusBody ''not ready'']) \<and>
       (in_flight \<or> series (eProm E) (sMetrics s) ready_metric [] = Some (Fin 0))) \<and>
    prLog p' = prLog p @ [SignalReceived, ReadinessDisabled, WaitingForEndpoints delay, WaitComplete, Draining (15 * second)] @
      (if err = None then [Drained, ShutdownComplete] else [])"
proof -
  define s1 where "s1 = SetReady (eProm E) (fst clock) (snd clock) False (prServer p)"
  obtain s2 w2 where z: "peSleep PE delay (s1, prWorld p) = (s2, w2)" by (cases "peSleep PE delay (s1, prWorld p)")
  obtain e s3 w3 where d: "peShutdown PE (15 * second) (s2, w2) = (e, s3, w3)"
    by (cases "peShutdown PE (15 * second) (s2, w2)") auto
  have g: "err = e" "prServer p' = s3" "prWorld p' = w3"
    "prLog p' = prLog p @ [SignalReceived, ReadinessDisabled, WaitingForEndpoints delay, WaitComplete, Draining (15 * second)] @
      (if e = None then [Drained, ShutdownComplete] else [])"
    using run z d by (auto simp: gracefulShutdown_def Let_def say_def shutdownDrainTimeout_def assms(2) s1_def split: option.splits)
  have r1: "refuses_traffic E in_flight s1"
    using assms(3) SetReady_synced [OF env_okD(1) [OF assms(1)], of "fst clock" "snd clock" False "prServer p"]
    by (simp add: refuses_traffic_def s1_def SetReady_def Let_def)
  have r2: "refuses_traffic E in_flight s2" using refuses_traffic_handles [OF assms(1) r1] sleep [of s1 delay "prWorld p"] z by simp
  have r3: "refuses_traffic E in_flight s3" using refuses_traffic_handles [OF assms(1) r2] drain [of s2 "15 * second" w2] d by simp
  have u: "snd (serve E (get_request ''/readyz'' ts) s) = (503, [StatusBody ''not ready'']) \<and>
       (in_flight \<or> series (eProm E) (sMetrics s) ready_metric [] = Some (Fin 0))" if "refuses_traffic E in_flight s" for s
    using that probe_unready [of s E ts] by (auto simp add: refuses_traffic_def gauges_synced_def)
  show ?thesis using s1_def z d g r1 r2 r3 u by (intro exI [of _ s1] exI [of _ s2] exI [of _ w2]) simp
qed

definition quiet_process :: "(registry, nat) server \<Rightarrow> (registry, nat, unit) process" where
  "quiet_process s = \<lparr>prServer = s, prWorld = (), prLog = []\<rparr>"

text \<open>An outside that probes once during the wait and lets the drain end in time.\<close>

definition probing_env :: "request \<Rightarrow> (registry, nat, unit) process_env" where
  "probing_env rq =
     \<lparr>peProm = map_prom, peSleep = (\<lambda>d (s, w). (fst (serve demo_env rq s), w)), peShutdown = (\<lambda>d x. (None, x))\<rparr>"

theorem shutdown_stays_unready_witness:
  "snd (serve demo_env (get_request ''/readyz'' (0, 0))
     (prServer (snd (gracefulShutdown (probing_env (get_request ''/readyz'' (1, 1))) (5, 6) second (quiet_process demo_server)))))
     = (503, [StatusBody ''not ready''])"
proof -
  let ?E = "probing_env (get_request ''/readyz'' (1, 1))"
  have s: "handles_traffic demo_env False s (fst (peSleep ?E d (s, w)))" for d s w
    unfolding handles_traffic_def probing_env_def by (rule exI [of _ "[Request (get_request ''/readyz'' (1, 1))]"]) simp
  have d: "handles_traffic demo_env False s (fst (snd (peShutdown ?E d (s, w))))" for d s w
    unfolding handles_traffic_def probing_env_def by (rule exI [of _ "[]"]) simp
  have p: "peProm ?E = eProm demo_env" "\<not> cEnableChaosEndpoints (sCfg (prServer (quiet_process demo_server)))"
    by (simp_all add: probing_env_def demo_env_def quiet_process_def demo_server_def New_def demo_config_def)
  show ?thesis
    using shutdown_stays_unready [OF demo_env_ok p s d prod.collapse [symmetric], where ts = "(0, 0)"] by blast
qed

text \<open>The request that overrides the readiness.\<close>

definition override :: "bool \<Rightarrow> int \<times> int \<Rightarrow> request" where
  "override b ts = (get_request ''/chaos/readiness'' ts)\<lparr>rqMethod := ''POST'', rqDecoded := Some b\<rparr>"

lemma serve_override_mux:
  assumes "cEnableChaosEndpoints (sCfg s)"
  shows "\<exists>s' bs. mux_serve E (override b ts) (s, fresh) = (s', wrote 200 bs, False) \<and> sReady s' = b"
proof -
  let ?rq = "override b ts"
  have q: "rqMethod ?rq = ''POST''" "rqPath ?rq = ''/chaos/readiness''" "rqClean ?rq" "\<not> rqStar ?rq"
    "rqDecoded ?rq = Some b" "rqTimes ?rq = ts"
    by (simp_all add: override_def get_request_def)
  have m: "matched_route (sCfg s) ?rq = Some (''POST'', ''/chaos/readiness'')"
    using assms by (simp add: matched_route_def routes_def q method_matches_def)
  show ?thesis
    by (simp add: mux_serve_def m route_handler_def chaosReadinessHandler_def writeJSON_fresh finished_def q Let_def)
qed

lemma serve_override:
  assumes "cEnableChaosEndpoints (sCfg s)"
  shows "sReady (fst (serve E (override b ts) s)) = b"
proof -
  from serve_override_mux [OF assms] obtain s' bs where
    f: "mux_serve E (override b ts) (s, fresh) = (s', wrote 200 bs, False)" "sReady s' = b" by blast
  show ?thesis using serve_finished [OF f(1)] f(2) by simp
qed

text \<open>C34: With the chaos endpoints enabled the sequence does not keep that promise: one
  POST to /chaos/readiness with ready set, such as the one chaos-buddy sends to end a flap, makes
  the server report ready again while it is waiting to be taken out of rotation, and it drains
  in that state.\<close>

theorem override_reopens:
  assumes "peProm PE = eProm E" "cEnableChaosEndpoints (sCfg (prServer p))"
    "peSleep PE delay = (\<lambda>(s, w). (fst (serve E (override True ts) s), w))"
    "peShutdown PE = (\<lambda>d x. (None, x))"
  shows "fst (gracefulShutdown PE clock delay p) = None \<and>
    sReady (prServer (snd (gracefulShutdown PE clock delay p)))"
  using assms serve_override [of "SetReady (eProm E) (fst clock) (snd clock) False (prServer p)" E True ts]
  by (simp add: gracefulShutdown_def say_def Let_def)

theorem override_reopens_witness:
  "sReady (prServer (snd (gracefulShutdown (probing_env (override True (1, 1))) (5, 6) second
     (quiet_process (New (demo_config\<lparr>cEnableChaosEndpoints := True\<rparr>) (\<lambda>_ _. None) 0 0)))))"
  using override_reopens [of "probing_env (override True (1, 1))" demo_env
      "quiet_process (New (demo_config\<lparr>cEnableChaosEndpoints := True\<rparr>) (\<lambda>_ _. None) 0 0)" second "(1, 1)"]
  by (simp add: probing_env_def quiet_process_def demo_env_def New_def)

end
