(* ===== verification/PlantWebhook.thy ===== *)
theory PlantWebhook
  imports PlantTypes
begin

text \<open>
  \<^verbatim>\<open>api/v1alpha1/plant_webhook.go\<close>: the defaulting and the validating webhook of a
  Plant, and \<^verbatim>\<open>parseAllowedImageRegistries\<close> and
  \<^verbatim>\<open>envOrDefault\<close> of cmd/plant-operator/main.go, which produce the validator's
  configuration. A rejection is a value of \<open>denial\<close>, one constructor per message of the
  code, with the values it quotes.
\<close>

section \<open>Defaults\<close>

definition DefaultSpecies :: string where "DefaultSpecies = ''fern''"
definition DefaultReplicas :: i32 where "DefaultReplicas = 3"
definition DefaultImage :: string where "DefaultImage = ''ghcr.io/kramersean/k8s-buddy/buddy-api:dev''"
definition DefaultResourceProfile :: string where "DefaultResourceProfile = ''small''"
definition DefaultWateringInterval :: duration where "DefaultWateringInterval = 30 * second"
definition DefaultLatencyBudget :: duration where "DefaultLatencyBudget = 150 * millisecond"
definition DefaultChaosEnableEndpoints :: bool where "DefaultChaosEnableEndpoints = False"
definition minWateringInterval :: duration where "minWateringInterval = 30 * second"
definition leafMessage :: string where "leafMessage = ''plants need at least one leaf''"

lemmas default_defs = DefaultSpecies_def DefaultReplicas_def DefaultImage_def DefaultResourceProfile_def
  DefaultWateringInterval_def DefaultLatencyBudget_def minWateringInterval_def

definition defaultAllowedImageRegistries :: "string list" where
  "defaultAllowedImageRegistries = [''ghcr.io/'', ''docker.io/library/'']"

definition DefaultAllowedImageRegistries :: "string list" where
  "DefaultAllowedImageRegistries = defaultAllowedImageRegistries"

text \<open>\<^verbatim>\<open>PlantCustomDefaulter.Default\<close>, on the spec, the only part it reads.\<close>

definition default_spec :: "plant_spec \<Rightarrow> plant_spec" where
  "default_spec s =
     (let s1 = (if spSpecies s = [] then s\<lparr>spSpecies := DefaultSpecies\<rparr> else s);
          s2 = (if spReplicas s1 = None then s1\<lparr>spReplicas := Some DefaultReplicas\<rparr> else s1);
          s3 = (if spImage s2 = [] then s2\<lparr>spImage := DefaultImage\<rparr> else s2);
          s4 = (if spResourceProfile s3 = [] then s3\<lparr>spResourceProfile := DefaultResourceProfile\<rparr> else s3);
          s5 = (if spWateringInterval s4 = 0 then s4\<lparr>spWateringInterval := DefaultWateringInterval\<rparr> else s4);
          s6 = (if spLatencyBudget s5 = 0 then s5\<lparr>spLatencyBudget := DefaultLatencyBudget\<rparr> else s5)
      in s6)"

definition Default :: "plant \<Rightarrow> plant" where
  "Default p = p\<lparr>Spec := default_spec (Spec p)\<rparr>"

section \<open>The image allowlist\<close>

definition contains_any :: "string \<Rightarrow> string \<Rightarrow> bool" where
  "contains_any s cs \<longleftrightarrow> list_ex (\<lambda>c. c \<in> set cs) s"

definition normalizeImageRegistry :: "string \<Rightarrow> string" where
  "normalizeImageRegistry img =
     (case index_byte (CHR ''/'') img of
        None \<Rightarrow> ''docker.io/library/'' @ img
      | Some i \<Rightarrow>
          (let firstComponent = take i img in
           if contains_any firstComponent ''.:'' \<or> firstComponent = ''localhost'' then img
           else ''docker.io/'' @ img))"

definition imageRegistryAllowed :: "string \<Rightarrow> string list \<Rightarrow> bool" where
  "imageRegistryAllowed img allowed =
     (if allowed = [] then True
      else (let normalized = normalizeImageRegistry img in
        list_ex (\<lambda>prefix. prefix \<noteq> [] \<and> has_prefix normalized prefix) allowed))"

definition parseAllowedImageRegistries :: "string \<Rightarrow> string list" where
  "parseAllowedImageRegistries raw =
     (let raw' = trim_space raw in
      if raw' = [] then []
      else filter (\<lambda>p. p \<noteq> []) (map trim_space (split_byte (CHR '','') raw')))"

text \<open>\<open>None\<close> is a variable that is not set.\<close>

definition envOrDefault :: "(string \<rightharpoonup> string) \<Rightarrow> string \<Rightarrow> string \<Rightarrow> string" where
  "envOrDefault env key def = (case env key of Some v \<Rightarrow> v | None \<Rightarrow> def)"

section \<open>Validation\<close>

datatype denial =
    LeafMessage
  | IntervalBelowFloor duration
  | RegistryNotAllowed string "string list"
  | SpeciesImmutable string string

definition validate :: "string list \<Rightarrow> plant \<Rightarrow> denial option" where
  "validate allowed p =
     (let s = Spec p; d = spWateringInterval s in
      if spReplicas s = Some 0 then Some LeafMessage
      else if slt 0 d \<and> slt d minWateringInterval then Some (IntervalBelowFloor d)
      else if spImage s \<noteq> [] \<and> \<not> imageRegistryAllowed (spImage s) allowed
        then Some (RegistryNotAllowed (spImage s) allowed)
      else None)"

definition ValidateCreate :: "string list \<Rightarrow> plant \<Rightarrow> denial option" where
  "ValidateCreate allowed p = validate allowed p"

definition ValidateUpdate :: "string list \<Rightarrow> plant \<Rightarrow> plant \<Rightarrow> denial option" where
  "ValidateUpdate allowed oldPlant newPlant =
     (case validate allowed newPlant of
        Some d \<Rightarrow> Some d
      | None \<Rightarrow>
          if spSpecies (Spec oldPlant) \<noteq> spSpecies (Spec newPlant)
          then Some (SpeciesImmutable (spSpecies (Spec oldPlant)) (spSpecies (Spec newPlant)))
          else None)"

definition ValidateDelete :: "plant \<Rightarrow> denial option" where
  "ValidateDelete p = None"

lemma set_strip_prefixes: "set (strip_prefixes ps k s) \<subseteq> set s"
proof (induction k arbitrary: s)
  case (Suc k)
  show ?case
  proof (cases "find (has_prefix s) ps")
    case (Some p)
    have "set (strip_prefixes ps k (drop (length p) s)) \<subseteq> set s"
      by (rule subset_trans [OF Suc set_drop_subset])
    then show ?thesis using Some by simp
  qed simp
qed simp

lemma set_trim_space: "set (trim_space s) \<subseteq> set s"
  using set_strip_prefixes [of space_encodings "length s" s]
    set_strip_prefixes [of "map rev space_encodings" "length (trim_left s)" "rev (trim_left s)"]
  by (auto simp: trim_space_def trim_right_def trim_left_def)

lemma split_byte_no_sep: "w \<in> set (split_byte c s) \<Longrightarrow> c \<notin> set w"
  by (induction c s arbitrary: w rule: split_byte.induct)
    (auto split: if_splits list.splits dest: split_byte_nonempty [THEN notE, rotated])

text \<open>The registry host of a normalized reference, and of an allowlist entry.\<close>

definition host :: "string \<Rightarrow> string" where
  "host s = takeWhile (\<lambda>c. c \<noteq> CHR ''/'') s"

lemma host_prefix:
  assumes "has_prefix s p" "CHR ''/'' \<in> set p" shows "host s = host p"
proof -
  obtain t where "s = p @ t" using assms(1) by (auto simp: has_prefix_iff)
  with assms(2) show ?thesis by (simp add: host_def takeWhile_append1)
qed

lemma host_index: "index_byte (CHR ''/'') s = Some i \<Longrightarrow> host s = take i s"
proof -
  assume "index_byte (CHR ''/'') s = Some i"
  then have i: "i < length s" "s ! i = CHR ''/''" "CHR ''/'' \<notin> set (take i s)"
    using index_byte_Some by blast+
  have "host (take i s @ drop i s) = take i s"
    using i by (subst host_def, subst takeWhile_append2) (auto simp: takeWhile_eq_Nil_iff hd_drop_conv_nth)
  then show ?thesis by simp
qed

lemma index_byte_mem: "index_byte c s = Some i \<Longrightarrow> c \<in> set s"
  by (metis index_byte_None option.distinct(1))

lemma host_docker: "host (''docker.io/'' @ s) = ''docker.io''"
  by (simp add: host_def)

lemma normalize_host:
  "contains_any (host (normalizeImageRegistry img)) ''.:'' \<or> host (normalizeImageRegistry img) = ''localhost''"
proof (cases "index_byte (CHR ''/'') img")
  case None
  then show ?thesis using host_docker [of "''library/'' @ img"]
    by (simp add: normalizeImageRegistry_def contains_any_def)
next
  case (Some i)
  show ?thesis
  proof (cases "contains_any (take i img) ''.:'' \<or> take i img = ''localhost''")
    case True
    then show ?thesis using Some by (simp add: normalizeImageRegistry_def host_index)
  next
    case False
    then show ?thesis using Some host_docker [of img]
      by (simp add: normalizeImageRegistry_def contains_any_def)
  qed
qed

lemma normalize_slash: "CHR ''/'' \<in> set (normalizeImageRegistry img)"
  by (auto simp: normalizeImageRegistry_def Let_def index_byte_mem split: option.split)

lemma normalize_idem: "normalizeImageRegistry (normalizeImageRegistry img) = normalizeImageRegistry img"
proof -
  let ?n = "normalizeImageRegistry img"
  obtain i where i: "index_byte (CHR ''/'') ?n = Some i"
    using normalize_slash [of img] index_byte_None [of "CHR ''/''" ?n] by (cases "index_byte (CHR ''/'') ?n") auto
  then show ?thesis using normalize_host [of img]
    by (simp add: normalizeImageRegistry_def [of ?n] host_index [OF i] Let_def)
qed

section \<open>Properties\<close>

text \<open>C38: Defaulting leaves no field unset (no empty string, no nil replica count, no zero
  duration), changes no field that was set, and is idempotent; it touches nothing but the spec
  and never turns the chaos endpoints on.\<close>

theorem default_correct:
  "(let s = Spec p; s' = Spec (Default p) in
     spSpecies s' \<noteq> [] \<and> spReplicas s' \<noteq> None \<and> spImage s' \<noteq> [] \<and> spResourceProfile s' \<noteq> [] \<and>
     spWateringInterval s' \<noteq> 0 \<and> spLatencyBudget s' \<noteq> 0 \<and>
     (spSpecies s \<noteq> [] \<longrightarrow> spSpecies s' = spSpecies s) \<and>
     (spReplicas s \<noteq> None \<longrightarrow> spReplicas s' = spReplicas s) \<and>
     (spImage s \<noteq> [] \<longrightarrow> spImage s' = spImage s) \<and>
     (spResourceProfile s \<noteq> [] \<longrightarrow> spResourceProfile s' = spResourceProfile s) \<and>
     (spWateringInterval s \<noteq> 0 \<longrightarrow> spWateringInterval s' = spWateringInterval s) \<and>
     (spLatencyBudget s \<noteq> 0 \<longrightarrow> spLatencyBudget s' = spLatencyBudget s) \<and>
     spEnableEndpoints s' = spEnableEndpoints s) \<and>
   Default (Default p) = Default p \<and> pMeta (Default p) = pMeta p \<and> Status (Default p) = Status p"
proof -
  have d: "DefaultSpecies \<noteq> []" "DefaultImage \<noteq> []" "DefaultResourceProfile \<noteq> []"
    "DefaultWateringInterval \<noteq> 0" "DefaultLatencyBudget \<noteq> 0"
    by (simp_all add: default_defs)
  have f: "spSpecies (default_spec s) = (if spSpecies s = [] then DefaultSpecies else spSpecies s)"
    "spReplicas (default_spec s) = (if spReplicas s = None then Some DefaultReplicas else spReplicas s)"
    "spImage (default_spec s) = (if spImage s = [] then DefaultImage else spImage s)"
    "spResourceProfile (default_spec s) = (if spResourceProfile s = [] then DefaultResourceProfile else spResourceProfile s)"
    "spWateringInterval (default_spec s) = (if spWateringInterval s = 0 then DefaultWateringInterval else spWateringInterval s)"
    "spLatencyBudget (default_spec s) = (if spLatencyBudget s = 0 then DefaultLatencyBudget else spLatencyBudget s)"
    "spEnableEndpoints (default_spec s) = spEnableEndpoints s" for s
    by (simp_all add: default_spec_def Let_def)
  have stable: "default_spec s' = s'" if "spSpecies s' \<noteq> []" "spReplicas s' \<noteq> None" "spImage s' \<noteq> []"
    "spResourceProfile s' \<noteq> []" "spWateringInterval s' \<noteq> 0" "spLatencyBudget s' \<noteq> 0" for s'
    using that by (simp add: default_spec_def)
  have "default_spec (default_spec (Spec p)) = default_spec (Spec p)"
    by (rule stable) (simp_all add: f d)
  then have "Default (Default p) = Default p" by (simp add: Default_def)
  moreover have "Spec (Default p) = default_spec (Spec p)" "pMeta (Default p) = pMeta p" "Status (Default p) = Status p"
    by (simp_all add: Default_def)
  ultimately show ?thesis by (simp add: f d)
qed


theorem default_correct_witness:
  "spReplicas (Spec (Default (demo_plant\<lparr>Spec := (Spec demo_plant)\<lparr>spReplicas := Some 7\<rparr>\<rparr>))) = Some 7"
  using default_correct [of "demo_plant\<lparr>Spec := (Spec demo_plant)\<lparr>spReplicas := Some 7\<rparr>\<rparr>"]
  by (simp add: Let_def)

text \<open>The validating webhook accepts a create exactly when the replica count is not
  0, a positive watering interval is at least 30 seconds, and a non-empty image is inside the
  allowlist; the first violated rule in that order is the one reported; an update is accepted
  exactly when the new object would be accepted as a create and keeps the species; and a delete
  is never rejected.\<close>

theorem validator_decides:
  "(ValidateCreate allowed p = None \<longleftrightarrow>
      spReplicas (Spec p) \<noteq> Some 0 \<and>
      (slt 0 (spWateringInterval (Spec p)) \<longrightarrow> sle (30 * second) (spWateringInterval (Spec p))) \<and>
      (spImage (Spec p) \<noteq> [] \<longrightarrow> imageRegistryAllowed (spImage (Spec p)) allowed)) \<and>
   (spReplicas (Spec p) = Some 0 \<longrightarrow> ValidateCreate allowed p = Some LeafMessage) \<and>
   (\<forall>d. ValidateCreate allowed p = Some (IntervalBelowFloor d) \<longrightarrow>
      d = spWateringInterval (Spec p) \<and> slt 0 d \<and> slt d (30 * second) \<and> spReplicas (Spec p) \<noteq> Some 0) \<and>
   (ValidateUpdate allowed q p = None \<longleftrightarrow>
      ValidateCreate allowed p = None \<and> spSpecies (Spec q) = spSpecies (Spec p)) \<and>
   ValidateDelete p = None"
  by (auto simp: ValidateCreate_def ValidateUpdate_def ValidateDelete_def validate_def minWateringInterval_def
      Let_def not_less split: option.splits if_splits)

theorem validator_decides_witness:
  "ValidateCreate [] (demo_plant\<lparr>Spec := (Spec demo_plant)\<lparr>spReplicas := Some 0\<rparr>\<rparr>) = Some LeafMessage"
  using validator_decides [of "[]" "demo_plant\<lparr>Spec := (Spec demo_plant)\<lparr>spReplicas := Some 0\<rparr>\<rparr>"] by simp

lemma update_accepted_species:
  "ValidateUpdate allowed q p = None \<Longrightarrow> spSpecies (Spec q) = spSpecies (Spec p)"
  by (cases "validate allowed p") (auto simp: ValidateUpdate_def split: if_splits)

text \<open>C36: Along any sequence of writes to one Plant that the validating webhook
  accepts, the species never changes.\<close>

theorem species_immutable:
  "successively (\<lambda>old new. ValidateUpdate allowed old new = None) (p # ps) \<Longrightarrow>
     \<forall>q \<in> set ps. spSpecies (Spec q) = spSpecies (Spec p)"
proof (induction ps arbitrary: p)
  case (Cons q ps)
  then have "ValidateUpdate allowed p q = None" by simp
  then have "spSpecies (Spec p) = spSpecies (Spec q)" by (rule update_accepted_species)
  with Cons show ?case by simp
qed simp

theorem species_immutable_witness:
  "spSpecies (Spec (demo_plant\<lparr>Spec := (Spec demo_plant)\<lparr>spReplicas := Some 5\<rparr>\<rparr>)) = spSpecies (Spec demo_plant)"
proof -
  let ?q = "demo_plant\<lparr>Spec := (Spec demo_plant)\<lparr>spReplicas := Some 5\<rparr>\<rparr>"
  have "validate [] ?q = None"
    by (simp add: validate_def demo_plant_def imageRegistryAllowed_def minWateringInterval_def)
  moreover have "spSpecies (Spec demo_plant) = spSpecies (Spec ?q)" by simp
  ultimately have "ValidateUpdate [] demo_plant ?q = None" by (simp add: ValidateUpdate_def)
  then show ?thesis using species_immutable [of "[]" demo_plant "[?q]"] by simp
qed

text \<open>C37: The allowlist compares hosts: normalization always yields a reference with an
  explicit host and is idempotent. An empty allowlist accepts every image. Under a non-empty one
  whose entries all end their host with a slash, an image is accepted only if its normalized host is the
  host of one of the entries; under the default allowlist that host is ghcr.io or docker.io.\<close>

theorem allowlist_host:
  "normalizeImageRegistry (normalizeImageRegistry img) = normalizeImageRegistry img \<and>
   (contains_any (host (normalizeImageRegistry img)) ''.:'' \<or> host (normalizeImageRegistry img) = ''localhost'') \<and>
   imageRegistryAllowed img [] \<and>
   (allowed \<noteq> [] \<longrightarrow> (\<forall>e \<in> set allowed. CHR ''/'' \<in> set e) \<longrightarrow> imageRegistryAllowed img allowed \<longrightarrow>
      host (normalizeImageRegistry img) \<in> host ` set allowed) \<and>
   (imageRegistryAllowed img DefaultAllowedImageRegistries \<longrightarrow>
      host (normalizeImageRegistry img) \<in> {''ghcr.io'', ''docker.io''})"
proof -
  have h: "host (normalizeImageRegistry img) \<in> host ` set allowed"
    if "allowed \<noteq> []" "\<forall>e \<in> set allowed. CHR ''/'' \<in> set e" "imageRegistryAllowed img allowed" for allowed
    using that host_prefix [of "normalizeImageRegistry img"]
    by (auto simp: imageRegistryAllowed_def Let_def list_ex_iff intro: rev_image_eqI)
  have "host ` set DefaultAllowedImageRegistries = {''ghcr.io'', ''docker.io''}"
    by (simp add: DefaultAllowedImageRegistries_def defaultAllowedImageRegistries_def host_def)
  moreover have "\<forall>e \<in> set DefaultAllowedImageRegistries. CHR ''/'' \<in> set e"
    "DefaultAllowedImageRegistries \<noteq> []"
    by (simp_all add: DefaultAllowedImageRegistries_def defaultAllowedImageRegistries_def)
  ultimately have d: "imageRegistryAllowed img DefaultAllowedImageRegistries \<longrightarrow>
      host (normalizeImageRegistry img) \<in> {''ghcr.io'', ''docker.io''}"
    using h [of DefaultAllowedImageRegistries] by metis
  have "imageRegistryAllowed img []" by (simp add: imageRegistryAllowed_def)
  then show ?thesis using h d normalize_idem normalize_host by blast
qed

theorem allowlist_host_witness:
  "\<not> imageRegistryAllowed ''ghcr.io.evil.example/x:1'' DefaultAllowedImageRegistries"
proof
  assume "imageRegistryAllowed ''ghcr.io.evil.example/x:1'' DefaultAllowedImageRegistries"
  then have "host (normalizeImageRegistry ''ghcr.io.evil.example/x:1'') \<in> {''ghcr.io'', ''docker.io''}"
    using allowlist_host [of "''ghcr.io.evil.example/x:1''"] by blast
  then show False by (simp add: normalizeImageRegistry_def contains_any_def host_def)
qed

text \<open>Every entry parsed from the comma-separated flag is non-empty and free of
  commas, an empty flag means the empty list; so does a flag of nothing but commas, and the empty
  list admits every image.\<close>

theorem parsed_registries:
  "(\<forall>e \<in> set (parseAllowedImageRegistries raw). e \<noteq> [] \<and> CHR '','' \<notin> set e) \<and>
   parseAllowedImageRegistries [] = [] \<and> parseAllowedImageRegistries '','' = [] \<and>
   imageRegistryAllowed img (parseAllowedImageRegistries '','')"
proof -
  have "e \<noteq> [] \<and> CHR '','' \<notin> set e" if "e \<in> set (parseAllowedImageRegistries raw)" for e
    using that split_byte_no_sep set_trim_space
    by (fastforce simp: parseAllowedImageRegistries_def Let_def split: if_splits)
  moreover have "parseAllowedImageRegistries [] = []"
    by (simp add: parseAllowedImageRegistries_def trim_eval Let_def)
  moreover have c: "parseAllowedImageRegistries '','' = []"
    by (simp add: parseAllowedImageRegistries_def trim_eval Let_def)
  ultimately show ?thesis by (simp add: imageRegistryAllowed_def)
qed

theorem parsed_registries_witness:
  "\<exists>e. parseAllowedImageRegistries ''ghcr.io/, '' = [e] \<and> e \<noteq> [] \<and> CHR '','' \<notin> set e"
proof -
  have "parseAllowedImageRegistries ''ghcr.io/, '' = [''ghcr.io/'']"
    by (simp add: parseAllowedImageRegistries_def trim_eval Let_def)
  then show ?thesis using parsed_registries [of "''ghcr.io/, ''"] by (intro exI [of _ "''ghcr.io/''"]) simp
qed

end
