(* ===== verification/Workload.thy ===== *)
theory Workload
  imports BuddyConfig Resources PlantWebhook
begin

text \<open>
  The operator and the workload together: the environment the reconciler's ConfigMap gives a pod
  is read by \<^verbatim>\<open>loadConfig\<close>, the probes and the scrape of the Deployment and the
  ServiceMonitor meet the routes of the workload's server, and the pod's grace period has to
  cover its shutdown sequence.
\<close>

section \<open>The environment of a pod\<close>

text \<open>
  The container names the ConfigMap of its Plant as the source of its environment. The kubelet adds
  variables of its own, which a value of the ConfigMap takes precedence over: \<open>extra\<close>. Among them
  are the links to the Services of the namespace, since the pods do not switch
  \<^verbatim>\<open>enableServiceLinks\<close> off: \<^verbatim>\<open><SERVICE>_PORT\<close> is the URL of a Service.
\<close>

abbreviation pod_env :: "plant \<Rightarrow> environ" where
  "pod_env p \<equiv> cmData (ConfigMapFor p)"

definition link_char :: "char \<Rightarrow> char" where
  "link_char c = (if c = CHR ''-'' then CHR ''_''
     else if c \<in> set ''abcdefghijklmnopqrstuvwxyz'' then char_of ((of_char c :: nat) - 32) else c)"

definition service_link :: "service \<Rightarrow> string \<Rightarrow> string \<times> string" where
  "service_link v ip = (map link_char (mName (svMeta v)) @ ''_PORT'',
     ''tcp://'' @ ip @ '':'' @ itoa (sint (svpPort (hd (svPorts v)))))"

lemma duration_string_not_empty: "duration_string d \<noteq> []"
proof
  assume "duration_string d = []"
  then have "ParseDuration [] = Some d" using duration_roundtrip [of d] by simp
  then show False by (simp add: ParseDuration_def)
qed

lemma format_bool_not_empty: "format_bool b \<noteq> []"
  by (simp add: format_bool_def)

lemma parse_delays:
  "ParseDuration ''10ms'' = Some (10 * millisecond)" "ParseDuration ''200ms'' = Some (200 * millisecond)"
  "ParseDuration ''5s'' = Some (5 * second)"
proof -
  have "duration_string (10 * millisecond) = ''10ms''" "duration_string (200 * millisecond) = ''200ms''"
    "duration_string (5 * second) = ''5s''"
    by (simp_all add: duration_string_def duration_abs_string_def dec_eval Let_def frac_digits_numeral)
  then show "ParseDuration ''10ms'' = Some (10 * millisecond)" "ParseDuration ''200ms'' = Some (200 * millisecond)"
    "ParseDuration ''5s'' = Some (5 * second)"
    using duration_roundtrip [of "10 * millisecond"] duration_roundtrip [of "200 * millisecond"]
      duration_roundtrip [of "5 * second"] by simp_all
qed

lemma pod_env_values:
  "pod_env p ''BUDDY_NAME'' = Some (pName p)" "pod_env p ''BUDDY_SPECIES'' = Some (spSpecies (Spec p))"
  "pod_env p ''BUDDY_LOG_LEVEL'' = Some ''info''"
  "pod_env p ''BUDDY_LATENCY_BUDGET'' = Some (duration_string (spLatencyBudget (Spec p)))"
  "pod_env p ''BUDDY_WORK_ERROR_RATE'' = Some ''0.05''"
  "pod_env p ''BUDDY_WORK_MIN_DELAY'' = Some ''10ms''" "pod_env p ''BUDDY_WORK_MAX_DELAY'' = Some ''200ms''"
  "pod_env p ''BUDDY_ENABLE_CHAOS_ENDPOINTS'' = Some (format_bool (spEnableEndpoints (Spec p)))"
  "pod_env p ''BUDDY_SHUTDOWN_DELAY'' = Some ''5s''"
  "pod_env p ''BUDDY_PORT'' = None" "pod_env p ''BUDDY_HEALTH_REFRESH_INTERVAL'' = None"
  by (simp_all add: ConfigMapFor_def)

text \<open>\<open>spec_config\<close>: what a configuration has from the spec of its Plant, the rest being fixed by the ConfigMap.\<close>

definition spec_config :: "plant \<Rightarrow> config \<Rightarrow> bool" where
  "spec_config p cfg \<longleftrightarrow> bPlantName cfg = pName p \<and>
     bSpecies cfg = (if spSpecies (Spec p) = [] then ''fern'' else spSpecies (Spec p)) \<and> bLogLevel cfg = ''info'' \<and>
     bLatencyBudget cfg = spLatencyBudget (Spec p) \<and> bWorkErrorRate cfg = f64_of_rat (1 / 20) \<and>
     bWorkMinDelay cfg = 10 * millisecond \<and> bWorkMaxDelay cfg = 200 * millisecond \<and>
     bEnableChaosEndpoints cfg = spEnableEndpoints (Spec p) \<and> bShutdownDelay cfg = 5 * second"

text \<open>\<open>extra_config\<close>: the two variables the ConfigMap leaves out, and whether their values are accepted.\<close>

definition extra_config :: "environ \<Rightarrow> i64 \<Rightarrow> duration \<Rightarrow> bool" where
  "extra_config extra port interval \<longleftrightarrow>
     setting extra Atoi ''BUDDY_PORT'' 8080 port \<and> 1 \<le> sint port \<and> sint port \<le> 65535 \<and>
     setting extra ParseDuration ''BUDDY_HEALTH_REFRESH_INTERVAL'' (5 * second) interval \<and> 0 < sint interval"

lemma default_rate_in_range:
  "\<not> flt (f64_of_rat (1 / 20)) (Fin 0)" "\<not> fgt (f64_of_rat (1 / 20)) (Fin 1)"
  by (simp_all add: f64_of_rat_def rnd_def ulp_def expo_def rne_quot_def f64_eval overflow_bound_def Let_def)

lemma setting_over:
  "setting (extra ++ m) parse k d x \<longleftrightarrow>
     (case m k of None \<Rightarrow> setting extra parse k d x | Some v \<Rightarrow> if v = [] then x = d else parse v = Some x)"
  by (auto simp: setting_def map_add_def split: option.split)

lemma parse_bool_format: "parse_bool (format_bool b) = Some b"
  by (cases b) (simp_all add: parse_bool_def format_bool_def)

lemma pod_reads:
  assumes "pName p \<noteq> []"
  shows "reads (extra ++ pod_env p) cfg \<longleftrightarrow> spec_config p cfg \<and>
    setting extra Atoi ''BUDDY_PORT'' 8080 (bPort cfg) \<and>
    setting extra ParseDuration ''BUDDY_HEALTH_REFRESH_INTERVAL'' (5 * second) (bHealthRefreshInterval cfg)"
  unfolding reads_def spec_config_def setting_over pod_env_values option.case
  using assms duration_string_not_empty format_bool_not_empty
  by (auto simp: duration_roundtrip parse_bool_format parse_rate parse_delays)

lemma pod_startup:
  assumes "pName p \<noteq> []"
  shows "loadConfig (extra ++ pod_env p) = Inr cfg \<longleftrightarrow> spec_config p cfg \<and> 0 < sint (spLatencyBudget (Spec p)) \<and>
    extra_config extra (bPort cfg) (bHealthRefreshInterval cfg)"
  using default_rate_in_range
  unfolding loadConfig_reads pod_reads [OF assms] admissible_def extra_config_def
  by (auto simp: spec_config_def)

lemma pod_starts:
  assumes "pName p \<noteq> []"
  shows "(\<exists>cfg. loadConfig (extra ++ pod_env p) = Inr cfg) \<longleftrightarrow>
    0 < sint (spLatencyBudget (Spec p)) \<and> (\<exists>port interval. extra_config extra port interval)"
proof -
  have "\<exists>cfg. spec_config p cfg \<and> bPort cfg = port \<and> bHealthRefreshInterval cfg = interval" for port interval
    by (rule exI [of _ "\<lparr>bPlantName = pName p, bSpecies = (if spSpecies (Spec p) = [] then ''fern'' else spSpecies (Spec p)),
      bPort = port, bLogLevel = ''info'', bLatencyBudget = spLatencyBudget (Spec p), bWorkErrorRate = f64_of_rat (1 / 20),
      bWorkMinDelay = 10 * millisecond, bWorkMaxDelay = 200 * millisecond,
      bEnableChaosEndpoints = spEnableEndpoints (Spec p), bShutdownDelay = 5 * second, bHealthRefreshInterval = interval\<rparr>"])
      (simp add: spec_config_def)
  then show ?thesis unfolding pod_startup [OF assms] by metis
qed

lemma extra_config_unset:
  "extra ''BUDDY_PORT'' = None \<Longrightarrow> extra ''BUDDY_HEALTH_REFRESH_INTERVAL'' = None \<Longrightarrow>
     extra_config extra port interval \<longleftrightarrow> port = 8080 \<and> interval = 5 * second"
  by (auto simp: extra_config_def setting_def)

text \<open>The link to a Service called buddy is no port number.\<close>

lemma link_is_no_port: "Atoi (''tcp://'' @ s) = None"
  by (simp add: Atoi_def split_sign_def is_digit_def)

lemma service_link_simps: "service_link (ServiceFor p) ip = (map link_char (pName p) @ ''_PORT'', ''tcp://'' @ ip @ '':80'')"
proof -
  have "itoa 80 = ''80''" by (simp add: itoa_def dec_eval)
  then show ?thesis by (simp add: service_link_def ServiceFor_def new_meta_def)
qed

lemma buddy_link: "map link_char ''buddy'' @ ''_PORT'' = ''BUDDY_PORT''"
  by code_simp

lemma port_link_refused:
  "extra ''BUDDY_PORT'' = Some (''tcp://'' @ s) \<Longrightarrow>
     loadConfig (extra ++ pod_env p) = Inl (InvalidInteger ''BUDDY_PORT'' (''tcp://'' @ s))"
  by (simp add: loadConfig_def parseIntEnv_def pod_env_values(10) map_add_def link_is_no_port del: append.simps)

lemma default_spec_startup:
  "spSpecies (default_spec s) \<noteq> []"
  "spLatencyBudget (default_spec s) = (if spLatencyBudget s = 0 then DefaultLatencyBudget else spLatencyBudget s)"
  by (simp_all add: default_spec_def Let_def DefaultSpecies_def)

section \<open>Properties\<close>

text \<open>C30: A pod that runs with the ConfigMap of a Plant both admission webhooks accept starts
  exactly when the Plant did not ask for a negative latency budget, which the webhooks do not look at, and
  the two variables the ConfigMap leaves out, the port and the refresh interval, are unset or valid in the
  rest of its environment. They are not always: in the namespace of a Plant called buddy the kubelet's
  service link sets the port variable to the URL of that Plant's Service, and then no pod of any Plant
  of the namespace starts.\<close>

theorem admitted_starts:
  assumes "pName p \<noteq> []" "ValidateCreate allowed (Default p) = None"
  shows "((\<exists>cfg. loadConfig (extra ++ pod_env (Default p)) = Inr cfg) \<longleftrightarrow>
      0 \<le> sint (spLatencyBudget (Spec p)) \<and> (\<exists>port interval. extra_config extra port interval)) \<and>
    (pName q = ''buddy'' \<longrightarrow> (let (var, url) = service_link (ServiceFor q) ip in
       extra var = Some url \<longrightarrow> loadConfig (extra ++ pod_env (Default p)) = Inl (InvalidInteger ''BUDDY_PORT'' url)))"
proof -
  have n: "pName (Default p) \<noteq> []" using assms(1) by (simp add: Default_def)
  have b: "0 < sint (spLatencyBudget (Spec (Default p))) \<longleftrightarrow> 0 \<le> sint (spLatencyBudget (Spec p))"
    using signed_eq_0_iff [of "spLatencyBudget (Spec p)"]
    by (auto simp: Default_def default_spec_startup DefaultLatencyBudget_def order_less_le)
  show ?thesis unfolding pod_starts [OF n] b service_link_simps Let_def prod.case
    using port_link_refused buddy_link by metis
qed

theorem admitted_starts_witness:
  "(let p = demo_plant\<lparr>Spec := (Spec demo_plant)\<lparr>spLatencyBudget := - second\<rparr>\<rparr>; q = demo_plant\<lparr>pMeta := (pMeta demo_plant)\<lparr>mName := ''buddy''\<rparr>\<rparr>;
      url = ''tcp://10.0.0.7:80'' in
     ValidateCreate [] (Default p) = None \<and> \<not> (\<exists>cfg. loadConfig (pod_env (Default p)) = Inr cfg) \<and>
     ValidateCreate [] (Default demo_plant) = None \<and> service_link (ServiceFor q) ''10.0.0.7'' = (''BUDDY_PORT'', url) \<and>
     loadConfig ([''BUDDY_PORT'' \<mapsto> url] ++ pod_env (Default demo_plant)) = Inl (InvalidInteger ''BUDDY_PORT'' url))"
proof -
  let ?p = "demo_plant\<lparr>Spec := (Spec demo_plant)\<lparr>spLatencyBudget := - second\<rparr>\<rparr>"
  let ?q = "demo_plant\<lparr>pMeta := (pMeta demo_plant)\<lparr>mName := ''buddy''\<rparr>\<rparr>"
  let ?url = "''tcp://10.0.0.7:80''"
  have n: "pName ?p \<noteq> []" "pName demo_plant \<noteq> []" "pName ?q = ''buddy''" by (simp_all add: demo_plant_def)
  have v: "ValidateCreate [] (Default ?p) = None" "ValidateCreate [] (Default demo_plant) = None"
    by (simp_all add: demo_plant_def imageRegistryAllowed_def minWateringInterval_def ValidateCreate_def validate_def Default_def default_spec_def Let_def)
  have l: "service_link (ServiceFor ?q) ''10.0.0.7'' = (''BUDDY_PORT'', ?url)"
    unfolding service_link_simps n(3) buddy_link by simp
  have "loadConfig ([''BUDDY_PORT'' \<mapsto> ?url] ++ pod_env (Default demo_plant)) = Inl (InvalidInteger ''BUDDY_PORT'' ?url)"
    using conjunct2 [OF admitted_starts [OF n(2) v(2), of "[''BUDDY_PORT'' \<mapsto> ?url]" ?q "''10.0.0.7''"]] l n(3) by simp
  moreover have "\<not> (\<exists>cfg. loadConfig (pod_env (Default ?p)) = Inr cfg)"
    using conjunct1 [OF admitted_starts [OF n(1) v(1), of Map.empty]] by simp
  ultimately show ?thesis using v l by (simp add: Let_def)
qed

text \<open>C33: What the operator puts around a pod fits the configuration its workload starts with,
  when nothing outside the ConfigMap sets the port: whatever loadConfig accepts has the declared container
  port as its port, serves each probe and the scrape endpoint as a GET route, with and without chaos
  endpoints, and its shutdown delay, the drain timeout and the wait for the listener together stay below
  the termination grace period.\<close>

theorem pod_contract:
  assumes "c \<in> set (poContainers (dPodSpec (DeploymentFor p)))" "pName p \<noteq> []" "extra ''BUDDY_PORT'' = None"
    "loadConfig (extra ++ cmData (ConfigMapFor p)) = Inr cfg"
  shows "map (sint \<circ> cpContainerPort) (coPorts c) = [sint (bPort cfg)] \<and>
    coEnvFrom c = [mName (cmMeta (ConfigMapFor p))] \<and>
    map (matched_route (server_config cfg) \<circ> (\<lambda>path. get_request path ts))
      (map (hgPath \<circ> prHTTPGet \<circ> the) [coLivenessProbe c, coReadinessProbe c, coStartupProbe c]
       @ map (fst \<circ> snd) (smEndpoints (ServiceMonitorFor p)))
      = map (\<lambda>path. Some (''GET'', path)) [''/healthz'', ''/readyz'', ''/healthz'', ''/metrics''] \<and>
    sint (bShutdownDelay cfg) + sint shutdownDrainTimeout + sint serveGoroutineDrainTimeout
      < sint second * sint (the (poTerminationGracePeriodSeconds (dPodSpec (DeploymentFor p))))"
proof -
  have c: "c = containerFor p" using assms(1) by (simp add: DeploymentFor_def podSpecFor_def)
  have cfg: "bPort cfg = 8080" "bShutdownDelay cfg = 5 * second"
    using assms(4) unfolding pod_startup [OF assms(2)] spec_config_def extra_config_def setting_def assms(3) by simp_all
  show ?thesis
    by (simp add: c cfg containerFor_def DeploymentFor_def podSpecFor_def ServiceMonitorFor_def
       containerPort_def ConfigMapFor_def new_meta_def livenessProbeFor_def readinessProbeFor_def
       startupProbeFor_def http_probe_def matched_get shutdownDrainTimeout_def
       serveGoroutineDrainTimeout_def terminationGracePeriodSeconds_def)
qed

theorem pod_contract_witness:
  "\<exists>cfg. loadConfig (cmData (ConfigMapFor demo_plant)) = Inr cfg \<and>
     map (sint \<circ> cpContainerPort) (coPorts (containerFor demo_plant)) = [sint (bPort cfg)]"
proof -
  have n: "pName demo_plant \<noteq> []" "0 < sint (spLatencyBudget (Spec demo_plant))" by (simp_all add: demo_plant_def)
  have "extra_config Map.empty 8080 (5 * second)" by (simp add: extra_config_unset)
  then obtain cfg where c: "loadConfig (Map.empty ++ cmData (ConfigMapFor demo_plant)) = Inr cfg"
    using pod_starts [OF n(1), of Map.empty] n(2) by blast
  from pod_contract [OF _ n(1) _ c, of "containerFor demo_plant"] show ?thesis using c
    by (auto simp: DeploymentFor_def podSpecFor_def)
qed

end
