(* ===== verification/Rollout.thy ===== *)
theory Rollout
  imports Convergence Workload
begin

text \<open>
  From the spec of a Plant to its pods. What the operator promises about the objects it manages is
  stated without its \<open>mutate\<close> functions (\<open>delivers\<close>), a successful Reconcile of a quiet cluster is
  shown to establish it for everything that is stored, and the stored ConfigMap is followed into the
  configuration of the workload. The last section is about a spec that changes later.
\<close>

section \<open>What the operator promises about an object\<close>

definition carries :: "plant \<Rightarrow> object_meta \<Rightarrow> bool" where
  "carries p m \<longleftrightarrow> GetControllerOf m = Some (plant_ref p) \<and> LabelsFor p \<subseteq>\<^sub>m mLabels m"

text \<open>The workload's container comes first and is alone of its name; what is left to the server is \<open>coServer\<close>.\<close>

definition runs :: "plant \<Rightarrow> pod_spec \<Rightarrow> bool" where
  "runs p s \<longleftrightarrow> poServiceAccountName s = pName p \<and> poAutomount s = Some False \<and>
     poSecurityContext s = poSecurityContext (podSpecFor p) \<and> poTopologySpread s = poTopologySpread (podSpecFor p) \<and>
     poTerminationGracePeriodSeconds s = Some terminationGracePeriodSeconds \<and>
     (\<exists>c cs. poContainers s = c # cs \<and> same_container (containerFor p) c \<and> containerName \<notin> set (map coName cs))"

fun delivers :: "plant \<Rightarrow> object \<Rightarrow> bool" where
  "delivers p (ODeployment d) \<longleftrightarrow> carries p (dMeta d) \<and> dReplicas d = Some (replicasFor p) \<and> dSelector d \<noteq> None \<and>
     LabelsFor p \<subseteq>\<^sub>m dTemplateLabels d \<and> runs p (dPodSpec d)"
| "delivers p (OService v) \<longleftrightarrow> carries p (svMeta v) \<and> svType v = ''ClusterIP'' \<and> svSelector v = SelectorFor p \<and>
     svPorts v = svPorts (ServiceFor p)"
| "delivers p (OConfigMap c) \<longleftrightarrow> carries p (cmMeta c) \<and> cmData c = cmData (ConfigMapFor p)"
| "delivers p (OPodDisruptionBudget b) \<longleftrightarrow> carries p (pdbMeta b) \<and>
     pdbMinAvailable b = pdbMinAvailable (PodDisruptionBudgetFor p) \<and> pdbSelector b \<noteq> None"
| "delivers p (OServiceAccount a) \<longleftrightarrow> carries p (saMeta a) \<and> saAutomount a = Some False"
| "delivers p (ONetworkPolicy n) \<longleftrightarrow> carries p (npMeta n) \<and> npPodSelector n = SelectorFor p \<and>
     npPolicyTypes n = [''Ingress'', ''Egress''] \<and> npIngress n = npIngress (NetworkPolicyFor p) \<and>
     npEgress n = npEgress (NetworkPolicyFor p)"
| "delivers p (OServiceMonitor m) \<longleftrightarrow> carries p (smMeta m) \<and> smMatchLabels m = SelectorFor p \<and>
     smEndpoints m = smEndpoints (ServiceMonitorFor p)"

lemma delivers_same:
  assumes "same_plant p q" shows "delivers q x = delivers p x"
proof -
  note b = same_plant_builders [OF assms]
  have n: "pName q = pName p" "Spec q = Spec p" using assms by (simp_all add: same_plant_def)
  have s: "podSpecFor q = podSpecFor p" "containerFor q = containerFor p" "replicasFor q = replicasFor p" "SelectorFor q = SelectorFor p"
    using b(1) n by (simp_all add: DeploymentFor_def containerFor_def replicasFor_def SelectorFor_def)
  show ?thesis by (cases x) (simp_all add: carries_def runs_def b n s)
qed

lemma merge_container_fixed: "merge_container c w = c \<Longrightarrow> coName c = coName w \<Longrightarrow> same_container w c"
  by (cases c; cases w) (simp add: merge_container_def same_container_def)

lemma mergeContainers_fixed:
  assumes "mergeContainers cs [w] = cs"
  shows "\<exists>c ds. cs = c # ds \<and> same_container w c \<and> coName w \<notin> set (map coName ds)"
proof -
  let ?h = "case existing_by_name cs (coName w) of Some h \<Rightarrow> merge_container h w | None \<Rightarrow> w"
  have "cs = ?h # filter (\<lambda>c. coName c \<noteq> coName w) cs" using assms unfolding mergeContainers_one by (rule sym)
  moreover have "same_container w ?h"
    using existing_by_name_name [of cs "coName w"] by (auto split: option.split intro: merge_container_fixed)
  moreover have "coName w \<notin> set (map coName (filter (\<lambda>c. coName c \<noteq> coName w) cs))" by auto
  ultimately show ?thesis by blast
qed

context controller_reference begin

lemma carries_mutated: "mutate set_ref p x = Inr x \<Longrightarrow> carries p (obj_meta x)"
  using mutate_owner [of p x x] mutate_labels [of p x x] map_le_map_add [of "LabelsFor p" "mLabels (obj_meta x)"]
  by (simp add: carries_def mergeLabels_def)

lemma delivers_mutated:
  assumes "mutate set_ref p x = Inr x" shows "delivers p x"
proof -
  note c = carries_mutated [OF assms]
  have o: "owned_meta set_ref p (obj_meta x) (LabelsFor p) = Inr (obj_meta x)" using mutate_meta [OF assms] .
  show ?thesis
  proof (cases x)
    case (ODeployment d)
    have "mutateDeployment set_ref p d = Inr d" using assms ODeployment
      by (cases "mutateDeployment set_ref p d") auto
    note f = mutateDeployment_fixed [OF this]
    have "LabelsFor p \<subseteq>\<^sub>m dTemplateLabels d" by (subst f(3)) (simp add: mergeLabels_def)
    moreover have "runs p (dPodSpec d)"
      using mergeContainers_fixed [OF f(9)] f(4-8) unfolding runs_def
      by (simp add: podSpecFor_def containerFor_def)
    ultimately show ?thesis using c f(1,2) by (simp add: ODeployment DeploymentFor_def)
  next
    case (OService v)
    with assms c o show ?thesis by (cases v) (simp add: mutateService_def builder_defs Let_def, simp add: ServiceFor_def)
  next
    case (OConfigMap v)
    with assms c o show ?thesis by (cases v) (simp add: mutateConfigMap_def builder_defs Let_def)
  next
    case (OPodDisruptionBudget v)
    have "pdbSelector (PodDisruptionBudgetFor p) = Some (SelectorFor p)" by (simp add: PodDisruptionBudgetFor_def Let_def)
    with OPodDisruptionBudget assms c o show ?thesis
      by (cases v) (auto simp: mutatePodDisruptionBudget_def builder_defs Let_def split: if_splits)
  next
    case (OServiceAccount v)
    with assms c o show ?thesis by (cases v) (simp add: mutateServiceAccount_def builder_defs Let_def, simp add: ServiceAccountFor_def)
  next
    case (ONetworkPolicy v)
    with assms c o show ?thesis by (cases v) (simp add: mutateNetworkPolicy_def builder_defs Let_def, simp add: NetworkPolicyFor_def)
  next
    case (OServiceMonitor v)
    with assms c o show ?thesis by (cases v) (simp add: mutateServiceMonitor_def builder_defs Let_def, simp add: ServiceMonitorFor_def)
  qed
qed

end

context controller_reference begin

text \<open>The Deployment depends on the Plant through the desired Deployment and the owner reference only.\<close>

lemma mutate_same_template:
  assumes "mutate set_ref p (ODeployment d) = Inr (ODeployment d)" "DeploymentFor q = DeploymentFor p"
    "plant_ref q = plant_ref p" "pNamespace q = pNamespace p"
  shows "mutate set_ref q (ODeployment d) = Inr (ODeployment d)"
proof -
  define D where "D = DeploymentFor p"
  have l: "mLabels (dMeta D) = LabelsFor p" unfolding D_def by (rule desired_labels)
  have o: "owned_meta set_ref p (dMeta d) (LabelsFor p) = Inr (dMeta d)" using mutate_meta [OF assms(1)] by simp
  have "owned_meta set_ref q (dMeta d) (LabelsFor p) = Inr (dMeta d)"
    using owned_meta_settled [OF o assms(3,4), of "dMeta d"] by simp
  then have "mutateDeployment set_ref q d = mutateDeployment set_ref p d"
    using o unfolding mutateDeployment_def assms(2) D_def [symmetric] Let_def l by simp
  then show ?thesis using assms(1) by simp
qed

end

section \<open>What a successful Reconcile leaves in the cluster\<close>

lemma in_place_delivers:
  assumes "controller_reference ref" "in_place ref q objs cs xs" "c \<in> set cs"
  shows "\<exists>x. objs (obj_kind c, obj_key c) = Some x \<and> obj_kind x = obj_kind c \<and> obj_key x = obj_key c \<and> delivers q x"
  using assms(2,3) controller_reference.delivers_mutated [OF assms(1)]
  unfolding in_place_def list_all2_conv_all_nth in_set_conv_nth by fastforce

text \<open>The status a Plant has once it was computed from its Deployment, times rounded and LastWatered apart.\<close>

definition reported :: "'w reconciler \<Rightarrow> plant \<Rightarrow> deployment \<Rightarrow> plant_status \<Rightarrow> bool" where
  "reported r p dep st \<longleftrightarrow> (\<exists>f t1 t2. st\<lparr>stLastWatered := None\<rparr> =
     (rounded f (computeStatus (rSetStatusCondition r) p dep t1 t2))\<lparr>stLastWatered := None\<rparr>)"

lemma Reconcile_delivers:
  assumes "quiet_cluster r pause plants objects monitors cached" "plants (world s) req = Some p" "cached (world s) req = Some p"
    "plant_key p = req" "active p" "keyed (objects (world s))" "Reconcile r req s = (Inr d, s1)"
  shows "\<forall>c \<in> set (required p (noticed monitors s1)). \<exists>x.
      objects (world s1) (obj_kind c, obj_key c) = Some x \<and> obj_kind x = obj_kind c \<and> obj_key x = obj_key c \<and> delivers p x"
    "\<forall>i. i \<notin> set (ids (required p (noticed monitors s1))) \<longrightarrow> objects (world s1) i = objects (world s) i"
    "\<exists>q dep. plants (world s1) req = Some q \<and> same_plant p q \<and>
      objects (world s1) (''Deployment'', req) = Some (ODeployment dep) \<and> reported r p dep (Status q)"
proof -
  have c: "controller_reference (rSetControllerReference r)"
    using assms(1) by (simp add: quiet_cluster_def plant_operator_def)
  let ?ref = "rSetControllerReference r" and ?objs = "objects (world s1)"
  from quiet_cluster.Reconcile_arrives [OF assms(1,7,2-6)] obtain q xs ys t1 t2 f where
    q: "plants (world s1) req = Some q" "same_plant p q"
    "in_place ?ref q ?objs (blank_children q) xs"
    "noticed monitors s1 \<Longrightarrow> in_place ?ref q ?objs [OServiceMonitor (ServiceMonitorFor q)] ys"
    "\<not> statusChanged (Status q) (rounded f (computeStatus (rSetStatusCondition r) p (deployment_of q xs) t1 t2))"
    "\<And>i. i \<notin> set (ids (required p (noticed monitors s1))) \<Longrightarrow> ?objs i = objects (world s) i"
    by metis
  note b = same_plant_builders [OF q(2)]
  have r: "required q m = required p m" for m by (simp add: required_def child_table_def b)
  have i: "\<exists>x. ?objs (obj_kind c', obj_key c') = Some x \<and> obj_kind x = obj_kind c' \<and> obj_key x = obj_key c' \<and> delivers p x"
    if "c' \<in> set (required q (noticed monitors s1))" for c'
    using that in_place_delivers [OF c q(3), of c'] in_place_delivers [OF c, of q ?objs "[OServiceMonitor (ServiceMonitorFor q)]" ys c'] q(4)
      delivers_same [OF q(2)]
    by (auto simp: required_def child_table_def split: if_splits)
  then show "\<forall>c \<in> set (required p (noticed monitors s1)). \<exists>x.
      ?objs (obj_kind c, obj_key c) = Some x \<and> obj_kind x = obj_kind c \<and> obj_key x = obj_key c \<and> delivers p x"
    unfolding r by blast
  show "\<forall>i. i \<notin> set (ids (required p (noticed monitors s1))) \<longrightarrow> ?objs i = objects (world s) i" using q(6) by blast
  obtain x zs where x: "xs = x # zs" "?objs (''Deployment'', plant_key q) = Some x" "obj_kind x = ''Deployment''"
    using q(3) by (auto simp: in_place_def blank_children_def list_all2_Cons1 obj_key_def objectMeta_def new_meta_def Let_def)
  obtain dep where dep: "x = ODeployment dep" using x(3) by (cases x) auto
  have "reported r p dep (Status q)" using q(5) unfolding reported_def statusChanged_def x(1) dep by auto
  then show "\<exists>q dep. plants (world s1) req = Some q \<and> same_plant p q \<and>
      ?objs (''Deployment'', req) = Some (ODeployment dep) \<and> reported r p dep (Status q)"
    using q(1,2) x(2) dep b(11) assms(4) by auto
qed

section \<open>Properties\<close>

text \<open>C5: A successful Reconcile of a Plant that is neither being deleted nor refused for its
  name, fetched as it is stored, establishes the desired state. When nobody else acts, it leaves in the
  cluster every child of the Plant's table under its own kind and key, owned by the Plant, labelled, and with
  every field the operator promises set from the Plant's spec, whatever was stored before and whatever
  the API server adds; the ServiceMonitor is among them when its kind is installed and the operator does
  not remember it as missing, and is not touched otherwise; nothing outside the table is touched. The
  stored status is, in every field but LastWatered and up to the rounding of times, the one computed from
  the Plant and the stored Deployment.\<close>

theorem desired_state_stored:
  assumes "quiet_cluster r pause plants objects monitors cached" "plants (world s) req = Some p" "cached (world s) req = Some p"
    "plant_key p = req" "active p" "keyed (objects (world s))" "Reconcile r req s = (Inr d, s1)"
  shows "(\<forall>c \<in> set (required p (noticed monitors s1)). \<exists>x.
      objects (world s1) (obj_kind c, obj_key c) = Some x \<and> obj_kind x = obj_kind c \<and> obj_key x = obj_key c \<and> delivers p x) \<and>
    (\<forall>i. i \<notin> set (ids (required p (noticed monitors s1))) \<longrightarrow> objects (world s1) i = objects (world s) i) \<and>
    (\<exists>q dep f t1 t2. plants (world s1) req = Some q \<and> same_plant p q \<and>
      objects (world s1) (''Deployment'', req) = Some (ODeployment dep) \<and>
      (Status q)\<lparr>stLastWatered := None\<rparr> =
        (rounded f (computeStatus (rSetStatusCondition r) p dep t1 t2))\<lparr>stLastWatered := None\<rparr>)"
  using Reconcile_delivers [OF assms] unfolding reported_def by blast

lemma first_reconcile:
  obtains d s1 where "Reconcile store_reconciler demo_key (store_state [demo_plant] []) = (Inr d, s1)"
    "storePlants (world (store_state [demo_plant] [])) demo_key = Some demo_plant" "plant_key demo_plant = demo_key"
    "keyed (storeObjects (world (store_state [demo_plant] [])))"
  using store_reconciles by (auto simp: store_state_def demo_plant_def demo_key_def keyed_def)

theorem desired_state_stored_witness:
  "\<exists>d s1 x. Reconcile store_reconciler demo_key (store_state [demo_plant] []) = (Inr d, s1) \<and>
     storeObjects (world s1) (''ConfigMap'', demo_key) = Some x \<and> delivers demo_plant x"
proof -
  obtain d s1 where f: "Reconcile store_reconciler demo_key (store_state [demo_plant] []) = (Inr d, s1)"
    "storePlants (world (store_state [demo_plant] [])) demo_key = Some demo_plant" "plant_key demo_plant = demo_key"
    "keyed (storeObjects (world (store_state [demo_plant] [])))"
    by (rule first_reconcile)
  note D = desired_state_stored [OF quiet_store.quiet_cluster_axioms f(2,2,3) demo_active f(4,1)]
  have "\<exists>c \<in> set (required demo_plant b). obj_kind c = ''ConfigMap'' \<and> obj_key c = demo_key" for b
    by (simp add: required_def child_table_def blank_children_def obj_key_def objectMeta_def new_meta_def demo_key_def demo_plant_def Let_def)
  then show ?thesis using conjunct1 [OF D] f(1) by metis
qed

text \<open>C11: What the user wrote is what the pods run with. After a successful Reconcile of a
  Plant that is neither being deleted nor refused for its name, fetched as it is stored, in a cluster
  where nobody else acts, the workload's container of the stored Deployment is the only one of its name,
  runs the Plant's image and takes its environment from the stored ConfigMap; and whatever else is in
  that environment, loadConfig accepts it exactly when the latency budget is positive and the port and
  refresh interval, which only the rest of the environment can set, are valid, and what it makes of it
  has the name, the species (fern for an empty one), the latency budget and the chaos switch of the
  Plant's spec.\<close>

theorem pods_run_the_spec:
  assumes "quiet_cluster r pause plants objects monitors cached" "plants (world s) req = Some p" "cached (world s) req = Some p"
    "plant_key p = req" "active p" "keyed (objects (world s))" "Reconcile r req s = (Inr d, s1)" "pName p \<noteq> []"
  shows "\<exists>dep cm. objects (world s1) (''Deployment'', req) = Some (ODeployment dep) \<and>
    objects (world s1) (''ConfigMap'', req) = Some (OConfigMap cm) \<and> mName (cmMeta cm) = pName p \<and>
    dReplicas dep = Some (replicasFor p) \<and>
    (\<exists>c. filter (\<lambda>c. coName c = containerName) (poContainers (dPodSpec dep)) = [c] \<and>
       coImage c = spImage (Spec p) \<and> coEnvFrom c = [mName (cmMeta cm)]) \<and>
    (\<forall>extra cfg. loadConfig (extra ++ cmData cm) = Inr cfg \<longleftrightarrow>
       0 < sint (spLatencyBudget (Spec p)) \<and> extra_config extra (bPort cfg) (bHealthRefreshInterval cfg) \<and> spec_config p cfg)"
proof -
  note D = Reconcile_delivers(1) [OF assms(1-7)]
  have k: "\<exists>c \<in> set (required p b). obj_kind c = ''Deployment'' \<and> obj_key c = req"
    "\<exists>c \<in> set (required p b). obj_kind c = ''ConfigMap'' \<and> obj_key c = req" for b
    using assms(4)
    by (simp_all add: required_def child_table_def blank_children_def obj_key_def objectMeta_def new_meta_def Let_def)
  obtain x where x: "objects (world s1) (''Deployment'', req) = Some x" "obj_kind x = ''Deployment''" "delivers p x"
    using D k(1) by metis
  obtain y where y: "objects (world s1) (''ConfigMap'', req) = Some y" "obj_kind y = ''ConfigMap''" "obj_key y = req" "delivers p y"
    using D k(2) by metis
  obtain dep where dep: "x = ODeployment dep" using x(2) by (cases x) auto
  obtain cm where cm: "y = OConfigMap cm" using y(2) by (cases y) auto
  obtain c cs where c: "poContainers (dPodSpec dep) = c # cs" "same_container (containerFor p) c" "containerName \<notin> set (map coName cs)"
    using x(3) by (auto simp: dep runs_def)
  have f: "filter (\<lambda>c. coName c = containerName) cs = []" using c(3) by (force simp: filter_empty_conv)
  have w: "c = (containerFor p)\<lparr>coServer := coServer c\<rparr>" using c(2) by (simp only: same_container_def)
  have e: "coName c = containerName" "coImage c = spImage (Spec p)" "coEnvFrom c = [pName p]"
    by (subst w, simp add: containerFor_def)+
  have n: "mName (cmMeta cm) = pName p" using y(3) assms(4) by (auto simp: cm obj_key_def)
  have "cmData cm = cmData (ConfigMapFor p)" using y(4) by (simp add: cm)
  then have "\<forall>extra cfg. loadConfig (extra ++ cmData cm) = Inr cfg \<longleftrightarrow>
       0 < sint (spLatencyBudget (Spec p)) \<and> extra_config extra (bPort cfg) (bHealthRefreshInterval cfg) \<and> spec_config p cfg"
    using pod_startup [OF assms(8)] by auto
  then show ?thesis using x(1,3) y(1) by (simp add: dep cm n c(1) f e)
qed

theorem pods_run_the_spec_witness:
  "\<exists>s1 cm cfg. storeObjects (world s1) (''ConfigMap'', demo_key) = Some (OConfigMap cm) \<and>
     (\<exists>d. Reconcile store_reconciler demo_key (store_state [demo_plant] []) = (Inr d, s1)) \<and>
     loadConfig (cmData cm) = Inr cfg \<and> spec_config demo_plant cfg"
proof -
  obtain d s1 where f: "Reconcile store_reconciler demo_key (store_state [demo_plant] []) = (Inr d, s1)"
    "storePlants (world (store_state [demo_plant] [])) demo_key = Some demo_plant" "plant_key demo_plant = demo_key"
    "keyed (storeObjects (world (store_state [demo_plant] [])))"
    by (rule first_reconcile)
  have n: "pName demo_plant \<noteq> []" "0 < sint (spLatencyBudget (Spec demo_plant))"
    by (simp_all add: demo_plant_def)
  obtain cm where cm: "storeObjects (world s1) (''ConfigMap'', demo_key) = Some (OConfigMap cm)"
    "\<forall>extra cfg. loadConfig (extra ++ cmData cm) = Inr cfg \<longleftrightarrow> 0 < sint (spLatencyBudget (Spec demo_plant)) \<and>
       extra_config extra (bPort cfg) (bHealthRefreshInterval cfg) \<and> spec_config demo_plant cfg"
    using pods_run_the_spec [OF quiet_store.quiet_cluster_axioms f(2,2,3) demo_active f(4,1) n(1)] by auto
  have "extra_config Map.empty 8080 (5 * second)" by (simp add: extra_config_unset)
  then obtain cfg where "loadConfig (Map.empty ++ pod_env demo_plant) = Inr cfg"
    using pod_starts [OF n(1), of Map.empty] n(2) by blast
  then have "loadConfig (Map.empty ++ cmData cm) = Inr cfg" "spec_config demo_plant cfg"
    unfolding cm(2) [rule_format] pod_startup [OF n(1)] by blast+
  then show ?thesis using cm(1) f(1) by auto
qed

section \<open>A spec that changes later\<close>

definition deployment_write :: "call \<Rightarrow> bool" where
  "deployment_write c \<longleftrightarrow> (case c of
     CreateObject obj res \<Rightarrow> obj_kind obj = ''Deployment''
   | UpdateObject obj res \<Rightarrow> obj_kind obj = ''Deployment''
   | _ \<Rightarrow> False)"

text \<open>\<open>spares\<close>: none of the calls made since writes a Deployment.\<close>

definition spares :: "'w state \<Rightarrow> 'w state \<Rightarrow> bool" where
  "spares s s' \<longleftrightarrow> extends (\<lambda>tr. filter deployment_write tr = []) s s'"

interpretation sparing: trace_property "\<lambda>tr. filter deployment_write tr = []"
  by unfold_locales simp_all

lemma spares_trans: "spares a b \<Longrightarrow> spares b c \<Longrightarrow> spares a c"
  unfolding spares_def by (rule sparing.extends_trans)

lemma deployment_write_child: "deployment_write c \<Longrightarrow> child_write c"
  by (cases c) (simp_all add: deployment_write_def child_write_def)

lemma spares_no_write: "calls s' = calls s @ tr \<Longrightarrow> filter is_write tr = [] \<or> filter child_write tr = [] \<Longrightarrow> spares s s'"
  using deployment_write_child by (fastforce simp: spares_def extends_def filter_empty_conv child_write_def)

context quiet_cluster begin

lemma hush_spares: "hush s s' \<Longrightarrow> spares s s'"
  using spares_no_write by (auto simp: quiet_def)

lemma applyChild_spares:
  assumes "applyChild r p obj s = (res, s')" "keyed (objects (world s))" "obj_kind obj \<noteq> ''Deployment''"
  shows "spares s s'"
proof -
  let ?ref = "rSetControllerReference r"
  obtain y w where rd: "rdObject (reader_of r) (obj_kind obj) (obj_key obj) (world s) = (y, w)" by fastforce
  have k: "obj_kind x \<noteq> ''Deployment''" if "y = Inr x" for x
    using read_object [OF rd] that assms(2) [unfolded keyed_def, rule_format, of "obj_kind obj" "obj_key obj" x] assms(3)
    by (auto split: option.splits)
  have "\<exists>tr. calls s' = calls s @ tr \<and> filter deployment_write tr = []"
    using assms(1,3) rd k
    by (cases y) (auto simp: applyChild_def invoke_def deployment_write_def Let_def dest!: mutate_kind
        split: if_splits sum.splits prod.splits option.splits)
  then show ?thesis by (simp add: spares_def extends_def)
qed

lemma applyChildren_spares:
  "applyChildren r p cs f s = (res, s') \<Longrightarrow> keyed (objects (world s)) \<Longrightarrow> \<forall>c \<in> set cs. obj_kind c \<noteq> ''Deployment'' \<Longrightarrow>
     spares s s' \<and> (\<not> isl res \<longrightarrow> keyed (objects (world s')))"
proof (induction cs arbitrary: f s res)
  case Nil
  then show ?case by (auto simp: spares_def intro: sparing.extends_refl)
next
  case (Cons c cs)
  obtain r1 s1 where 1: "applyChild r p c s = (r1, s1)" by fastforce
  have sp: "spares s s1" using applyChild_spares [OF 1 Cons.prems(2)] Cons.prems(3) by simp
  show ?case
  proof (cases r1)
    case (Inl e)
    then show ?thesis using Cons.prems(1) 1 sp by auto
  next
    case (Inr y)
    obtain op x where y: "y = (op, x)" by (cases y)
    obtain r2 s2 where 2: "applyChildren r p cs (note_result op f) s1 = (r2, s2)" by fastforce
    have s2: "s2 = s'" "isl res = isl r2" using Cons.prems(1) 1 2 Inr y by (auto split: sum.splits prod.splits)
    have "keyed (objects (world s1))" using applyChild_places [OF 1 [unfolded Inr y] Cons.prems(2)] by blast
    then have "spares s1 s' \<and> (\<not> isl r2 \<longrightarrow> keyed (objects (world s')))"
      using Cons.IH [OF 2 [unfolded s2(1)]] Cons.prems(3) by simp
    then show ?thesis using spares_trans [OF sp] s2(2) by auto
  qed
qed

lemma reconcileChildren_spares:
  assumes "reconcileChildren r q s = (res, s')" "keyed (objects (world s))"
    "in_place (rSetControllerReference r) q (objects (world s)) [hd (blank_children q)] [x]"
  shows "spares s s'"
proof -
  obtain d cs where b: "blank_children q = d # cs" "\<forall>c \<in> set cs. obj_kind c \<noteq> ''Deployment''"
    by (simp add: blank_children_def Let_def)
  obtain s1 where 1: "applyChild r q d s = (Inr (ResultNone, x), s1)" "hush s s1"
    using applyChild_in_place [OF assms(3)] b(1) by auto
  have k1: "keyed (objects (world s1))" using 1(2) assms(2) by (simp add: quiet_def still_def)
  obtain r2 s2 where 2: "applyChildren r q cs (False, False) s1 = (r2, s2)" by fastforce
  note sp2 = applyChildren_spares [OF 2 k1 b(2)]
  obtain a s3 where 3: "serviceMonitorCRDAvailable r s2 = (a, s3)" by fastforce
  have h3: "hush s2 s3" using serviceMonitorCRDAvailable_known [OF 3] by simp
  obtain r4 s4 where 4: "applyChild r q (OServiceMonitor (ServiceMonitorFor q)) s3 = (r4, s4)" by fastforce
  have s12: "spares s s2" using spares_trans [OF hush_spares [OF 1(2)]] sp2 by blast
  have e: "applyChildren r q (blank_children q) (False, False) s =
      (case r2 of Inl e \<Rightarrow> (Inl e, s2) | Inr (xs, f) \<Rightarrow> (Inr (x # xs, f), s2))"
    using 1(1) 2 by (simp add: b(1))
  show ?thesis
  proof (cases r2)
    case (Inl y)
    then have "s' = s2" using assms(1) e by (auto simp: reconcileChildren_def)
    then show ?thesis using s12 by simp
  next
    case (Inr y)
    then have "keyed (objects (world s3))" using sp2 h3 by (simp add: quiet_def still_def)
    then have "spares s3 s4" by (rule applyChild_spares [OF 4]) simp
    then have "spares s s3" "spares s s4" using spares_trans [OF s12 hush_spares [OF h3]] spares_trans by blast+
    moreover have "s' = s3 \<or> s' = s4"
      using assms(1) e 3 4 Inr by (cases y; cases a; cases r4) (auto simp: reconcileChildren_def)
    ultimately show ?thesis by auto
  qed
qed

lemma Reconcile_spares:
  assumes "Reconcile r req s = (res, s')" "cached (world s) req = Some q" "plant_key q = req" "keyed (objects (world s))"
    "in_place (rSetControllerReference r) q (objects (world s)) [hd (blank_children q)] [x]"
  shows "spares s s'"
proof -
  have f: "rd = Inr q \<and> spares s s1 \<and> objects (world s1) = objects (world s)" if "fetch r req s = (rd, s1)" for rd s1
    using that get_cached [of req "world s"] assms(2) by (auto simp: invoke_def still_def spares_def extends_def deployment_write_def split: prod.splits)
  have m: "spares a b" if "markDegraded r p reason msg a = (e, b)" for p reason msg a e b
    using that by (cases rule: markDegraded_cases)
      (case_tac "statusChanged (Status p) ns"; fastforce intro: spares_no_write simp: child_write_def)
  have lg: "spares s1 (log_info l s1)" for s1 :: "'w state" and l
    by (rule spares_no_write [of _ _ "[]"]) (simp_all add: log_info_def)
  have ch: "spares s1 s2" if "fetch r req s = (Inr p, s1)" "reconcileChildren r p s1 = (cr, s2)" for p s1 cr s2
    using f [OF that(1)] that(2) reconcileChildren_spares [of q s1 cr s2 x] assms(4,5) by auto
  from assms(1) show ?thesis
  proof (cases rule: Reconcile_exhaust)
    case (overlong p s1 e)
    from f [OF overlong(1)] m [OF overlong(4)] lg show ?thesis using spares_trans by blast
  next
    case (failed p s1 e)
    from f [OF failed(1)] ch [OF failed(1,3)] show ?thesis using spares_trans by blast
  next
    case (blocked p s1 e s2 c md)
    from f [OF blocked(1)] ch [OF blocked(1,3)] m [OF blocked(5)] show ?thesis using spares_trans by blast
  next
    case (applied p s1 dep fl s2 st)
    obtain ns tr where "calls s' = calls s2 @ tr" "status_run ns None tr"
      using reconcileStatus_cases [OF applied(4)] drift_event_calls by metis
    then have "spares s2 s'" using spares_no_write status_run_no_write by blast
    with f [OF applied(1)] ch [OF applied(1,3)] show ?thesis using spares_trans by blast
  qed (use f in blast)+
qed

end

text \<open>C16: A change of the spec that the pods do not get. The latency budget and the chaos switch
  reach a pod only through the ConfigMap, which it reads when it starts, and nothing of them is in the
  Deployment: when a Deployment is in line with one spec of a Plant, then no Reconcile of another spec that
  differs from it in these alone writes the Deployment, whatever its outcome, in a cluster where nobody
  else acts; so no pod is replaced, although a pod that starts from then on gets another configuration,
  exactly when one of them (or the species, which the webhook keeps from changing) is another one.\<close>

theorem config_change_no_rollout:
  assumes "quiet_cluster r pause plants objects monitors cached" "cached (world s) req = Some q" "plant_key q = req"
    "keyed (objects (world s))"
    and "objects (world s) (''Deployment'', req) = Some (ODeployment dep)"
    and "mutate (rSetControllerReference r) p (ODeployment dep) = Inr (ODeployment dep)"
    and "plant_ref q = plant_ref p" "pNamespace q = pNamespace p" "pName p \<noteq> []" "spReplicas (Spec q) = spReplicas (Spec p)"
      "spImage (Spec q) = spImage (Spec p)" "spResourceProfile (Spec q) = spResourceProfile (Spec p)"
    and "Reconcile r req s = (res, s')" "0 < sint (spLatencyBudget (Spec p))" "extra_config extra port interval"
  shows "(\<exists>tr. calls s' = calls s @ tr \<and> filter deployment_write tr = []) \<and>
    (loadConfig (extra ++ pod_env q) = loadConfig (extra ++ pod_env p) \<longleftrightarrow>
        spLatencyBudget (Spec q) = spLatencyBudget (Spec p) \<and> spEnableEndpoints (Spec q) = spEnableEndpoints (Spec p) \<and>
        (spSpecies (Spec q) = spSpecies (Spec p) \<or> {spSpecies (Spec q), spSpecies (Spec p)} = {[], ''fern''}))"
proof
  have n: "pName q = pName p" using assms(7) by (simp add: plant_ref_def)
  have L: "LabelsFor q = LabelsFor p" "SelectorFor q = SelectorFor p" "replicasFor q = replicasFor p" "containerFor q = containerFor p"
    by (simp_all add: LabelsFor_def SelectorFor_def replicasFor_def containerFor_def n assms(10-12))
  have "podSpecFor q = podSpecFor p" by (simp add: podSpecFor_def n L)
  then have D: "DeploymentFor q = DeploymentFor p" by (simp add: DeploymentFor_def n assms(8) L)
  have c: "controller_reference (rSetControllerReference r)" using assms(1) by (simp add: quiet_cluster_def plant_operator_def)
  have k: "obj_kind (hd (blank_children q)) = ''Deployment''" "obj_key (hd (blank_children q)) = req"
    using assms(3) by (auto simp: blank_children_def obj_key_def objectMeta_def new_meta_def Let_def)
  have "mutate (rSetControllerReference r) q (ODeployment dep) = Inr (ODeployment dep)"
    by (rule controller_reference.mutate_same_template [OF c assms(6) D assms(7,8)])
  then have "in_place (rSetControllerReference r) q (objects (world s)) [hd (blank_children q)] [ODeployment dep]"
    using assms(5) assms(4) [unfolded keyed_def, rule_format, OF assms(5)] by (simp add: in_place_def k del: mutate.simps)
  then have "spares s s'" by (rule quiet_cluster.Reconcile_spares [OF assms(1,13,2,3,4)])
  then show "\<exists>tr. calls s' = calls s @ tr \<and> filter deployment_write tr = []" by (simp add: spares_def extends_def)
  obtain cfg where cfg: "loadConfig (extra ++ pod_env p) = Inr cfg" using pod_starts [OF assms(9)] assms(14,15) by blast
  have nq: "pName q \<noteq> []" using n assms(9) by simp
  have "loadConfig (extra ++ pod_env q) = loadConfig (extra ++ pod_env p) \<longleftrightarrow> spec_config q cfg \<and> 0 < sint (spLatencyBudget (Spec q))"
    using pod_startup [OF nq, of extra cfg] pod_startup [OF assms(9), of extra cfg] cfg by auto
  also have "\<dots> \<longleftrightarrow> spLatencyBudget (Spec q) = spLatencyBudget (Spec p) \<and> spEnableEndpoints (Spec q) = spEnableEndpoints (Spec p) \<and>
        (spSpecies (Spec q) = spSpecies (Spec p) \<or> {spSpecies (Spec q), spSpecies (Spec p)} = {[], ''fern''})"
    using pod_startup [OF assms(9), of extra cfg] cfg assms(14) n
    by (auto simp: spec_config_def doubleton_eq_iff split: if_splits)
  finally show "loadConfig (extra ++ pod_env q) = loadConfig (extra ++ pod_env p) \<longleftrightarrow>
        spLatencyBudget (Spec q) = spLatencyBudget (Spec p) \<and> spEnableEndpoints (Spec q) = spEnableEndpoints (Spec p) \<and>
        (spSpecies (Spec q) = spSpecies (Spec p) \<or> {spSpecies (Spec q), spSpecies (Spec p)} = {[], ''fern''})" .
qed

theorem config_change_no_rollout_witness:
  "(let q = demo_plant\<lparr>Spec := (Spec demo_plant)\<lparr>spEnableEndpoints := True\<rparr>\<rparr> in
     \<exists>dep tr. calls (snd (Reconcile store_reconciler demo_key (store_state [q] [ODeployment dep]))) = tr \<and>
       filter deployment_write tr = [] \<and> loadConfig (pod_env q) \<noteq> loadConfig (pod_env demo_plant))"
proof -
  let ?q = "demo_plant\<lparr>Spec := (Spec demo_plant)\<lparr>spEnableEndpoints := True\<rparr>\<rparr>"
  have "GetControllerOf (obj_meta (ODeployment (DeploymentFor demo_plant))) = None"
    "mNamespace (obj_meta (ODeployment (DeploymentFor demo_plant))) = pNamespace demo_plant"
    by (simp_all add: DeploymentFor_def new_meta_def GetControllerOf_def)
  then obtain x where x: "mutate set_controller_reference demo_plant (ODeployment (DeploymentFor demo_plant)) = Inr x"
    using unowned_mutates by metis
  obtain dep where dep: "x = ODeployment dep" using mutate_kind [OF x] by (cases x) auto
  note m = owner.mutate_again [OF x, unfolded dep] and k = owner.mutate_key [OF x, unfolded dep]
  have k': "obj_key (ODeployment dep) = demo_key"
    unfolding k by (simp add: obj_key_def DeploymentFor_def new_meta_def demo_key_def demo_plant_def)
  let ?s = "store_state [?q] [ODeployment dep]"
  have o: "storePlants (world ?s) demo_key = Some ?q" "plant_key ?q = demo_key" "keyed (storeObjects (world ?s))"
    "storeObjects (world ?s) (''Deployment'', demo_key) = Some (ODeployment dep)" "calls ?s = []"
    using k' by (simp_all add: store_state_def keyed_def demo_key_def demo_plant_def)
  have r: "mutate (rSetControllerReference store_reconciler) demo_plant (ODeployment dep) = Inr (ODeployment dep)"
    using m by (simp add: store_reconciler_def)
  have n: "plant_ref ?q = plant_ref demo_plant" "pNamespace ?q = pNamespace demo_plant" "pName demo_plant \<noteq> []"
    "0 < sint (spLatencyBudget (Spec demo_plant))" "spEnableEndpoints (Spec ?q) \<noteq> spEnableEndpoints (Spec demo_plant)"
    by (simp_all add: plant_ref_def demo_plant_def)
  obtain res s' where R: "Reconcile store_reconciler demo_key ?s = (res, s')" by fastforce
  have e: "extra_config Map.empty 8080 (5 * second)" by (simp add: extra_config_unset)
  from config_change_no_rollout [OF quiet_store.quiet_cluster_axioms o(1-3) o(4) r n(1,2,3) _ _ _ R n(4) e]
  have "filter deployment_write (calls s') = []" "loadConfig (pod_env ?q) \<noteq> loadConfig (pod_env demo_plant)"
    using n(5) o(5) by auto
  then show ?thesis unfolding Let_def by (intro exI [of _ dep] exI [of _ "calls s'"]) (simp add: R)
qed

end
