(* ===== verification/ChaosEngine.thy ===== *)
theory ChaosEngine
  imports GoStd
begin

text \<open>
  \<^verbatim>\<open>internal/chaos/engine.go\<close>: which pod to hit and whether to hit it at all.

  The random source is a parameter \<open>intn\<close> over its state, with the documented range of
  \<^verbatim>\<open>Rand.Intn\<close> in the locale \<open>random_source\<close>. An error message of the code
  is a constructor with the values it quotes.
\<close>

section \<open>Modes and selectors\<close>

type_synonym mode = string

definition ModePodKill :: mode where "ModePodKill = ''pod-kill''"
definition ModeReadinessFlap :: mode where "ModeReadinessFlap = ''readiness-flap''"

definition SupportedModes :: "mode list" where
  "SupportedModes = [ModePodKill, ModeReadinessFlap]"

lemmas mode_defs = ModePodKill_def ModeReadinessFlap_def SupportedModes_def

datatype engine_error = InvalidMode string | EmptyLabelSelector

definition ParseMode :: "string \<Rightarrow> engine_error + mode" where
  "ParseMode s = (case find (\<lambda>m. s = m) SupportedModes of Some m \<Rightarrow> Inr m | None \<Rightarrow> Inl (InvalidMode s))"

definition ValidateLabelSelector :: "string \<Rightarrow> engine_error option" where
  "ValidateLabelSelector selector = (if trim_space selector = [] then Some EmptyLabelSelector else None)"

section \<open>Targets\<close>

record pod_ref =
  podName :: string
  podNamespace :: string
  podUID :: string
  podIP :: string

definition zero_pod :: pod_ref where
  "zero_pod = \<lparr>podName = [], podNamespace = [], podUID = [], podIP = []\<rparr>"

locale random_source =
  fixes intn :: "nat \<Rightarrow> 'r \<Rightarrow> nat \<times> 'r"
  assumes intn_range: "0 < n \<Longrightarrow> fst (intn n r) < n"

definition SelectPod :: "(nat \<Rightarrow> 'r \<Rightarrow> nat \<times> 'r) \<Rightarrow> pod_ref list \<Rightarrow> 'r \<Rightarrow> (pod_ref \<times> bool) \<times> 'r" where
  "SelectPod intn candidates r =
     (if candidates = [] then ((zero_pod, False), r)
      else (let (idx, r') = intn (length candidates) r in ((candidates ! idx, True), r')))"

text \<open>An error is \<open>Some\<close> of its text.\<close>

definition SwitchPermits :: "bool \<Rightarrow> 'e option \<Rightarrow> bool" where
  "SwitchPermits enabled readErr = (if readErr \<noteq> None then False else enabled)"

definition InTargetNamespace :: "pod_ref \<Rightarrow> string \<Rightarrow> bool" where
  "InTargetNamespace pod targetNamespace \<longleftrightarrow> podNamespace pod \<noteq> [] \<and> podNamespace pod = targetNamespace"

section \<open>The decision\<close>

datatype action_kind = ActionNone | ActionKillPod | ActionFlapReadiness

datatype 'e reason =
    NoReason
  | SwitchDisabled
  | SwitchUnreadable 'e
  | NoCandidates
  | OutsideNamespace pod_ref string
  | UnsupportedMode mode

record 'e decision =
  dcKind :: action_kind
  dcTarget :: pod_ref
  dcReason :: "'e reason"

definition refuse :: "'e reason \<Rightarrow> 'e decision" where
  "refuse why = \<lparr>dcKind = ActionNone, dcTarget = zero_pod, dcReason = why\<rparr>"

definition Decide :: "(nat \<Rightarrow> 'r \<Rightarrow> nat \<times> 'r) \<Rightarrow> mode \<Rightarrow> bool \<Rightarrow> 'e option \<Rightarrow> string \<Rightarrow> pod_ref list \<Rightarrow> 'r
    \<Rightarrow> 'e decision \<times> 'r" where
  "Decide intn mode switchEnabled switchReadErr targetNamespace candidates r =
     (if \<not> SwitchPermits switchEnabled switchReadErr
      then (refuse (case switchReadErr of Some e \<Rightarrow> SwitchUnreadable e | None \<Rightarrow> SwitchDisabled), r)
      else (case SelectPod intn candidates r of
          ((target, ok), r') \<Rightarrow>
            if \<not> ok then (refuse NoCandidates, r')
            else if \<not> InTargetNamespace target targetNamespace then (refuse (OutsideNamespace target targetNamespace), r')
            else if mode = ModePodKill then (\<lparr>dcKind = ActionKillPod, dcTarget = target, dcReason = NoReason\<rparr>, r')
            else if mode = ModeReadinessFlap then (\<lparr>dcKind = ActionFlapReadiness, dcTarget = target, dcReason = NoReason\<rparr>, r')
            else (refuse (UnsupportedMode mode), r')))"

section \<open>An instance of the random source\<close>

text \<open>A linear congruential generator; any generator with the range will do.\<close>

definition lcg :: "nat \<Rightarrow> nat \<Rightarrow> nat \<times> nat" where
  "lcg n r = (r mod n, (r * 1103515245 + 12345) mod 2147483648)"

interpretation rand: random_source lcg
  by unfold_locales (simp add: lcg_def)

section \<open>Properties\<close>

lemma SelectPod_empty [simp]: "SelectPod intn [] r = ((zero_pod, False), r)"
  by (simp add: SelectPod_def)

text \<open>C23: Chaos is decided on only when every guard says so: an action other than none means that
  the kill switch was read without error and is enabled, and that the target is one of the candidates and
  lies in the target namespace, which is not empty, and it is the action of the mode. The decision is
  that of the first guard that fails, in this order: an unreadable switch, a disabled one, no candidates,
  a drawn candidate outside the namespace, a mode that is not supported; when none fails it is the
  action of the mode on the drawn candidate. The first three refuse without drawing a random number.
  With the switch readable and enabled, a supported mode, a non-empty namespace and at least one
  candidate, all of them in it, there is always an action.\<close>

theorem decide_safe:
  assumes "random_source intn" and d: "Decide intn mode enabled err ns candidates r = (d, r')"
  shows "(dcKind d \<noteq> ActionNone \<longrightarrow> enabled \<and> err = None \<and> dcTarget d \<in> set candidates \<and>
      podNamespace (dcTarget d) = ns \<and> ns \<noteq> [] \<and>
      (dcKind d = ActionKillPod \<longrightarrow> mode = ModePodKill) \<and> (dcKind d = ActionFlapReadiness \<longrightarrow> mode = ModeReadinessFlap)) \<and>
    (enabled \<and> err = None \<and> candidates \<noteq> [] \<and> ns \<noteq> [] \<and> (\<forall>c \<in> set candidates. podNamespace c = ns) \<and>
      mode \<in> set SupportedModes \<longrightarrow> dcKind d \<noteq> ActionNone) \<and>
    (\<forall>e. err = Some e \<longrightarrow> d = refuse (SwitchUnreadable e) \<and> r' = r) \<and>
    (err = None \<and> \<not> enabled \<longrightarrow> d = refuse SwitchDisabled \<and> r' = r) \<and>
    (err = None \<and> enabled \<and> candidates = [] \<longrightarrow> d = refuse NoCandidates \<and> r' = r) \<and>
    (err = None \<and> enabled \<and> candidates \<noteq> [] \<longrightarrow> (\<exists>i. i < length candidates \<and>
       intn (length candidates) r = (i, r') \<and> (let t = candidates ! i in
         d = (if podNamespace t = [] \<or> podNamespace t \<noteq> ns then refuse (OutsideNamespace t ns)
              else if mode = ModePodKill then \<lparr>dcKind = ActionKillPod, dcTarget = t, dcReason = NoReason\<rparr>
              else if mode = ModeReadinessFlap then \<lparr>dcKind = ActionFlapReadiness, dcTarget = t, dcReason = NoReason\<rparr>
              else refuse (UnsupportedMode mode)))))"
proof (cases "candidates = [] \<or> \<not> SwitchPermits enabled err")
  case True
  then show ?thesis using d
    by (auto simp: Decide_def SelectPod_def SwitchPermits_def refuse_def split: option.splits if_splits)
next
  case False
  obtain i r1 where i: "intn (length candidates) r = (i, r1)" "i < length candidates"
    using random_source.intn_range [OF assms(1), of "length candidates" r] False
    by (cases "intn (length candidates) r") auto
  obtain pod where p: "SelectPod intn candidates r = ((pod, True), r1)" "pod \<in> set candidates" "candidates ! i = pod"
    using i False by (intro that [of "candidates ! i"]) (simp_all add: SelectPod_def)
  have sw: "SwitchPermits enabled err" "enabled" "err = None" using False by (auto simp: SwitchPermits_def split: if_splits)
  have m: "ModePodKill \<noteq> ModeReadinessFlap" by (simp add: mode_defs)
  show ?thesis using d p i sw m False
    by (auto simp: Decide_def refuse_def InTargetNamespace_def SupportedModes_def Let_def split: if_splits)
qed

theorem decide_safe_witness:
  "dcKind (fst (Decide lcg ModePodKill True (None :: string option) ''plants''
     [\<lparr>podName = ''a'', podNamespace = ''plants'', podUID = ''u'', podIP = ''10.0.0.1''\<rparr>] 3)) = ActionKillPod"
proof -
  let ?c = "\<lparr>podName = ''a'', podNamespace = ''plants'', podUID = ''u'', podIP = ''10.0.0.1''\<rparr>"
  obtain d r' where d: "Decide lcg ModePodKill True (None :: string option) ''plants'' [?c] 3 = (d, r')" by fastforce
  show ?thesis using decide_safe [OF rand.random_source_axioms d] unfolding d
    by (cases "dcKind d") (simp_all add: mode_defs)
qed

text \<open>The modes accepted at startup are exactly the supported ones, and a selector is
  accepted exactly when something of it remains after trimming white space.\<close>

theorem modes_and_selectors:
  "(ParseMode s = Inr m \<longleftrightarrow> s = m \<and> m \<in> {''pod-kill'', ''readiness-flap''}) \<and>
   (ParseMode s = Inl e \<longleftrightarrow> s \<notin> {''pod-kill'', ''readiness-flap''} \<and> e = InvalidMode s) \<and>
   (ValidateLabelSelector sel = None \<longleftrightarrow> trim_space sel \<noteq> [])"
  by (auto simp: ParseMode_def mode_defs ValidateLabelSelector_def)

end
