(* ===== verification/ChaosKube.thy ===== *)
theory ChaosKube
  imports ApiErrors ChaosEngine
begin

text \<open>
  \<^verbatim>\<open>internal/chaos/kube.go\<close>: the client of the chaos injector and the execution of
  a decision.

  \<open>pod_client\<close> is the interface \<^verbatim>\<open>PodClient\<close>; a call may change the
  world in any way. \<open>NewClient\<close> implements it over the clientset and the HTTP client, which
  are the record \<open>cluster\<close>. An error keeps the values its message quotes.
\<close>

section \<open>The interface\<close>

datatype kube_error =
    ListFailed string string string
  | DeleteFailed string string string
  | NoPodIP pod_ref
  | SetUnreadyFailed pod_ref kube_error
  | CanceledWhileUnready pod_ref string
  | RestoreFailed pod_ref kube_error
  | PostFailed string string
  | UnexpectedStatus string nat
  | EmitEventFailed pod_ref string
  | ReadSwitchFailed string string string
  | SwitchKeyMissing string string
  | SwitchNotBoolean string string string
  | UnrecognizedAction
  | DryRunEventFailed kube_error
  | ActionEventFailed kube_error

datatype event_type = Normal | Warning

record 'w pod_client =
  ListPods :: "string \<Rightarrow> string \<Rightarrow> 'w \<Rightarrow> (kube_error + pod_ref list) \<times> 'w"
  DeletePod :: "string \<Rightarrow> string \<Rightarrow> 'w \<Rightarrow> kube_error option \<times> 'w"
  FlapReadiness :: "pod_ref \<Rightarrow> duration \<Rightarrow> 'w \<Rightarrow> kube_error option \<times> 'w"
  EmitEvent :: "pod_ref \<Rightarrow> string \<Rightarrow> string \<Rightarrow> event_type \<Rightarrow> 'w \<Rightarrow> kube_error option \<times> 'w"
  ReadSwitch :: "string \<Rightarrow> string \<Rightarrow> 'w \<Rightarrow> (kube_error + bool) \<times> 'w"

definition OutcomeSuccess :: string where "OutcomeSuccess = ''success''"
definition OutcomeFailure :: string where "OutcomeFailure = ''failure''"
definition OutcomeDryRun :: string where "OutcomeDryRun = ''dry-run''"

lemmas chaos_outcomes = OutcomeSuccess_def OutcomeFailure_def OutcomeDryRun_def

definition switchKey :: string where "switchKey = ''enabled''"
definition chaosReadinessPath :: string where "chaosReadinessPath = ''/chaos/readiness''"
definition podHTTPPort :: nat where "podHTTPPort = 8080"
definition readinessFlapWindow :: duration where "readinessFlapWindow = 15 * second"

section \<open>The implementation\<close>

record live_pod =
  lpName :: string
  lpNamespace :: string
  lpUID :: string
  lpPodIP :: string

record pod_event =
  peGenerateName :: string
  peNamespace :: string
  peInvolvedKind :: string
  peInvolvedNamespace :: string
  peInvolvedName :: string
  peInvolvedUID :: string
  peReason :: string
  peMessage :: string
  peType :: event_type
  peSource :: string
  peTimestamp :: int
  peCount :: nat

text \<open>
  What the client calls: the clientset, the HTTP client (a POST answers with a transport error or
  a status), the clock, and the wait for a timer, which is cut short with the context's error.
\<close>

record 'w cluster =
  podsList :: "string \<Rightarrow> string \<Rightarrow> 'w \<Rightarrow> (string + live_pod list) \<times> 'w"
  podsDelete :: "string \<Rightarrow> string \<Rightarrow> 'w \<Rightarrow> api_error option \<times> 'w"
  configMapsGet :: "string \<Rightarrow> string \<Rightarrow> 'w \<Rightarrow> (string + (string \<rightharpoonup> string)) \<times> 'w"
  eventsCreate :: "string \<Rightarrow> pod_event \<Rightarrow> 'w \<Rightarrow> string option \<times> 'w"
  httpPost :: "string \<Rightarrow> string \<Rightarrow> 'w \<Rightarrow> (string + nat) \<times> 'w"
  waitFor :: "duration \<Rightarrow> 'w \<Rightarrow> string option \<times> 'w"
  clockNow :: "'w \<Rightarrow> int \<times> 'w"

definition pod_of :: "live_pod \<Rightarrow> pod_ref" where
  "pod_of p = \<lparr>podName = lpName p, podNamespace = lpNamespace p, podUID = lpUID p, podIP = lpPodIP p\<rparr>"

definition clientListPods :: "'w cluster \<Rightarrow> string \<Rightarrow> string \<Rightarrow> 'w \<Rightarrow> (kube_error + pod_ref list) \<times> 'w" where
  "clientListPods k namespace labelSelector w =
     (case podsList k namespace labelSelector w of
        (Inl e, w1) \<Rightarrow> (Inl (ListFailed namespace labelSelector e), w1)
      | (Inr items, w1) \<Rightarrow> (Inr (map pod_of items), w1))"

definition clientDeletePod :: "'w cluster \<Rightarrow> string \<Rightarrow> string \<Rightarrow> 'w \<Rightarrow> kube_error option \<times> 'w" where
  "clientDeletePod k namespace n w =
     (case podsDelete k namespace n w of
        (Some e, w1) \<Rightarrow> (if \<not> IsNotFound e then (Some (DeleteFailed namespace n (api_error_text e)), w1) else (None, w1))
      | (None, w1) \<Rightarrow> (None, w1))"

text \<open>The JSON encoding of the one-field body.\<close>

definition readinessBody :: "bool \<Rightarrow> string" where
  "readinessBody ready = ''{'' @ [CHR 0x22] @ ''ready'' @ [CHR 0x22] @ '':'' @ format_bool ready @ ''}''"

definition postReadiness :: "'w cluster \<Rightarrow> string \<Rightarrow> bool \<Rightarrow> 'w \<Rightarrow> kube_error option \<times> 'w" where
  "postReadiness k url ready w =
     (case httpPost k url (readinessBody ready) w of
        (Inl e, w1) \<Rightarrow> (Some (PostFailed url e), w1)
      | (Inr status, w1) \<Rightarrow> (if status \<noteq> 200 then (Some (UnexpectedStatus url status), w1) else (None, w1)))"

definition pod_url :: "pod_ref \<Rightarrow> string" where
  "pod_url pod = ''http://'' @ podIP pod @ '':'' @ itoa (int podHTTPPort) @ chaosReadinessPath"

definition clientFlapReadiness :: "'w cluster \<Rightarrow> pod_ref \<Rightarrow> duration \<Rightarrow> 'w \<Rightarrow> kube_error option \<times> 'w" where
  "clientFlapReadiness k pod window w =
     (if podIP pod = [] then (Some (NoPodIP pod), w)
      else (case postReadiness k (pod_url pod) False w of
          (Some e, w1) \<Rightarrow> (Some (SetUnreadyFailed pod e), w1)
        | (None, w1) \<Rightarrow>
            (case waitFor k window w1 of
               (Some ctxErr, w2) \<Rightarrow> (Some (CanceledWhileUnready pod ctxErr), w2)
             | (None, w2) \<Rightarrow>
                 (case postReadiness k (pod_url pod) True w2 of
                    (Some e, w3) \<Rightarrow> (Some (RestoreFailed pod e), w3)
                  | (None, w3) \<Rightarrow> (None, w3)))))"

definition clientEmitEvent :: "'w cluster \<Rightarrow> pod_ref \<Rightarrow> string \<Rightarrow> string \<Rightarrow> event_type \<Rightarrow> 'w \<Rightarrow> kube_error option \<times> 'w" where
  "clientEmitEvent k pod why message ty w =
     (let (now, w1) = clockNow k w;
          event = \<lparr>peGenerateName = ''chaos-buddy-'', peNamespace = podNamespace pod, peInvolvedKind = ''Pod'',
            peInvolvedNamespace = podNamespace pod, peInvolvedName = podName pod, peInvolvedUID = podUID pod,
            peReason = why, peMessage = message, peType = ty, peSource = ''chaos-buddy'', peTimestamp = now, peCount = 1\<rparr>
      in case eventsCreate k (podNamespace pod) event w1 of
           (Some e, w2) \<Rightarrow> (Some (EmitEventFailed pod e), w2)
         | (None, w2) \<Rightarrow> (None, w2))"

definition clientReadSwitch :: "'w cluster \<Rightarrow> string \<Rightarrow> string \<Rightarrow> 'w \<Rightarrow> (kube_error + bool) \<times> 'w" where
  "clientReadSwitch k namespace n w =
     (case configMapsGet k namespace n w of
        (Inl e, w1) \<Rightarrow> (Inl (ReadSwitchFailed namespace n e), w1)
      | (Inr data, w1) \<Rightarrow>
          (case data switchKey of
             None \<Rightarrow> (Inl (SwitchKeyMissing namespace n), w1)
           | Some raw \<Rightarrow>
               (case parse_bool raw of
                  None \<Rightarrow> (Inl (SwitchNotBoolean namespace n raw), w1)
                | Some enabled \<Rightarrow> (Inr enabled, w1))))"

definition NewClient :: "'w cluster \<Rightarrow> 'w pod_client" where
  "NewClient k =
     \<lparr>ListPods = clientListPods k, DeletePod = clientDeletePod k, FlapReadiness = clientFlapReadiness k,
      EmitEvent = clientEmitEvent k, ReadSwitch = clientReadSwitch k\<rparr>"

section \<open>Carrying a decision out\<close>

fun actionNarration :: "action_kind \<Rightarrow> string \<times> string" where
  "actionNarration ActionKillPod = (''kill'', ''ChaosPodKill'')"
| "actionNarration ActionFlapReadiness = (''flap readiness on'', ''ChaosReadinessFlap'')"
| "actionNarration ActionNone = (''act on'', ''ChaosUnknown'')"

definition pod_text :: "pod_ref \<Rightarrow> string" where
  "pod_text pod = ''pod '' @ podNamespace pod @ ''/'' @ podName pod"

text \<open>\<open>err_text\<close> is the text of an error, which the failure event quotes.\<close>

definition Execute :: "(kube_error \<Rightarrow> string) \<Rightarrow> 'w pod_client \<Rightarrow> 'e decision \<Rightarrow> bool \<Rightarrow> 'w
    \<Rightarrow> (string \<times> kube_error option) \<times> 'w" where
  "Execute err_text c d dryRun w =
     (if dcKind d = ActionNone then (([], None), w)
      else (let (verb, why) = actionNarration (dcKind d); target = dcTarget d in
        if dryRun
        then (case EmitEvent c target why (''[dry-run] chaos-buddy would '' @ verb @ '' '' @ pod_text target) Normal w of
            (Some e, w1) \<Rightarrow> ((OutcomeDryRun, Some (DryRunEventFailed e)), w1)
          | (None, w1) \<Rightarrow> ((OutcomeDryRun, None), w1))
        else (case (case dcKind d of
                ActionKillPod \<Rightarrow> DeletePod c (podNamespace target) (podName target) w
              | ActionFlapReadiness \<Rightarrow> FlapReadiness c target readinessFlapWindow w
              | ActionNone \<Rightarrow> (Some UnrecognizedAction, w)) of
            (Some actionErr, w1) \<Rightarrow>
              (case EmitEvent c target why (''chaos-buddy attempted to '' @ verb @ '' '' @ pod_text target
                  @ '' and failed: '' @ err_text actionErr) Warning w1 of
                 (ignored, w2) \<Rightarrow> ((OutcomeFailure, Some actionErr), w2))
          | (None, w1) \<Rightarrow>
              (case EmitEvent c target why (''chaos-buddy '' @ verb @ '' '' @ pod_text target) Warning w1 of
                 (Some evErr, w2) \<Rightarrow> ((OutcomeSuccess, Some (ActionEventFailed evErr)), w2)
               | (None, w2) \<Rightarrow> ((OutcomeSuccess, None), w2)))))"

section \<open>Properties\<close>




text \<open>A dry run cannot destroy anything: with the dry-run flag set, carrying out any
  decision against any client has the same result and the same effect whatever deleting a pod or
  flapping its readiness would do, for they are never called; its only effect is the one event on
  the target, and the outcome is dry-run even if that event fails. A decision for no action has no
  effect at all.\<close>

theorem dry_run_harmless:
  "Execute err_text (c\<lparr>DeletePod := del, FlapReadiness := flap\<rparr>) d True w = Execute err_text c d True w \<and>
   (dcKind d \<noteq> ActionNone \<longrightarrow>
      (\<exists>msg e w1. EmitEvent c (dcTarget d) (snd (actionNarration (dcKind d))) msg Normal w = (e, w1) \<and>
         Execute err_text c d True w = ((''dry-run'', map_option DryRunEventFailed e), w1))) \<and>
   (dcKind d = ActionNone \<longrightarrow> Execute err_text c d dry w = (([], None), w))"
proof (intro conjI impI)
  assume k: "dcKind d \<noteq> ActionNone"
  obtain verb why where v: "actionNarration (dcKind d) = (verb, why)" by fastforce
  let ?msg = "''[dry-run] chaos-buddy would '' @ verb @ '' '' @ pod_text (dcTarget d)"
  obtain e w1 where e: "EmitEvent c (dcTarget d) why ?msg Normal w = (e, w1)" by fastforce
  then show "\<exists>msg e w1. EmitEvent c (dcTarget d) (snd (actionNarration (dcKind d))) msg Normal w = (e, w1) \<and>
         Execute err_text c d True w = ((''dry-run'', map_option DryRunEventFailed e), w1)"
    using k v by (intro exI [of _ ?msg] exI [of _ e] exI [of _ w1], cases e) (simp_all add: Execute_def chaos_outcomes)
qed (simp_all add: Execute_def)

text \<open>A world that records the calls: the instance the witnesses run on.\<close>

datatype kube_call = Listed | Deleted string string | Posted string string | Evented string string | SwitchRead | Waited

definition recording_cluster :: "string \<Rightarrow> live_pod list \<Rightarrow> kube_call list cluster" where
  "recording_cluster enabled pods =
     \<lparr>podsList = (\<lambda>ns sel w. (Inr pods, w @ [Listed])),
      podsDelete = (\<lambda>ns n w. (None, w @ [Deleted ns n])),
      configMapsGet = (\<lambda>ns n w. (Inr [switchKey \<mapsto> enabled], w @ [SwitchRead])),
      eventsCreate = (\<lambda>ns ev w. (None, w @ [Evented ns (peReason ev)])),
      httpPost = (\<lambda>url body w. (Inr 200, w @ [Posted url body])),
      waitFor = (\<lambda>d w. (None, w @ [Waited])),
      clockNow = (\<lambda>w. (1700000000000000000, w))\<rparr>"

definition demo_pod :: pod_ref where
  "demo_pod = \<lparr>podName = ''fernie-0'', podNamespace = ''plants'', podUID = ''u-9'', podIP = ''10.0.0.7''\<rparr>"

definition kill_demo :: "string decision" where
  "kill_demo = \<lparr>dcKind = ActionKillPod, dcTarget = demo_pod, dcReason = NoReason\<rparr>"

theorem dry_run_harmless_witness:
  "\<exists>e w1. Execute (\<lambda>e. []) (NewClient (recording_cluster ''true'' [])) kill_demo True [] = ((''dry-run'', e), w1)"
proof -
  have "dcKind kill_demo \<noteq> ActionNone" by (simp add: kill_demo_def)
  then show ?thesis
    using dry_run_harmless [where err_text = "\<lambda>e. []" and c = "NewClient (recording_cluster ''true'' [])"
        and d = kill_demo and w = "[]"] by blast
qed

text \<open>A real run performs exactly the action of the decision on exactly its target, once,
  and the outcome tells how it went: success when the action succeeded, also if recording the event
  failed; failure with the error of the action itself otherwise, whatever becomes of the event. The
  event is attempted after the action in both cases.\<close>

theorem execute_outcomes:
  assumes "dcKind d \<noteq> ActionNone" "Execute err_text c d False w = ((outcome, err), w2)"
  shows "\<exists>act w1 msg ev. (if dcKind d = ActionKillPod
        then DeletePod c (podNamespace (dcTarget d)) (podName (dcTarget d)) w
        else FlapReadiness c (dcTarget d) (15 * second) w) = (act, w1) \<and>
      EmitEvent c (dcTarget d) (if dcKind d = ActionKillPod then ''ChaosPodKill'' else ''ChaosReadinessFlap'') msg Warning w1 = (ev, w2) \<and>
      (case act of
         None \<Rightarrow> outcome = ''success'' \<and> err = map_option ActionEventFailed ev
       | Some e \<Rightarrow> outcome = ''failure'' \<and> err = Some e)"
proof -
  obtain act w1 where a: "(if dcKind d = ActionKillPod
        then DeletePod c (podNamespace (dcTarget d)) (podName (dcTarget d)) w
        else FlapReadiness c (dcTarget d) (15 * second) w) = (act, w1)" by (metis surj_pair)
  let ?why = "if dcKind d = ActionKillPod then ''ChaosPodKill'' else ''ChaosReadinessFlap''"
  let ?verb = "fst (actionNarration (dcKind d))"
  let ?msg = "case act of None \<Rightarrow> ''chaos-buddy '' @ ?verb @ '' '' @ pod_text (dcTarget d)
     | Some e \<Rightarrow> ''chaos-buddy attempted to '' @ ?verb @ '' '' @ pod_text (dcTarget d) @ '' and failed: '' @ err_text e"
  obtain ev w3 where e: "EmitEvent c (dcTarget d) ?why ?msg Warning w1 = (ev, w3)" by fastforce
  have "w3 = w2 \<and> (case act of None \<Rightarrow> outcome = ''success'' \<and> err = map_option ActionEventFailed ev
       | Some e \<Rightarrow> outcome = ''failure'' \<and> err = Some e)"
    using assms a e by (cases "dcKind d"; cases act; cases ev)
      (auto simp: Execute_def chaos_outcomes readinessFlapWindow_def Let_def split: prod.splits)
  then show ?thesis using a e by blast
qed

theorem execute_outcomes_witness:
  "Execute (\<lambda>e. []) (NewClient (recording_cluster ''true'' [])) kill_demo False [] =
     ((''success'', None), [Deleted ''plants'' ''fernie-0'', Evented ''plants'' ''ChaosPodKill''])"
proof -
  obtain outcome err w2 where x: "Execute (\<lambda>e. []) (NewClient (recording_cluster ''true'' [])) kill_demo False [] = ((outcome, err), w2)"
    by (metis surj_pair)
  have "dcKind kill_demo \<noteq> ActionNone" by (simp add: kill_demo_def)
  from execute_outcomes [OF this x] show ?thesis unfolding x
    by (auto simp: kill_demo_def demo_pod_def NewClient_def clientDeletePod_def clientEmitEvent_def recording_cluster_def)
qed

text \<open>Flapping a pod's readiness succeeds only after it was set unready, the whole window has
  passed, and it was set ready again, in this order and each accepted with status 200; a pod without
  an address is refused before any call, and a failure to set it unready is reported at once. When
  the wait is cut short, though, nothing restores the pod: it is left unready.\<close>

theorem flap_sequence:
  assumes "clientFlapReadiness k pod window w = (res, w')"
  shows "(res = None \<longrightarrow> podIP pod \<noteq> [] \<and> (\<exists>w1 w2.
      httpPost k (pod_url pod) (readinessBody False) w = (Inr 200, w1) \<and> waitFor k window w1 = (None, w2) \<and>
      httpPost k (pod_url pod) (readinessBody True) w2 = (Inr 200, w'))) \<and>
    (podIP pod = [] \<longrightarrow> res = Some (NoPodIP pod) \<and> w' = w) \<and>
    (\<forall>e. res = Some (SetUnreadyFailed pod e) \<longrightarrow> (\<exists>reply. httpPost k (pod_url pod) (readinessBody False) w = (reply, w') \<and> reply \<noteq> Inr 200)) \<and>
    (\<forall>e. res = Some (CanceledWhileUnready pod e) \<longrightarrow> (\<exists>w1.
      httpPost k (pod_url pod) (readinessBody False) w = (Inr 200, w1) \<and> waitFor k window w1 = (Some e, w')))"
proof -
  obtain r1 w1 where 1: "httpPost k (pod_url pod) (readinessBody False) w = (r1, w1)" by fastforce
  obtain r2 w2 where 2: "waitFor k window w1 = (r2, w2)" by fastforce
  obtain r3 w3 where 3: "httpPost k (pod_url pod) (readinessBody True) w2 = (r3, w3)" by fastforce
  have p1: "postReadiness k (pod_url pod) False w =
      (case r1 of Inl e \<Rightarrow> Some (PostFailed (pod_url pod) e) | Inr st \<Rightarrow> if st \<noteq> 200 then Some (UnexpectedStatus (pod_url pod) st) else None, w1)"
    using 1 by (cases r1) (simp_all add: postReadiness_def)
  have p3: "postReadiness k (pod_url pod) True w2 =
      (case r3 of Inl e \<Rightarrow> Some (PostFailed (pod_url pod) e) | Inr st \<Rightarrow> if st \<noteq> 200 then Some (UnexpectedStatus (pod_url pod) st) else None, w3)"
    using 3 by (cases r3) (simp_all add: postReadiness_def)
  consider "podIP pod = []" | "podIP pod \<noteq> []" "r1 \<noteq> Inr 200" | e where "podIP pod \<noteq> []" "r1 = Inr 200" "r2 = Some e"
    | "podIP pod \<noteq> []" "r1 = Inr 200" "r2 = None" "r3 \<noteq> Inr 200" | "podIP pod \<noteq> []" "r1 = Inr 200" "r2 = None" "r3 = Inr 200"
    by (cases r2) auto
  then show ?thesis
  proof cases
    case 1
    then have "res = Some (NoPodIP pod)" "w' = w" using assms by (simp_all add: clientFlapReadiness_def)
    then show ?thesis by simp
  next
    case c: 2
    have "\<exists>e. res = Some (SetUnreadyFailed pod e)" "w' = w1"
      using assms p1 c by (cases r1; auto simp: clientFlapReadiness_def split: if_splits)+
    then show ?thesis using c 1 by auto
  next
    case c: (3 e)
    have "res = Some (CanceledWhileUnready pod e)" "w' = w2"
      using assms p1 c 2 by (simp_all add: clientFlapReadiness_def)
    then show ?thesis using c 1 2 by simp
  next
    case c: 4
    have "\<exists>e. res = Some (RestoreFailed pod e)"
      using assms p1 p3 c 2 by (cases r3) (auto simp: clientFlapReadiness_def split: if_splits)
    then show ?thesis using c by auto
  next
    case c: 5
    have "res = None" "w' = w3" using assms p1 p3 c 2 by (simp_all add: clientFlapReadiness_def)
    then show ?thesis using c 1 2 3 by simp
  qed
qed

theorem flap_sequence_witness:
  "clientFlapReadiness (recording_cluster ''true'' []) (demo_pod\<lparr>podIP := []\<rparr>) 5 [] = (Some (NoPodIP (demo_pod\<lparr>podIP := []\<rparr>)), [])"
proof -
  obtain res w' where x: "clientFlapReadiness (recording_cluster ''true'' []) (demo_pod\<lparr>podIP := []\<rparr>) 5 [] = (res, w')" by fastforce
  show ?thesis using flap_sequence [OF x] unfolding x by simp
qed

lemma parse_bool_true: "parse_bool v = Some True \<longleftrightarrow> v \<in> {''1'', ''t'', ''T'', ''true'', ''TRUE'', ''True''}"
  by (simp add: parse_bool_def)

text \<open>Chaos is permitted exactly when the switch's ConfigMap can be read, has the key
  enabled, and its value is one of the spellings of true; a missing map or key, a value that is no
  boolean, and every spelling of false forbid it.\<close>

theorem switch_fails_closed:
  assumes "clientReadSwitch k ns n w = (reply, w')"
  shows "SwitchPermits (case reply of Inr b \<Rightarrow> b | Inl e \<Rightarrow> False) (case reply of Inl e \<Rightarrow> Some e | Inr b \<Rightarrow> None) \<longleftrightarrow>
    (\<exists>data v. configMapsGet k ns n w = (Inr data, w') \<and> data ''enabled'' = Some v \<and>
       v \<in> {''1'', ''t'', ''T'', ''true'', ''TRUE'', ''True''})"
proof -
  obtain r1 w1 where 1: "configMapsGet k ns n w = (r1, w1)" by fastforce
  show ?thesis
  proof (cases r1)
    case (Inl e)
    then show ?thesis using assms 1 by (auto simp: clientReadSwitch_def SwitchPermits_def)
  next
    case (Inr data)
    show ?thesis
    proof (cases "data ''enabled''")
      case None
      then show ?thesis using assms 1 Inr by (auto simp: clientReadSwitch_def SwitchPermits_def switchKey_def)
    next
      case (Some v)
      then have "reply = (case parse_bool v of None \<Rightarrow> Inl (SwitchNotBoolean ns n v) | Some b \<Rightarrow> Inr b)" "w' = w1"
        using assms 1 Inr by (auto simp: clientReadSwitch_def switchKey_def split: option.splits)
      then show ?thesis using 1 Inr Some unfolding parse_bool_true [symmetric]
        by (cases "parse_bool v") (simp_all add: SwitchPermits_def)
    qed
  qed
qed

theorem switch_fails_closed_witness:
  "\<exists>reply w'. clientReadSwitch (recording_cluster ''maybe'' []) ''plants'' ''switch'' [] = (reply, w') \<and> isl reply"
proof -
  obtain reply w' where x: "clientReadSwitch (recording_cluster ''maybe'' []) ''plants'' ''switch'' [] = (reply, w')" by fastforce
  have "reply \<noteq> Inr True" using switch_fails_closed [OF x]
    by (auto simp: SwitchPermits_def recording_cluster_def switchKey_def)
  then show ?thesis using x by (auto simp: clientReadSwitch_def recording_cluster_def parse_bool_def)
qed

end
