(* ===== verification/Flap.thy ===== *)
theory Flap
  imports BuddyConfig ChaosKube Resources
begin

text \<open>
  The chaos injector and the workload together: what a readiness flap does to the server in the pod
  it hits. The HTTP client of the injector reaches the server of the pod, whose JSON decoder reads
  what the injector encodes.
\<close>

section \<open>The network between the two\<close>

text \<open>The request a POST with this body to the chaos path becomes.\<close>

definition posted :: "(string \<Rightarrow> bool option) \<Rightarrow> string \<Rightarrow> int \<times> int \<Rightarrow> request" where
  "posted decode body ts = (get_request chaosReadinessPath ts)\<lparr>rqMethod := ''POST'', rqDecoded := decode body\<rparr>"

definition serves :: "('m, 'r) api_env \<Rightarrow> request list \<Rightarrow> ('m, 'r) server \<Rightarrow> ('m, 'r) server" where
  "serves E rqs s = fold (\<lambda>rq x. fst (serve E rq x)) rqs s"

lemma serves_simps [simp]:
  "serves E [] s = s" "serves E (rq # rqs) s = serves E rqs (fst (serve E rq s))"
  "serves E (xs @ ys) s = serves E ys (serves E xs s)"
  by (simp_all add: serves_def)

text \<open>
  \<open>srv\<close> is the server of the pod, \<open>decode\<close> its JSON decoder, and \<open>others\<close> are all the
  requests of other clients it has handled so far: they may come before and after a POST of the
  injector is handled, and during its wait, and they may be of any kind. A POST that is answered has
  been handled; one that fails may or may not have been.
\<close>

locale pod_network =
  fixes E :: "('m, 'r) api_env" and k :: "'w cluster" and pod :: pod_ref and decode :: "string \<Rightarrow> bool option"
    and srv :: "'w \<Rightarrow> ('m, 'r) server" and others :: "'w \<Rightarrow> request list"
  assumes env: "env_ok E"
    and decodes: "decode (readinessBody b) = Some b"
    and answered: "httpPost k (pod_url pod) body w = (Inr code, w') \<Longrightarrow>
      \<exists>before ts bs s1 after. serve E (posted decode body ts) (serves E before (srv w)) = (s1, code, bs) \<and>
        srv w' = serves E after s1 \<and> others w' = others w @ before @ after"
    and unanswered: "httpPost k (pod_url pod) body w = (Inl e, w') \<Longrightarrow>
      \<exists>before own after. others w' = others w @ before @ after \<and>
        (own = [] \<or> (\<exists>ts. own = [posted decode body ts])) \<and> srv w' = serves E (before @ own @ after) (srv w)"
    and waiting: "waitFor k d w = (res, w') \<Longrightarrow>
      \<exists>rqs. srv w' = serves E rqs (srv w) \<and> others w' = others w @ rqs"

text \<open>No other client has used the chaos path.\<close>

definition undisturbed :: "request list \<Rightarrow> bool" where
  "undisturbed rqs \<longleftrightarrow> filter (\<lambda>rq. rqPath rq = ''/chaos/readiness'') rqs = []"

lemma undisturbed_simps [simp]:
  "undisturbed []" "undisturbed (xs @ ys) \<longleftrightarrow> undisturbed xs \<and> undisturbed ys"
  "undisturbed (rq # rqs) \<longleftrightarrow> rqPath rq \<noteq> ''/chaos/readiness'' \<and> undisturbed rqs"
  by (auto simp: undisturbed_def)

section \<open>Requests that are not about chaos\<close>

lemma finished_ready: "finished (writeJSON c b (s, w)) = (s', w', p) \<Longrightarrow> sReady s' = sReady s"
  using writeJSON_state [of c b s w "fst (writeJSON c b (s, w))" "snd (writeJSON c b (s, w))"]
  by (simp add: finished_def prod_eq_iff)

lemma workHandler_ready:
  assumes "workHandler P R (s, w) = (s', w', p)" shows "sReady s' = sReady s"
proof (cases "randomWorkDelay R (sCfg s) (sRand s)")
  case (Some x)
  obtain d g where x: "x = (d, g)" by (cases x)
  obtain out st g2 where o: "sampleWorkOutcome R (sCfg s) d g = ((out, st), g2)" by (metis prod.exhaust)
  have "finished (writeJSON st (WorkResponse out (milliseconds d) (workMessage out d (cLatencyBudget (sCfg s))))
      (s\<lparr>sRand := g2, sWork := observe d (out = Telemetry.OutcomeFailure) (sWork s),
      sMetrics := ObserveWork P out d (sMetrics s)\<rparr>, w)) = (s', w', p)"
    using assms Some x o by (simp add: workHandler_def)
  from finished_ready [OF this] show ?thesis by simp
qed (use assms in \<open>auto simp: workHandler_def\<close>)

lemma mux_keeps_ready:
  assumes m: "mux_serve E rq (s, w) = (s', w', p)" and "rqPath rq \<noteq> ''/chaos/readiness''"
  shows "sReady s' = sReady s"
proof (cases rule: mux_cases [of E rq "(s, w)"])
  case healthz
  have "finished (writeJSON 200 (StatusBody ''ok'') (s, w)) = (s', w', p)"
    using m [unfolded healthz] by (simp add: healthzHandler_def)
  then show ?thesis by (rule finished_ready)
next
  case readyz
  obtain c b where "finished (writeJSON c b (s, w)) = (s', w', p)"
    using m readyz by (cases "sReady s") (simp_all add: readyzHandler_def)
  then show ?thesis by (rule finished_ready)
next
  case status
  obtain t1 t2 where "finished (writeJSON 200 (ReportBody (currentReport t1 t2 s))
      (syncMetrics (eProm E) (currentReport t1 t2 s) s, w)) = (s', w', p)"
    using m status by (simp add: statusHandler_def Let_def)
  from finished_ready [OF this] show ?thesis by simp
next
  case work
  show ?thesis using m [unfolded work] by (rule workHandler_ready)
next
  case chaos
  then show ?thesis using assms(2) by simp
qed (use m in \<open>auto simp: finished_def redirect_def http_error_def promhttpHandler_def Let_def split: prod.splits\<close>)

lemma serve_keeps_ready:
  assumes "env_ok E" "rqPath rq \<noteq> ''/chaos/readiness''"
  shows "sReady (fst (serve E rq s)) = sReady s"
proof -
  consider "mux_serve E rq (s, fresh) = (s, fresh, True)" | s' c bs where "mux_serve E rq (s, fresh) = (s', wrote c bs, False)"
    using mux_finishes [OF assms(1)] by blast
  then show ?thesis
  proof cases
    case 1
    then show ?thesis by (simp add: serve_panicked)
  next
    case 2
    then show ?thesis using mux_keeps_ready [OF 2 assms(2)] by (simp add: serve_finished)
  qed
qed

lemma serves_keep_ready: "env_ok E \<Longrightarrow> undisturbed rqs \<Longrightarrow> sReady (serves E rqs s) = sReady s"
  by (induction rqs arbitrary: s) (simp_all add: serve_keeps_ready)

lemma serve_keeps_cfg: "env_ok E \<Longrightarrow> sCfg (fst (serve E rq s)) = sCfg s"
  by (rule step_sCfg [OF _ step.request])

lemma serves_keep_cfg: "env_ok E \<Longrightarrow> sCfg (serves E rqs s) = sCfg s"
  by (induction rqs arbitrary: s) (simp_all add: serve_keeps_cfg)

lemma serves_gated: "env_ok E \<Longrightarrow> \<not> cEnableChaosEndpoints (sCfg s) \<Longrightarrow> sReady (serves E rqs s) = sReady s"
proof (induction rqs arbitrary: s)
  case (Cons rq rqs)
  then show ?case using chaos_gated [of E s rq] by (simp add: serve_keeps_cfg)
qed simp

section \<open>A POST to the chaos path\<close>

lemma serve_posted:
  assumes "decode body = Some b" "cEnableChaosEndpoints (sCfg s)"
  shows "\<exists>s' bs. serve E (posted decode body ts) s = (s', 200, bs) \<and> sReady s' = b"
proof -
  have "posted decode body ts = override b ts"
    using assms(1) by (simp add: posted_def override_def chaosReadinessPath_def)
  moreover from serve_override_mux [OF assms(2)] obtain s' bs where "mux_serve E (override b ts) (s, fresh) = (s', wrote 200 bs, False)" "sReady s' = b" by blast
  ultimately show ?thesis using serve_finished [of E "override b ts" s s' 200 bs] by auto
qed

lemma serve_posted_gated:
  assumes "env_ok E" "\<not> cEnableChaosEndpoints (sCfg s)"
  shows "\<exists>s' bs. serve E (posted decode body ts) s = (s', 404, bs) \<and> sReady s' = sReady s"
proof -
  let ?rq = "posted decode body ts"
  have q: "rqPath ?rq = ''/chaos/readiness''" "rqClean ?rq" "\<not> rqStar ?rq"
    by (simp_all add: posted_def chaosReadinessPath_def get_request_def)
  from chaos_gated [OF assms, of ?rq] q show ?thesis by (cases "serve E ?rq s") auto
qed

section \<open>A flap\<close>

context pod_network begin

lemma post_sets:
  assumes "httpPost k (pod_url pod) (readinessBody b) w = (r, w')" "cEnableChaosEndpoints (sCfg (srv w))"
  shows "sCfg (srv w') = sCfg (srv w) \<and> (\<exists>rqs. others w' = others w @ rqs \<and>
    (\<forall>code. r = Inr code \<longrightarrow> code = 200 \<and> (undisturbed rqs \<longrightarrow> sReady (srv w') = b)))"
proof (cases r)
  case (Inl e)
  then show ?thesis using unanswered [of "readinessBody b" w e w'] assms(1) serves_keep_cfg [OF env] serve_keeps_cfg [OF env] by auto
next
  case (Inr code)
  obtain before ts bs s1 after where t: "serve E (posted decode (readinessBody b) ts) (serves E before (srv w)) = (s1, code, bs)"
    "srv w' = serves E after s1" "others w' = others w @ before @ after"
    using answered assms(1) Inr by blast
  note c = serves_keep_cfg [OF env, of before "srv w"]
  obtain s' bs' where s': "serve E (posted decode (readinessBody b) ts) (serves E before (srv w)) = (s', 200, bs')" "sReady s' = b"
    using serve_posted [of decode "readinessBody b" b "serves E before (srv w)", OF decodes] assms(2) c by metis
  have "sCfg (srv w') = sCfg (srv w)"
    using serve_keeps_cfg [OF env, of "posted decode (readinessBody b) ts" "serves E before (srv w)"] t c
    by (simp add: serves_keep_cfg [OF env])
  moreover have "undisturbed (before @ after) \<longrightarrow> sReady (srv w') = b"
    using t s' serves_keep_ready [OF env] by simp
  ultimately show ?thesis using t s' Inr by auto
qed

lemma post_gated:
  assumes "httpPost k (pod_url pod) body w = (r, w')" "\<not> cEnableChaosEndpoints (sCfg (srv w))"
  shows "sReady (srv w') = sReady (srv w) \<and> r \<noteq> Inr 200"
proof (cases r)
  case (Inl e)
  then obtain rqs where "srv w' = serves E rqs (srv w)" using unanswered [of body w e w'] assms(1) by blast
  then show ?thesis using serves_gated [OF env assms(2)] Inl by simp
next
  case (Inr code)
  obtain before ts bs s1 after where t: "serve E (posted decode body ts) (serves E before (srv w)) = (s1, code, bs)"
    "srv w' = serves E after s1" using answered assms(1) Inr by blast
  have "\<not> cEnableChaosEndpoints (sCfg (serves E before (srv w)))" using assms(2) serves_keep_cfg [OF env] by simp
  from serve_posted_gated [OF env this, of decode body ts] t have "code = 404" by auto
  moreover have "sReady (srv w') = sReady (serves E (before @ posted decode body ts # after) (srv w))" using t by simp
  ultimately show ?thesis using serves_gated [OF env assms(2)] Inr by (simp del: serves_simps)
qed

lemma wait_keeps:
  assumes "waitFor k d w = (r, w')"
  shows "sCfg (srv w') = sCfg (srv w) \<and>
    (\<exists>rqs. others w' = others w @ rqs \<and> (undisturbed rqs \<longrightarrow> sReady (srv w') = sReady (srv w)))"
  using waiting [OF assms] serves_keep_ready [OF env] serves_keep_cfg [OF env] by auto

text \<open>The three calls of a flap and what each of its ends leaves.\<close>

lemma flap_enabled:
  assumes "clientFlapReadiness k pod window w = (res, w')" "cEnableChaosEndpoints (sCfg (srv w))"
  shows "(case res of
      None \<Rightarrow> (\<exists>w1 w2. httpPost k (pod_url pod) (readinessBody False) w = (Inr 200, w1) \<and>
        waitFor k window w1 = (None, w2) \<and> httpPost k (pod_url pod) (readinessBody True) w2 = (Inr 200, w') \<and>
        (\<exists>rqs. others w' = others w @ rqs \<and>
           (undisturbed rqs \<longrightarrow> \<not> sReady (srv w1) \<and> \<not> sReady (srv w2) \<and> sReady (srv w'))))
    | Some (CanceledWhileUnready pd e) \<Rightarrow> (\<exists>w1. httpPost k (pod_url pod) (readinessBody False) w = (Inr 200, w1) \<and>
        waitFor k window w1 = (Some e, w') \<and>
        (\<exists>rqs. others w' = others w @ rqs \<and> (undisturbed rqs \<longrightarrow> \<not> sReady (srv w1) \<and> \<not> sReady (srv w'))))
    | Some (NoPodIP pd) \<Rightarrow> w' = w
    | _ \<Rightarrow> True)"
proof -
  obtain r1 w1 where 1: "httpPost k (pod_url pod) (readinessBody False) w = (r1, w1)" by fastforce
  obtain r2 w2 where 2: "waitFor k window w1 = (r2, w2)" by fastforce
  note first = 1 and second = 2
  obtain r3 w3 where third: "httpPost k (pod_url pod) (readinessBody True) w2 = (r3, w3)" by fastforce
  obtain a where a: "others w1 = others w @ a" "\<And>code. r1 = Inr code \<Longrightarrow> code = 200 \<and> (undisturbed a \<longrightarrow> \<not> sReady (srv w1))"
    "sCfg (srv w1) = sCfg (srv w)" using post_sets [OF 1 assms(2)] by auto
  obtain b where b: "others w2 = others w1 @ b" "undisturbed b \<longrightarrow> sReady (srv w2) = sReady (srv w1)" "sCfg (srv w2) = sCfg (srv w1)"
    using wait_keeps [OF 2] by auto
  have c: "cEnableChaosEndpoints (sCfg (srv w2))" using a(3) b(3) assms(2) by simp
  obtain d where d: "others w3 = others w2 @ d" "\<And>code. r3 = Inr code \<Longrightarrow> code = 200 \<and> (undisturbed d \<longrightarrow> sReady (srv w3))"
    using post_sets [OF third c] by auto
  consider "podIP pod = []" | e where "podIP pod \<noteq> []" "r1 = Inl e" | "podIP pod \<noteq> []" "r1 = Inr 200"
    using a(2) by (cases r1) auto
  then show ?thesis
  proof cases
    case 1
    then show ?thesis using assms(1) by (auto simp: clientFlapReadiness_def)
  next
    case (2 e)
    then show ?thesis using assms(1) 1 by (auto simp: clientFlapReadiness_def postReadiness_def)
  next
    case p: 3
    show ?thesis
    proof (cases r2)
      case (Some x)
      then have e: "res = Some (CanceledWhileUnready pod x)" "w' = w2"
        using assms(1) 1 2 p by (auto simp: clientFlapReadiness_def postReadiness_def)
      have "others w' = others w @ (a @ b)" using a(1) b(1) e(2) by simp
      moreover have "\<not> sReady (srv w1)" "\<not> sReady (srv w')" if "undisturbed (a @ b)"
        using that a(2) [OF p(2)] b(2) e(2) by simp_all
      ultimately show ?thesis using first [unfolded p(2)] second [unfolded Some e(2)[symmetric]]
        unfolding e(1) option.case kube_error.case by blast
    next
      case None
      then consider e where "res = Some (RestoreFailed pod e)" | "res = None" "r3 = Inr 200" "w' = w3"
        using assms(1) 1 2 third p d(2) by (cases r3) (auto simp: clientFlapReadiness_def postReadiness_def split: if_splits)
      then show ?thesis
      proof cases
        case (2)
        have "others w' = others w @ (a @ b @ d)" using a(1) b(1) d(1) 2(3) by simp
        moreover have "\<not> sReady (srv w1)" "\<not> sReady (srv w2)" "sReady (srv w')" if "undisturbed (a @ b @ d)"
          using that a(2) [OF p(2)] b(2) d(2) [OF 2(2)] 2(3) by simp_all
        ultimately show ?thesis using first [unfolded p(2)] second [unfolded None] third [unfolded 2(2) 2(3)[symmetric]]
          unfolding 2(1) option.case by blast
      qed simp
    qed
  qed
qed

lemma flap_gated:
  assumes "clientFlapReadiness k pod window w = (res, w')" "\<not> cEnableChaosEndpoints (sCfg (srv w))"
  shows "sReady (srv w') = sReady (srv w) \<and> (res = Some (NoPodIP pod) \<or> (\<exists>e. res = Some (SetUnreadyFailed pod e)))"
proof -
  obtain r1 w1 where 1: "httpPost k (pod_url pod) (readinessBody False) w = (r1, w1)" by fastforce
  note p1 = post_gated [OF 1 assms(2)]
  show ?thesis using assms(1) 1 p1
    by (cases r1) (auto simp: clientFlapReadiness_def postReadiness_def split: if_splits)
qed

end

section \<open>An instance\<close>

definition json_ready :: "string \<Rightarrow> bool option" where
  "json_ready body = (if body = readinessBody True then Some True
     else if body = readinessBody False then Some False else None)"

text \<open>A world that is one server and the requests of others it has handled; every wait is a request
  to /status, cut short when \<open>stop\<close> says so.\<close>

definition wired :: "string option \<Rightarrow> ((registry, nat) server \<times> request list) cluster" where
  "wired stop =
     \<lparr>podsList = (\<lambda>ns sel w. (Inr [], w)), podsDelete = (\<lambda>ns n w. (None, w)),
      configMapsGet = (\<lambda>ns n w. (Inr Map.empty, w)), eventsCreate = (\<lambda>ns ev w. (None, w)),
      httpPost = (\<lambda>url body (s, rqs). case serve demo_env (posted json_ready body (1, 2)) s of (s', code, bs) \<Rightarrow> (Inr code, s', rqs)),
      waitFor = (\<lambda>d (s, rqs). let rq = get_request ''/status'' (3, 4) in (stop, fst (serve demo_env rq s), rqs @ [rq])),
      clockNow = (\<lambda>w. (0, w))\<rparr>"

interpretation wire: pod_network demo_env "wired stop" pod json_ready fst snd for stop pod
proof
  show "env_ok demo_env" by (rule demo_env_ok)
  show "json_ready (readinessBody b) = Some b" for b
    by (cases b) (simp_all add: json_ready_def readinessBody_def format_bool_def)
  show "\<exists>before ts bs s1 after. serve demo_env (posted json_ready body ts) (serves demo_env before (fst w)) = (s1, code, bs) \<and>
      fst w' = serves demo_env after s1 \<and> snd w' = snd w @ before @ after"
    if post: "httpPost (wired stop) (pod_url pod) body w = (Inr code, w')" for body w w' code
  proof -
    obtain s' bs where "serve demo_env (posted json_ready body (1, 2)) (fst w) = (s', code, bs)" "w' = (s', snd w)"
      using post by (cases "serve demo_env (posted json_ready body (1, 2)) (fst w)") (auto simp: wired_def split_beta)
    then show ?thesis by (intro exI [of _ "[]"] exI [of _ "(1, 2)"] exI [of _ bs] exI [of _ s']) simp
  qed
  show "\<exists>before own after. snd w' = snd w @ before @ after \<and> (own = [] \<or> (\<exists>ts. own = [posted json_ready body ts])) \<and>
      fst w' = serves demo_env (before @ own @ after) (fst w)"
    if "httpPost (wired stop) (pod_url pod) body w = (Inl e, w')" for body w w' e
    using that by (auto simp: wired_def split: prod.splits)
  show "\<exists>rqs. fst w' = serves demo_env rqs (fst w) \<and> snd w' = snd w @ rqs"
    if "waitFor (wired stop) d w = (res, w')" for d w w' res
    using that by (intro exI [of _ "[get_request ''/status'' (3, 4)]"]) (auto simp: wired_def Let_def split: prod.splits)
qed

section \<open>The property\<close>

text \<open>C28: What a readiness flap does to the workload it hits, when the chaos endpoints are enabled
  and no other client posts to the chaos path meanwhile. The port the injector calls is the one the
  operator's container serves on. A flap that succeeds is three calls that follow each other: a POST that
  is accepted and makes the pod fail its readiness probes, a wait for the whole window at the end of which
  it still fails them, whatever other requests it has handled, and a POST that is accepted and leaves it
  answering them with 200. A flap cancelled in its wait, as when the injector is stopped, leaves the pod
  failing its probes. Without the endpoints the flap fails at its first call and the readiness is what it
  was, whatever anybody sends.\<close>

theorem flap_on_workload:
  assumes "pod_network E k pod decode srv others" "clientFlapReadiness k pod window w = (res, w')"
    and probe: "\<And>s. probe s = snd (serve E (get_request ''/readyz'' ts) s)"
  shows "podHTTPPort = unat containerPort \<and>
    (if cEnableChaosEndpoints (sCfg (srv w))
     then (res = None \<longrightarrow> (\<exists>w1 w2. httpPost k (pod_url pod) (readinessBody False) w = (Inr 200, w1) \<and>
          waitFor k window w1 = (None, w2) \<and> httpPost k (pod_url pod) (readinessBody True) w2 = (Inr 200, w') \<and>
          (\<exists>rqs. others w' = others w @ rqs \<and> (undisturbed rqs \<longrightarrow>
             probe (srv w1) = (503, [StatusBody ''not ready'']) \<and> probe (srv w2) = (503, [StatusBody ''not ready'']) \<and>
             probe (srv w') = (200, [StatusBody ''ready'']))))) \<and>
       (\<forall>e. res = Some (CanceledWhileUnready pod e) \<longrightarrow>
          (\<exists>w1. httpPost k (pod_url pod) (readinessBody False) w = (Inr 200, w1) \<and> waitFor k window w1 = (Some e, w') \<and>
          (\<exists>rqs. others w' = others w @ rqs \<and> (undisturbed rqs \<longrightarrow>
             probe (srv w1) = (503, [StatusBody ''not ready'']) \<and> probe (srv w') = (503, [StatusBody ''not ready''])))))
     else probe (srv w') = probe (srv w) \<and> (res = Some (NoPodIP pod) \<or> (\<exists>e. res = Some (SetUnreadyFailed pod e))))"
proof -
  have port: "podHTTPPort = unat containerPort" by (simp add: podHTTPPort_def containerPort_def)
  have p: "probe s = (if sReady s then (200, [StatusBody ''ready'']) else (503, [StatusBody ''not ready'']))" for s
    using probes_answer [of E ts s] unfolding probe by blast
  then have u: "probe s = (503, [StatusBody ''not ready''])" if "\<not> sReady s" for s using that by simp
  have v: "probe s = (200, [StatusBody ''ready''])" if "sReady s" for s using that p by simp
  show ?thesis
  proof (cases "cEnableChaosEndpoints (sCfg (srv w))")
    case True
    note f = pod_network.flap_enabled [OF assms(1,2) True]
    show ?thesis unfolding if_P [OF True]
    proof (intro conjI impI allI port)
      show "\<exists>w1 w2. httpPost k (pod_url pod) (readinessBody False) w = (Inr 200, w1) \<and>
          waitFor k window w1 = (None, w2) \<and> httpPost k (pod_url pod) (readinessBody True) w2 = (Inr 200, w') \<and>
          (\<exists>rqs. others w' = others w @ rqs \<and> (undisturbed rqs \<longrightarrow>
             probe (srv w1) = (503, [StatusBody ''not ready'']) \<and> probe (srv w2) = (503, [StatusBody ''not ready'']) \<and>
             probe (srv w') = (200, [StatusBody ''ready''])))" if "res = None"
        using f u v unfolding that option.case by blast
      show "\<exists>w1. httpPost k (pod_url pod) (readinessBody False) w = (Inr 200, w1) \<and> waitFor k window w1 = (Some e, w') \<and>
          (\<exists>rqs. others w' = others w @ rqs \<and> (undisturbed rqs \<longrightarrow>
             probe (srv w1) = (503, [StatusBody ''not ready'']) \<and> probe (srv w') = (503, [StatusBody ''not ready''])))"
        if "res = Some (CanceledWhileUnready pod e)" for e
        using f u unfolding that option.case kube_error.case by blast
    qed
  next
    case False
    then show ?thesis using port pod_network.flap_gated [OF assms(1,2) False] p by simp
  qed
qed

theorem flap_on_workload_witness:
  "\<exists>res w'. clientFlapReadiness (wired (Some ''context canceled'')) demo_pod 5
       (New (demo_config\<lparr>cEnableChaosEndpoints := True\<rparr>) (\<lambda>_ _. None) 0 0, []) = (res, w') \<and>
     res = Some (CanceledWhileUnready demo_pod ''context canceled'') \<and>
     snd (serve demo_env (get_request ''/readyz'' (9, 9)) (fst w')) = (503, [StatusBody ''not ready''])"
proof -
  let ?k = "wired (Some ''context canceled'')"
  define s where "s = New (demo_config\<lparr>cEnableChaosEndpoints := True\<rparr>) ((\<lambda>_ _. None) :: registry) (0 :: nat) 0"
  obtain res w' where f: "clientFlapReadiness ?k demo_pod 5 (s, []) = (res, w')" by (rule prod.exhaust)
  have c: "cEnableChaosEndpoints (sCfg s)" by (simp add: s_def New_def)
  obtain s1 bs where p: "serve demo_env (posted json_ready (readinessBody False) (1, 2)) s = (s1, 200, bs)"
    using serve_posted [of json_ready "readinessBody False" False, OF wire.decodes c] by blast
  have r: "res = Some (CanceledWhileUnready demo_pod ''context canceled'')" "snd w' = [get_request ''/status'' (3, 4)]"
    using f p by (auto simp: clientFlapReadiness_def postReadiness_def demo_pod_def wired_def Let_def)
  then have "undisturbed (snd w')" by (simp add: get_request_def)
  then show ?thesis
    using flap_on_workload [OF wire.pod_network_axioms f refl, of "(9, 9)"] c f r(1) unfolding s_def by auto
qed

end
