(* ===== verification/Interleave.thy ===== *)
theory Interleave
  imports ApiServer "HOL-Library.Sublist"
begin

text \<open>
  The goroutines of the workload's server without the assumption that an operation is one step. A
  thread (the refresher, a connection, the shutdown) is a list of the accesses the code makes to
  shared state: an atomic load or store of the flag, a section under the window's mutex, one
  \<^verbatim>\<open>Set\<close> of one gauge. The scheduler picks a thread for every access. What a thread
  computes in between is its own \<open>local\<close> state. server.go takes no lock around
  \<^verbatim>\<open>currentReport\<close> and \<^verbatim>\<open>SetHealth\<close>, so two of them may overlap.
\<close>

section \<open>Accesses and threads\<close>

datatype action =
    StoreReady bool
  | LockedStats
  | LoadReady
  | MakeReport int int
  | SetScore
  | SetReadyGauge
  | SetMoodGauge mood
  | Observe duration bool

record local =
  lStats :: "f64 \<times> duration \<times> nat"
  lReady :: bool
  lReport :: "int report"

definition report_of :: "int \<Rightarrow> int \<Rightarrow> f64 \<times> duration \<times> nat \<Rightarrow> bool \<Rightarrow> ('m, 'r) server \<Rightarrow> int report" where
  "report_of t1 t2 st ready s =
     NewReport \<lparr>Ready = ready, ErrorRate = fst st, P95Latency = fst (snd st),
                LatencyBudget = cLatencyBudget (sCfg s), RestartCount = 0\<rparr>
       (cPlantName (sCfg s)) (cSpecies (sCfg s)) (time_sub t1 (sStartedAt s)) t2"

definition set_gauge :: "'m prom \<Rightarrow> string \<Rightarrow> string list \<Rightarrow> f64 \<Rightarrow> ('m, 'r) server \<Rightarrow> ('m, 'r) server" where
  "set_gauge P k js v s = s\<lparr>sMetrics := gauge_set P k js v (sMetrics s)\<rparr>"

fun exec :: "'m prom \<Rightarrow> action \<Rightarrow> ('m, 'r) server \<times> local \<Rightarrow> ('m, 'r) server \<times> local" where
  "exec P (StoreReady b) (s, l) = (s\<lparr>sReady := b\<rparr>, l)"
| "exec P LockedStats (s, l) = (s, l\<lparr>lStats := stats (sWork s)\<rparr>)"
| "exec P LoadReady (s, l) = (s, l\<lparr>lReady := sReady s\<rparr>)"
| "exec P (MakeReport t1 t2) (s, l) = (s, l\<lparr>lReport := report_of t1 t2 (lStats l) (lReady l) s\<rparr>)"
| "exec P SetScore (s, l) = (set_gauge P health_score_metric [] (rHealthScore (lReport l)) s, l)"
| "exec P SetReadyGauge (s, l) = (set_gauge P ready_metric [] (if rReady (lReport l) then Fin 1 else Fin 0) s, l)"
| "exec P (SetMoodGauge c) (s, l) =
     (set_gauge P mood_metric [c] (if c = rMood (lReport l) then Fin 1 else Fin 0) s, l)"
| "exec P (Observe d f) (s, l) = (s\<lparr>sWork := observe d f (sWork s)\<rparr>, l)"

text \<open>
  What the operations do, access by access: a sync is a tick of the refresher or a request for
  /status, \<open>Override\<close> is \<^verbatim>\<open>SetReady\<close>, and of a /work request the observation.
\<close>

datatype operation = Sync int int | Override int int bool | Work duration bool

definition currentReport_actions :: "int \<Rightarrow> int \<Rightarrow> action list" where
  "currentReport_actions t1 t2 = [LockedStats, LoadReady, MakeReport t1 t2]"

definition SetHealth_actions :: "action list" where
  "SetHealth_actions = [SetScore, SetReadyGauge] @ map SetMoodGauge AllMoods"

fun actions :: "operation \<Rightarrow> action list" where
  "actions (Sync t1 t2) = currentReport_actions t1 t2 @ SetHealth_actions"
| "actions (Override t1 t2 b) = StoreReady b # currentReport_actions t1 t2 @ SetHealth_actions"
| "actions (Work d f) = [Observe d f]"

abbreviation program :: "operation list \<Rightarrow> action list" where
  "program xs \<equiv> concat (map actions xs)"

fun atomically :: "'m prom \<Rightarrow> operation \<Rightarrow> ('m, 'r) server \<Rightarrow> ('m, 'r) server" where
  "atomically P (Sync t1 t2) s = syncMetrics P (currentReport t1 t2 s) s"
| "atomically P (Override t1 t2 b) s = SetReady P t1 t2 b s"
| "atomically P (Work d f) s = s\<lparr>sWork := observe d f (sWork s)\<rparr>"

record ('m, 'r) threads =
  tServer :: "('m, 'r) server"
  tProgram :: "nat \<Rightarrow> action list"
  tLocal :: "nat \<Rightarrow> local"

definition turn :: "'m prom \<Rightarrow> nat \<Rightarrow> ('m, 'r) threads \<Rightarrow> ('m, 'r) threads" where
  "turn P i c =
     (case tProgram c i of [] \<Rightarrow> c
      | a # as \<Rightarrow> (let (s, l) = exec P a (tServer c, tLocal c i)
                   in \<lparr>tServer = s, tProgram = (tProgram c)(i := as), tLocal = (tLocal c)(i := l)\<rparr>))"

definition schedule :: "'m prom \<Rightarrow> nat list \<Rightarrow> ('m, 'r) threads \<Rightarrow> ('m, 'r) threads" where
  "schedule P is c = fold (turn P) is c"

lemma schedule_simps [simp]:
  "schedule P [] c = c" "schedule P (i # is) c = schedule P is (turn P i c)"
  "schedule P (is @ js) c = schedule P js (schedule P is c)"
  by (simp_all add: schedule_def)

lemma turn_idle: "tProgram c i = [] \<Longrightarrow> turn P i c = c"
  by (simp add: turn_def)

lemma turn_other: "j \<noteq> i \<Longrightarrow> tProgram (turn P i c) j = tProgram c j \<and> tLocal (turn P i c) j = tLocal c j"
  by (simp add: turn_def split: list.split prod.split)

lemma turn_step:
  assumes "tProgram c i = a # as"
  shows "tServer (turn P i c) = fst (exec P a (tServer c, tLocal c i))" "tProgram (turn P i c) i = as"
    "tLocal (turn P i c) i = snd (exec P a (tServer c, tLocal c i))"
  using assms by (simp_all add: turn_def split: prod.split)

text \<open>An invariant of the turns is one of every schedule.\<close>

lemma schedule_invariant:
  assumes "I c" "\<And>c i a as. I c \<Longrightarrow> tProgram c i = a # as \<Longrightarrow> I (turn P i c)"
  shows "I (schedule P is c)"
  using assms(1)
proof (induction "is" arbitrary: c)
  case (Cons i "is")
  then show ?case using assms(2) [of c i] by (cases "tProgram c i") (simp_all add: turn_idle)
qed simp

section \<open>Without overlap\<close>

text \<open>One thread alone.\<close>

fun execs :: "'m prom \<Rightarrow> action list \<Rightarrow> ('m, 'r) server \<times> local \<Rightarrow> ('m, 'r) server \<times> local" where
  "execs P [] x = x"
| "execs P (a # as) x = execs P as (exec P a x)"

lemma execs_append: "execs P (as @ bs) x = execs P bs (execs P as x)"
  by (induction as arbitrary: x) simp_all

lemma schedule_alone:
  "tProgram c i = as @ bs \<Longrightarrow> schedule P (replicate (length as) i) c =
     (case execs P as (tServer c, tLocal c i) of (s, l) \<Rightarrow>
        \<lparr>tServer = s, tProgram = (tProgram c)(i := bs), tLocal = (tLocal c)(i := l)\<rparr>)"
proof (induction as arbitrary: c)
  case Nil
  then have "(tProgram c)(i := bs) = tProgram c" "(tLocal c)(i := tLocal c i) = tLocal c" by auto
  then have "\<lparr>tServer = tServer c, tProgram = (tProgram c)(i := bs), tLocal = (tLocal c)(i := tLocal c i)\<rparr> = c"
    by (simp only:) simp
  then show ?case by (simp only: execs.simps prod.case) simp
next
  case (Cons a as)
  let ?c = "turn P i c"
  have p: "tProgram c i = a # as @ bs" using Cons.prems by simp
  obtain s l where e: "exec P a (tServer c, tLocal c i) = (s, l)" by fastforce
  have t: "?c = \<lparr>tServer = s, tProgram = (tProgram c)(i := as @ bs), tLocal = (tLocal c)(i := l)\<rparr>"
    using p e by (simp add: turn_def)
  have "tProgram ?c i = as @ bs" by (simp add: t)
  from Cons.IH [OF this] show ?case using e by (simp add: t fun_upd_same del: fun_upd_apply split: prod.split)
qed

lemma execs_moods:
  "execs P (map SetMoodGauge cs) (s, l) = (s\<lparr>sMetrics := fold (\<lambda>c. gauge_set P mood_metric [c]
     (if c = rMood (lReport l) then Fin 1 else Fin 0)) cs (sMetrics s)\<rparr>, l)"
  by (induction cs arbitrary: s) (simp_all add: set_gauge_def)

lemma report_of_current: "report_of t1 t2 (stats (sWork s)) (sReady s) s = currentReport t1 t2 s"
  by (simp add: report_of_def currentReport_def Let_def split: prod.split)

lemma execs_sync:
  "execs P (actions (Sync t1 t2)) (s, l) = (syncMetrics P (currentReport t1 t2 s) s,
     l\<lparr>lStats := stats (sWork s), lReady := sReady s, lReport := currentReport t1 t2 s\<rparr>)"
  by (simp add: currentReport_actions_def SetHealth_actions_def execs_append execs_moods
      syncMetrics_def SetHealth_def set_gauge_def Let_def report_of_current)

lemma execs_actions: "fst (execs P (actions x) (s, l)) = atomically P x s"
proof (cases x)
  case (Sync t1 t2)
  show ?thesis unfolding Sync execs_sync by simp
next
  case (Override t1 t2 b)
  have "execs P (actions x) (s, l) = execs P (actions (Sync t1 t2)) (s\<lparr>sReady := b\<rparr>, l)" by (simp add: Override)
  then show ?thesis unfolding execs_sync by (simp add: Override SetReady_def Let_def)
qed simp

lemma schedule_operation:
  assumes "tProgram c i = actions x @ bs"
  shows "tServer (schedule P (replicate (length (actions x)) i) c) = atomically P x (tServer c)"
    "tProgram (schedule P (replicate (length (actions x)) i) c) = (tProgram c)(i := bs)"
proof -
  obtain s l where e: "execs P (actions x) (tServer c, tLocal c i) = (s, l)" by fastforce
  then have "s = atomically P x (tServer c)" using execs_actions [of P x "tServer c" "tLocal c i"] by simp
  then show "tServer (schedule P (replicate (length (actions x)) i) c) = atomically P x (tServer c)"
    "tProgram (schedule P (replicate (length (actions x)) i) c) = (tProgram c)(i := bs)"
    using e by (simp_all add: schedule_alone [OF assms])
qed

text \<open>A schedule in which the operations do not overlap: \<open>xs\<close> lists them with their threads.\<close>

definition one_by_one :: "(nat \<times> operation) list \<Rightarrow> nat list" where
  "one_by_one xs = concat (map (\<lambda>(i, x). replicate (length (actions x)) i) xs)"

definition thread_of :: "nat \<Rightarrow> (nat \<times> operation) list \<Rightarrow> operation list" where
  "thread_of i xs = map snd (filter (\<lambda>x. fst x = i) xs)"

lemma serial:
  "(\<And>i. tProgram c i = program (thread_of i xs) @ rest i) \<Longrightarrow>
     tServer (schedule P (one_by_one xs) c) = fold (\<lambda>(i, x). atomically P x) xs (tServer c) \<and>
     tProgram (schedule P (one_by_one xs) c) = rest"
proof (induction xs arbitrary: c)
  case Nil
  then show ?case by (auto simp: one_by_one_def thread_of_def)
next
  case (Cons ix xs)
  obtain i x where ix: "ix = (i, x)" by (cases ix)
  let ?c = "schedule P (replicate (length (actions x)) i) c"
  have p: "tProgram c i = actions x @ program (thread_of i xs) @ rest i"
    using Cons.prems [of i] by (simp add: ix thread_of_def)
  have "tProgram ?c j = program (thread_of j xs) @ rest j" for j
    unfolding schedule_operation(2) [OF p] using Cons.prems [of j] by (simp add: ix thread_of_def)
  from Cons.IH [OF this] show ?case
    using schedule_operation(1) [OF p, of P] by (simp add: ix one_by_one_def)
qed

section \<open>The readiness gauge\<close>

text \<open>
  \<open>writes b (l, r) as\<close>: as long as the flag is \<open>b\<close>, every \<^verbatim>\<open>Set\<close> of the
  readiness gauge by a thread with loaded value \<open>l\<close> and report readiness \<open>r\<close> writes
  \<open>b\<close>, and no store changes the flag.
\<close>

fun writes :: "bool \<Rightarrow> bool \<times> bool \<Rightarrow> action list \<Rightarrow> bool" where
  "writes b x [] = True"
| "writes b x (LoadReady # as) = writes b (b, snd x) as"
| "writes b x (MakeReport t1 t2 # as) = writes b (fst x, fst x) as"
| "writes b x (SetReadyGauge # as) = (snd x = b \<and> writes b x as)"
| "writes b x (StoreReady b' # as) = (b' = b \<and> writes b x as)"
| "writes b x (a # as) = writes b x as"

lemma writes_moods: "writes b x (map SetMoodGauge cs @ as) = writes b x as"
  by (induction cs) simp_all

lemma writes_sync:
  "writes b x (currentReport_actions t1 t2 @ SetHealth_actions @ as) = writes b (b, b) as"
  by (simp add: currentReport_actions_def SetHealth_actions_def writes_moods)

lemma writes_program:
  "(\<forall>t1 t2 b'. Override t1 t2 b' \<in> set xs \<longrightarrow> b' = b) \<Longrightarrow> writes b x (program xs)"
proof (induction xs arbitrary: x)
  case (Cons y ys)
  have i: "writes b x (program ys)" for x using Cons by simp
  show ?case
  proof (cases y)
    case (Override t1 t2 b')
    then have "b' = b" using Cons.prems by auto
    then show ?thesis using i by (simp add: Override writes_sync)
  qed (use i in \<open>simp_all add: writes_sync\<close>)
qed simp

text \<open>A thread is in the window when its next write of the readiness gauge uses a value it has
  already loaded.\<close>

fun outside_window :: "action list \<Rightarrow> bool" where
  "outside_window [] = True"
| "outside_window (LoadReady # as) = True"
| "outside_window (MakeReport t1 t2 # as) = False"
| "outside_window (SetReadyGauge # as) = False"
| "outside_window (a # as) = outside_window as"

lemma suffix_program_cases:
  assumes "suffix as (program (y # ys))"
  obtains "suffix as (program ys)" | bs where "as = bs @ program ys" "suffix bs (actions y)"
  using assms by (auto simp: suffix_append)

lemma writes_outside:
  assumes "suffix as (program xs)" "outside_window as" "\<forall>t1 t2 b'. Override t1 t2 b' \<in> set xs \<longrightarrow> b' = b"
  shows "writes b (l, r) as"
  using assms
proof (induction xs)
  case (Cons y ys)
  have i: "writes b x (program ys)" for x using Cons.prems(3) by (intro writes_program) simp
  show ?case
  proof (rule suffix_program_cases [OF Cons.prems(1)])
    assume "suffix as (program ys)"
    then show ?thesis using Cons by simp
  next
    fix bs assume as: "as = bs @ program ys" "suffix bs (actions y)"
    show ?thesis
    proof (cases y)
      case (Override t1 t2 b')
      then have "b' = b" using Cons.prems(3) by auto
      then show ?thesis using as Cons.prems(2) i
        by (auto simp: Override suffix_Cons currentReport_actions_def SetHealth_actions_def AllMoods_def)
    qed (use as Cons.prems(2)  i in
        \<open>auto simp: suffix_Cons currentReport_actions_def SetHealth_actions_def AllMoods_def\<close>)
  qed
qed simp

text \<open>The flag is \<open>b\<close>, every write to come is right, and \<open>k\<close> has written or will.\<close>

definition gauge_settling :: "'m prom \<Rightarrow> bool \<Rightarrow> nat \<Rightarrow> ('m, 'r) threads \<Rightarrow> bool" where
  "gauge_settling P b k c \<longleftrightarrow> sReady (tServer c) = b \<and>
     (\<forall>i. writes b (lReady (tLocal c i), rReady (lReport (tLocal c i))) (tProgram c i)) \<and>
     (SetReadyGauge \<in> set (tProgram c k) \<or>
      series P (sMetrics (tServer c)) ready_metric [] = Some (if b then Fin 1 else Fin 0))"

lemma rReady_report_of [simp]: "rReady (report_of t1 t2 st b s) = b"
  by (simp add: report_of_def NewReport_def Let_def)

lemma gauge_settling_turn:
  assumes "prometheus P" "gauge_settling P b k c" "tProgram c i = a # as"
  shows "gauge_settling P b k (turn P i c)"
proof -
  note t = turn_step [OF assms(3), of P] turn_other [of _ i P c]
  have w: "writes b (lReady (tLocal c i), rReady (lReport (tLocal c i))) (a # as)"
    and v: "writes b (lReady (tLocal c j), rReady (lReport (tLocal c j))) (tProgram c j)" for j
    using assms(2,3) unfolding gauge_settling_def by metis+
  have "sReady (tServer (turn P i c)) = b"
    using assms(2) w by (cases a) (simp_all add: t gauge_settling_def set_gauge_def)
  moreover have "writes b (lReady (tLocal (turn P i c) j), rReady (lReport (tLocal (turn P i c) j))) (tProgram (turn P i c) j)" for j
  proof (cases "j = i")
    case True
    then show ?thesis using w assms(2) by (cases a) (auto simp: t gauge_settling_def set_gauge_def)
  qed (use v t in simp)
  moreover have "SetReadyGauge \<in> set (tProgram (turn P i c) k) \<or>
      series P (sMetrics (tServer (turn P i c))) ready_metric [] = Some (if b then Fin 1 else Fin 0)"
    using assms(2,3) w t
    by (cases a; cases "k = i") (auto simp: gauge_settling_def set_gauge_def prometheus.series_set [OF assms(1)])
  ultimately show ?thesis by (simp add: gauge_settling_def)
qed

lemma suffix_turn: "suffix (tProgram (turn P i c) j) (tProgram c j)"
  by (cases "tProgram c i"; cases "j = i") (auto simp: turn_idle turn_step turn_other suffix_ConsI)

lemma suffix_schedule: "suffix (tProgram (schedule P is c) j) (tProgram c j)"
proof (induction "is" arbitrary: c)
  case (Cons i "is")
  show ?case using suffix_order.trans [OF Cons suffix_turn] by simp
qed simp

section \<open>Overlapping syncs of an unchanged server\<close>

text \<open>Every gauge this thread still sets gets the value of the server \<open>s\<close>.\<close>

fun consistent :: "('m, 'r) server \<Rightarrow> local \<Rightarrow> action list \<Rightarrow> bool" where
  "consistent s l [] = True"
| "consistent s l (LockedStats # as) = consistent s (l\<lparr>lStats := stats (sWork s)\<rparr>) as"
| "consistent s l (LoadReady # as) = consistent s (l\<lparr>lReady := sReady s\<rparr>) as"
| "consistent s l (MakeReport t1 t2 # as) =
     consistent s (l\<lparr>lReport := report_of t1 t2 (lStats l) (lReady l) s\<rparr>) as"
| "consistent s l (SetScore # as) =
     (rHealthScore (lReport l) = rHealthScore (currentReport 0 0 s) \<and> consistent s l as)"
| "consistent s l (SetReadyGauge # as) = (rReady (lReport l) = sReady s \<and> consistent s l as)"
| "consistent s l (SetMoodGauge c # as) =
     (rMood (lReport l) = rMood (currentReport 0 0 s) \<and> consistent s l as)"
| "consistent s l (StoreReady b # as) = False"
| "consistent s l (Observe d f # as) = False"

lemma currentReport_times:
  "rHealthScore (currentReport t1 t2 s) = rHealthScore (currentReport 0 0 s)"
  "rMood (currentReport t1 t2 s) = rMood (currentReport 0 0 s)"
  by (simp_all add: currentReport_def NewReport_def Let_def split: prod.split)

lemma consistent_moods:
  "consistent s l (map SetMoodGauge cs @ as) \<longleftrightarrow>
     (cs = [] \<or> rMood (lReport l) = rMood (currentReport 0 0 s)) \<and> consistent s l as"
  by (induction cs) auto

lemma consistent_program: "\<forall>x \<in> set xs. \<exists>t1 t2. x = Sync t1 t2 \<Longrightarrow> consistent s l (program xs)"
proof (induction xs arbitrary: l)
  case (Cons x xs)
  obtain t1 t2 where x: "x = Sync t1 t2" using Cons.prems by auto
  have "consistent s l (program xs)" for l using Cons by simp
  then show ?case
    using currentReport_times [of t1 t2 s] report_ready [of t1 t2 s]
    by (simp add: x currentReport_actions_def SetHealth_actions_def consistent_moods report_of_current)
qed simp

definition right_gauge :: "action \<Rightarrow> ('m, 'r) server \<Rightarrow> 'm prom \<Rightarrow> 'm \<Rightarrow> bool" where
  "right_gauge a s P m \<longleftrightarrow>
     (case a of
        SetScore \<Rightarrow> series P m health_score_metric [] = Some (rHealthScore (currentReport 0 0 s))
      | SetReadyGauge \<Rightarrow> series P m ready_metric [] = Some (if sReady s then Fin 1 else Fin 0)
      | SetMoodGauge c \<Rightarrow> series P m mood_metric [c] = Some (if c = rMood (currentReport 0 0 s) then Fin 1 else Fin 0)
      | _ \<Rightarrow> True)"

definition syncing :: "'m prom \<Rightarrow> ('m, 'r) server \<Rightarrow> nat \<Rightarrow> action set \<Rightarrow> ('m, 'r) threads \<Rightarrow> bool" where
  "syncing P s k as c \<longleftrightarrow> tServer c = s\<lparr>sMetrics := sMetrics (tServer c)\<rparr> \<and>
     (\<forall>i. consistent s (tLocal c i) (tProgram c i)) \<and>
     (\<forall>a \<in> as. a \<in> set (tProgram c k) \<or> right_gauge a s P (sMetrics (tServer c)))"

lemma report_of_metrics [simp]: "report_of t1 t2 st b (s\<lparr>sMetrics := m\<rparr>) = report_of t1 t2 st b s"
  by (simp add: report_of_def)

lemma consistent_exec:
  assumes "consistent s l (a # as)"
  shows "consistent s (snd (exec P a (s\<lparr>sMetrics := m\<rparr>, l))) as"
    "fst (exec P a (s\<lparr>sMetrics := m\<rparr>, l)) = s\<lparr>sMetrics := sMetrics (fst (exec P a (s\<lparr>sMetrics := m\<rparr>, l)))\<rparr>"
  using assms by (cases a; simp add: set_gauge_def)+

lemma right_gauge_set:
  assumes "prometheus P" "consistent s l (b # bs)"
  shows "right_gauge b s P (sMetrics (fst (exec P b (s\<lparr>sMetrics := m\<rparr>, l))))"
    "right_gauge a s P m \<Longrightarrow> right_gauge a s P (sMetrics (fst (exec P b (s\<lparr>sMetrics := m\<rparr>, l))))"
proof -
  show "right_gauge b s P (sMetrics (fst (exec P b (s\<lparr>sMetrics := m\<rparr>, l))))"
    using assms(2) by (cases b) (simp_all add: right_gauge_def set_gauge_def prometheus.series_set [OF assms(1)])
  show "right_gauge a s P m \<Longrightarrow> right_gauge a s P (sMetrics (fst (exec P b (s\<lparr>sMetrics := m\<rparr>, l))))"
    using assms(2)
    by (cases b; simp add: set_gauge_def; cases a; simp add: right_gauge_def prometheus.series_set [OF assms(1)])
qed

lemma syncing_turn:
  assumes P: "prometheus P" and i: "syncing P s k as c" and p: "tProgram c i = a # bs"
  shows "syncing P s k as (turn P i c)"
proof -
  define m where "m = sMetrics (tServer c)"
  have e: "tServer c = s\<lparr>sMetrics := m\<rparr>" using i unfolding m_def syncing_def by (rule conjunct1)
  have c: "consistent s (tLocal c i) (a # bs)" and v: "consistent s (tLocal c j) (tProgram c j)" for j
    using i p unfolding syncing_def by metis+
  have g: "x \<in> set (tProgram c k) \<or> right_gauge x s P m" if "x \<in> as" for x
    using i that unfolding syncing_def m_def by blast
  let ?x = "exec P a (s\<lparr>sMetrics := m\<rparr>, tLocal c i)"
  have t: "tServer (turn P i c) = fst ?x" "tProgram (turn P i c) i = bs" "tLocal (turn P i c) i = snd ?x"
    using turn_step [OF p, of P] by (simp_all only: e)
  have "consistent s (tLocal (turn P i c) j) (tProgram (turn P i c) j)" for j
    using consistent_exec(1) [OF c, of P m] v [of j] turn_other [of j i P c] by (cases "j = i") (simp_all add: t)
  moreover have "y \<in> set (tProgram (turn P i c) k) \<or> right_gauge y s P (sMetrics (fst ?x))" if "y \<in> as" for y
  proof (cases "k = i \<and> y = a")
    case True
    then show ?thesis using right_gauge_set(1) [OF P c] by blast
  next
    case False
    then show ?thesis
      using g [OF that] right_gauge_set(2) [OF P c, of y] turn_other [of k i P c] p t(2) by (cases "k = i") auto
  qed
  ultimately show ?thesis unfolding syncing_def t(1) using consistent_exec(2) [OF c] by blast
qed

section \<open>Properties\<close>

text \<open>C18: The sequential model of the server is what the goroutines do when their
  operations do not overlap: for any number of threads, each with any list of operations, and any
  order of these operations, the schedule that runs them one by one, access by access, ends with
  all threads finished in the state the atomic operations give in that order.\<close>

theorem atomic_when_serial:
  assumes "\<And>i. tProgram c i = program (thread_of i xs)"
  shows "tServer (schedule P (one_by_one xs) c) = fold (\<lambda>(_, x). atomically P x) xs (tServer c) \<and>
    (\<forall>i. tProgram (schedule P (one_by_one xs) c) i = [])"
  using serial [of c xs "\<lambda>_. []" P] assms by simp

definition blank_local :: local where
  "blank_local = \<lparr>lStats = (Fin 0, 0, 0), lReady = False,
     lReport = NewReport \<lparr>Ready = False, ErrorRate = Fin 0, P95Latency = 0, LatencyBudget = 0, RestartCount = 0\<rparr> [] [] 0 0\<rparr>"

text \<open>A refresher that has a tick to handle (thread 0) and the shutdown (thread 1), before either has begun.\<close>

definition at_shutdown :: "(registry, nat) threads" where
  "at_shutdown = \<lparr>tServer = server_after True [],
     tProgram = (\<lambda>i. if i = 0 then actions (Sync 1 2) else if i = 1 then actions (Override 3 4 False) else []),
     tLocal = (\<lambda>_. blank_local)\<rparr>"

theorem atomic_when_serial_witness:
  "tServer (schedule map_prom (one_by_one [(0, Sync 1 2), (1, Override 3 4 False)]) at_shutdown) =
     SetReady map_prom 3 4 False (syncMetrics map_prom (currentReport 1 2 (server_after True [])) (server_after True []))"
proof -
  have p: "tProgram at_shutdown i = program (thread_of i [(0, Sync 1 2), (1, Override 3 4 False)])" for i
    by (simp add: at_shutdown_def thread_of_def)
  have "tServer at_shutdown = server_after True []" by (simp add: at_shutdown_def)
  then show ?thesis using atomic_when_serial [OF p, of map_prom] by simp
qed

text \<open>C9: The readiness the gauge shows after the shutdown's SetReady, under every
  interleaving. If no goroutine has loaded the flag for a write of the gauge that is still to come
  when the shutdown stores it, and nothing overrides it, then from the end of SetReady on, whatever
  the scheduler does before, meanwhile and afterwards, the flag is down and buddy_ready is 0.\<close>

theorem unready_gauge_interleaved:
  assumes "prometheus P" "\<And>i. tProgram c0 i = program (ops i)"
    and no_override: "\<And>i t1 t2. Override t1 t2 True \<notin> set (ops i)"
    and next_is_store: "tProgram (schedule P before c0) k = actions (Override t1 t2 False)"
    and window: "\<And>i. outside_window (tProgram (schedule P before c0) i)"
    and finished: "tProgram (schedule P (before @ k # after) c0) k = []"
  shows "\<not> sReady (tServer (schedule P (before @ k # after) c0)) \<and>
    series P (sMetrics (tServer (schedule P (before @ k # after) c0))) ready_metric [] = Some (Fin 0)"
proof -
  let ?c = "schedule P before c0"
  have p: "tProgram ?c k = StoreReady False # currentReport_actions t1 t2 @ SetHealth_actions"
    using next_is_store by simp
  note t = turn_step [OF p, of P] turn_other [of _ k P ?c]
  have o: "\<forall>t1 t2 b'. Override t1 t2 b' \<in> set (ops i) \<longrightarrow> b' = False" for i
    using no_override by (metis (full_types))
  have w: "writes False (l, r) (tProgram ?c i)" for i l r
    using suffix_schedule [of P before c0 i] window assms(2) o by (intro writes_outside) simp_all
  have "writes False (l, r) (tProgram (turn P k ?c) i)" for i l r
    using w [of l r i] w [of l r k] t p by (cases "i = k") simp_all
  then have "gauge_settling P False k (turn P k ?c)"
    by (simp add: gauge_settling_def t SetHealth_actions_def)
  then have "gauge_settling P False k (schedule P after (turn P k ?c))"
    by (rule schedule_invariant) (rule gauge_settling_turn [OF assms(1)])
  then show ?thesis using finished by (simp add: gauge_settling_def)
qed

theorem unready_gauge_interleaved_witness:
  "series map_prom (sMetrics (tServer (schedule map_prom
     ([0] @ 1 # [0, 0, 1, 1, 1, 0, 0, 0, 1, 1, 1, 1, 0, 1, 1, 1, 1, 0]) at_shutdown))) ready_metric [] = Some (Fin 0)"
proof -
  let ?ops = "\<lambda>i::nat. if i = 0 then [Sync 1 2] else if i = 1 then [Override 3 4 False] else []"
  have p: "tProgram at_shutdown i = program (?ops i)" for i by (simp add: at_shutdown_def)
  have s: "tProgram (schedule map_prom [0] at_shutdown) i =
      (if i = 0 then tl (actions (Sync 1 2)) else if i = 1 then actions (Override 3 4 False) else [])" for i
    by (simp add: at_shutdown_def turn_def currentReport_actions_def)
  have w: "outside_window (tProgram (schedule map_prom [0] at_shutdown) i)" for i
    unfolding s by (simp add: currentReport_actions_def)
  have f: "tProgram (schedule map_prom ([0] @ 1 # [0, 0, 1, 1, 1, 0, 0, 0, 1, 1, 1, 1, 0, 1, 1, 1, 1, 0]) at_shutdown) 1 = []"
    by (simp add: at_shutdown_def turn_def currentReport_actions_def SetHealth_actions_def AllMoods_def split_beta)
  show ?thesis
    using unready_gauge_interleaved [OF map_registry.prometheus_axioms p, of "[0]" 1 3 4, OF _ _ w f] s by auto
qed

text \<open>Syncs that overlap are harmless as long as the server does not change: for any
  number of goroutines that only refresh the gauges or answer /status, under every interleaving, as
  soon as one of them has finished its syncs the gauges agree with the server, the score and the mood
  are those it would report now, and the gauges stay so while the others go on.\<close>

theorem overlapping_syncs:
  assumes "prometheus P" "\<And>i. tProgram c i = program (ops i)" "\<And>i. \<forall>x \<in> set (ops i). \<exists>t1 t2. x = Sync t1 t2"
    and "ops k \<noteq> []" "tProgram (schedule P is c) k = []"
  shows "(let s = tServer (schedule P is c) in
    gauges_synced P s \<and> sReady s = sReady (tServer c) \<and> sWork s = sWork (tServer c) \<and>
    series P (sMetrics s) health_score_metric [] = Some (rHealthScore (currentReport t1 t2 s)) \<and>
    series P (sMetrics s) mood_metric [rMood (currentReport t1 t2 s)] = Some (Fin 1))"
proof -
  let ?s = "tServer c" and ?as = "set SetHealth_actions" and ?s' = "tServer (schedule P is c)"
  obtain x xs where k: "ops k = x # xs" using assms(4) by (cases "ops k") auto
  then obtain u v where x: "x = Sync u v" using assms(3) [of k] by auto
  have "?as \<subseteq> set (tProgram c k)" unfolding assms(2) k x by auto
  then have "syncing P ?s k ?as c"
    using consistent_program [OF assms(3)] assms(2) by (auto simp: syncing_def)
  then have i: "syncing P ?s k ?as (schedule P is c)"
    by (rule schedule_invariant) (rule syncing_turn [OF assms(1)])
  then have e: "?s' = ?s\<lparr>sMetrics := sMetrics ?s'\<rparr>" unfolding syncing_def by (rule conjunct1)
  have g: "right_gauge a ?s P (sMetrics ?s')" if "a \<in> ?as" for a
    using i that assms(5) by (auto simp: syncing_def)
  have r: "currentReport t1 t2 ?s' = currentReport t1 t2 ?s" by (subst e) (simp add: currentReport_def Let_def)
  have f: "sReady ?s' = sReady ?s" "sWork ?s' = sWork ?s" by (subst e, simp)+
  have "SetScore \<in> ?as" "SetReadyGauge \<in> ?as" and m: "\<And>d. d \<in> set AllMoods \<Longrightarrow> SetMoodGauge d \<in> ?as"
    by (simp_all add: SetHealth_actions_def)
  from g [OF this(1)] g [OF this(2)] g [OF m] show ?thesis
    using report_mood [of 0 0 ?s] f currentReport_times [of t1 t2 ?s]
    unfolding Let_def r by (auto simp: right_gauge_def gauges_synced_def)
qed

theorem overlapping_syncs_witness:
  "gauges_synced map_prom (tServer (schedule map_prom [0, 1, 1, 0, 1, 0, 0, 0, 1, 1, 0, 0, 1, 1, 0, 0, 1, 0, 0]
     (at_shutdown\<lparr>tProgram := (\<lambda>i. if i < 2 then actions (Sync 1 2) else [])\<rparr>)))"
proof -
  let ?c = "at_shutdown\<lparr>tProgram := (\<lambda>i. if i < 2 then actions (Sync 1 2) else [])\<rparr>"
    and ?is = "[0, 1, 1, 0, 1, 0, 0, 0, 1, 1, 0, 0, 1, 1, 0, 0, 1, 0, 0]"
  let ?ops = "\<lambda>i::nat. if i < 2 then [Sync 1 2] else []"
  have p: "tProgram ?c i = program (?ops i)" for i by simp
  have o: "\<forall>x \<in> set (?ops i). \<exists>t1 t2. x = Sync t1 t2" for i by simp
  have f: "tProgram (schedule map_prom ?is ?c) 0 = []"
    by (simp add: turn_def currentReport_actions_def SetHealth_actions_def AllMoods_def split_beta)
  have n: "?ops 0 \<noteq> []" by simp
  show ?thesis using overlapping_syncs [OF map_registry.prometheus_axioms p o n f] by (simp add: Let_def)
qed

lemma demo_report:
  assumes "sCfg s = demo_config"
  shows "rReady (report_of t1 t2 (stats empty_window) b s) = b"
    "rMood (report_of t1 t2 (stats empty_window) b s) = (if b then MoodLeafy else MoodNotTooHot)"
proof -
  have e: "stats empty_window = (Fin 0, 0, 0)"
    using stats_of_run [of "[]"] by (simp add: lastn_short stats_of_Nil)
  show "rReady (report_of t1 t2 (stats empty_window) b s) = b" by simp
  have "rMood (report_of t1 t2 (stats empty_window) b s) = FromScore (Score \<lparr>Ready = b, ErrorRate = Fin 0,
      P95Latency = 0, LatencyBudget = 300000000, RestartCount = 0\<rparr>)"
    by (simp add: report_of_def NewReport_def assms demo_config_def e Let_def)
  moreover have "FromScore (Score \<lparr>Ready = True, ErrorRate = Fin 0,
      P95Latency = 0, LatencyBudget = 300000000, RestartCount = 0\<rparr>) = MoodLeafy" by (simp add: mood_eval)
  moreover have "FromScore (Score \<lparr>Ready = False, ErrorRate = Fin 0,
      P95Latency = 0, LatencyBudget = 300000000, RestartCount = 0\<rparr>) = MoodNotTooHot" by (simp add: mood_eval)
  ultimately show "rMood (report_of t1 t2 (stats empty_window) b s) = (if b then MoodLeafy else MoodNotTooHot)"
    by (cases b) simp_all
qed

lemmas shutdown_eval = at_shutdown_def turn_def currentReport_actions_def SetHealth_actions_def AllMoods_def mood_defs
  server_after_def demo_server_def New_def demo_report set_gauge_def map_prom_def numeral_eq_Suc split_beta Let_def

text \<open>C17: What an overlap with the shutdown can do. The refresher loads the flag before
  the shutdown stores it and sets the gauges after the shutdown has begun to set them: when both
  have finished and nothing is left to run, the flag is down, and buddy_ready is 1, with two moods
  shown as active at once. In another order no mood is active at all. So the gauges of a pod in its
  propagation delay may contradict its readiness probe and each other.\<close>

theorem overlap_with_shutdown:
  "(\<exists>is. let c = schedule map_prom is at_shutdown; m = sMetrics (tServer c) in
      (\<forall>i. tProgram c i = []) \<and> \<not> sReady (tServer c) \<and> series map_prom m ready_metric [] = Some (Fin 1) \<and>
      series map_prom m mood_metric [MoodLeafy] = Some (Fin 1) \<and>
      series map_prom m mood_metric [MoodNotTooHot] = Some (Fin 1)) \<and>
   (\<exists>is. let c = schedule map_prom is at_shutdown; m = sMetrics (tServer c) in
      (\<forall>i. tProgram c i = []) \<and> map (\<lambda>d. series map_prom m mood_metric [d]) AllMoods = replicate 6 (Some (Fin 0)))"
proof -
  let ?is = "replicate 3 0 @ replicate 7 1 @ replicate 8 0 @ replicate 5 (1::nat)"
  let ?js = "replicate 6 0 @ replicate 12 1 @ replicate 5 (0::nat)"
  have 1: "let c = schedule map_prom ?is at_shutdown; m = sMetrics (tServer c) in
      (\<forall>i. tProgram c i = []) \<and> \<not> sReady (tServer c) \<and> series map_prom m ready_metric [] = Some (Fin 1) \<and>
      series map_prom m mood_metric [MoodLeafy] = Some (Fin 1) \<and>
      series map_prom m mood_metric [MoodNotTooHot] = Some (Fin 1)"
    by (simp add: shutdown_eval)
  have 2: "let c = schedule map_prom ?js at_shutdown; m = sMetrics (tServer c) in
      (\<forall>i. tProgram c i = []) \<and> map (\<lambda>d. series map_prom m mood_metric [d]) AllMoods = replicate 6 (Some (Fin 0))"
    by (simp add: shutdown_eval)
  show ?thesis using 1 2 by blast
qed

end
