(* ===== verification/WebhookCerts.thy ===== *)
theory WebhookCerts
  imports ApiErrors GoStd "HOL-Library.Multiset"
begin

text \<open>
  \<^verbatim>\<open>cmd/plant-operator/webhookcerts.go\<close>: the trust bundle of the admission
  webhooks. PEM, X.509, the sorting of a slice and the backoff loop are not part of the
  repository: the record \<open>pem_lib\<close> holds what the code calls of the first three and the locale
  \<open>pem_library\<close> what their documentation promises; the retry loop is the locale
  \<open>backoff_loop\<close>. Times are nanoseconds.
\<close>

section \<open>PEM and X.509\<close>

record pem_block =
  pbType :: string
  pbHeaders :: "(string \<times> string) list"
  pbBytes :: string

record x509_cert =
  ctNotBefore :: int
  ctNotAfter :: int

record ca_entry =
  enBlock :: pem_block
  enCert :: x509_cert

record pem_lib =
  pemDecode :: "string \<Rightarrow> (pem_block \<times> string) option"
  pemEncode :: "pem_block \<Rightarrow> string"
  parseCertificate :: "string \<Rightarrow> x509_cert option"
  sortSlice :: "(ca_entry \<Rightarrow> ca_entry \<Rightarrow> bool) \<Rightarrow> ca_entry list \<Rightarrow> ca_entry list"

definition newer :: "ca_entry \<Rightarrow> ca_entry \<Rightarrow> bool" where
  "newer x y \<longleftrightarrow> ctNotBefore (enCert x) > ctNotBefore (enCert y)"

text \<open>
  A block found is taken off the input, a block that was decoded once survives being encoded and
  decoded again in front of any text, and sorting permutes its input so that no element comes
  after a smaller one.
\<close>

locale pem_library =
  fixes C :: pem_lib
  assumes decode_shorter: "pemDecode C s = Some (b, r) \<Longrightarrow> length r < length s"
    and decode_encode: "pemDecode C s = Some (b, r) \<Longrightarrow> pemDecode C (pemEncode C b @ t) = Some (b, t)"
    and slice_mset: "mset (sortSlice C newer es) = mset es"
    and slice_sorted: "sorted_wrt (\<lambda>x y. \<not> newer y x) (sortSlice C newer es)"

section \<open>The bundle\<close>

definition webhookCertificateValidity :: int where "webhookCertificateValidity = 87600 * 3600000000000"
definition webhookCertExpiryReadinessMargin :: int where "webhookCertExpiryReadinessMargin = 24 * 3600000000000"
definition maxRetainedCAs :: nat where "maxRetainedCAs = 3"

type_synonym keep_state = "ca_entry list \<times> string set"

definition keep_block :: "pem_lib \<Rightarrow> int \<Rightarrow> pem_block \<Rightarrow> keep_state \<Rightarrow> keep_state" where
  "keep_block C now block st =
     (if pbType block \<noteq> ''CERTIFICATE'' then st
      else (case parseCertificate C (pbBytes block) of
          None \<Rightarrow> st
        | Some cert \<Rightarrow>
            if \<not> ctNotAfter cert > now then st
            else if pbBytes block \<in> snd st then st
            else (fst st @ [\<lparr>enBlock = block, enCert = cert\<rparr>], insert (pbBytes block) (snd st))))"

text \<open>A loop that never sees the end of its input is \<open>None\<close>.\<close>

partial_function (option) keepValid :: "pem_lib \<Rightarrow> int \<Rightarrow> string \<Rightarrow> keep_state \<Rightarrow> keep_state option" where
  "keepValid C now rest st =
     (case pemDecode C rest of
        None \<Rightarrow> Some st
      | Some x \<Rightarrow> keepValid C now (snd x) (keep_block C now (fst x) st))"

definition mergeCABundle :: "pem_lib \<Rightarrow> int \<Rightarrow> string \<Rightarrow> string \<Rightarrow> string option" where
  "mergeCABundle C now existing newCAPEM =
     (case keepValid C now existing ([], {}) of
        None \<Rightarrow> None
      | Some st1 \<Rightarrow>
          (case keepValid C now newCAPEM st1 of
             None \<Rightarrow> None
           | Some st2 \<Rightarrow>
               (let entries = sortSlice C newer (fst st2);
                    kept = (if length entries > maxRetainedCAs then take maxRetainedCAs entries else entries)
                in Some (concat (map (\<lambda>e. pemEncode C (enBlock e)) kept)))))"

section \<open>Names and expiry\<close>

definition webhookServiceDNSNames :: "string \<Rightarrow> string \<Rightarrow> string list" where
  "webhookServiceDNSNames serviceName namespace =
     [serviceName, serviceName @ ''.'' @ namespace, serviceName @ ''.'' @ namespace @ ''.svc'',
      serviceName @ ''.'' @ namespace @ ''.svc.cluster.local'']"

text \<open>The checker returns an error (here: true) or nothing.\<close>

definition webhookCertExpiryCheck :: "int \<Rightarrow> int \<Rightarrow> bool" where
  "webhookCertExpiryCheck leafNotAfter now \<longleftrightarrow> \<not> (now + webhookCertExpiryReadinessMargin < leafNotAfter)"

section \<open>Patching a webhook configuration\<close>

record webhook_config =
  whVersion :: string
  whBundles :: "string list"

datatype patch_error =
    GetFailed string string api_error
  | PatchFailed string string api_error
  | MergeStuck

text \<open>\<open>ccNow w i\<close> is the clock reading of the merge of entry \<open>i\<close>.\<close>

record 'w config_client =
  ccGet :: "string \<Rightarrow> string \<Rightarrow> 'w \<Rightarrow> (api_error + webhook_config) \<times> 'w"
  ccUpdate :: "string \<Rightarrow> string \<Rightarrow> webhook_config \<Rightarrow> 'w \<Rightarrow> api_error option \<times> 'w"
  ccNow :: "'w \<Rightarrow> nat \<Rightarrow> int"

definition retryableGetError :: "api_error \<Rightarrow> string \<Rightarrow> string \<Rightarrow> patch_error + bool" where
  "retryableGetError err kind n = (if IsNotFound err then Inr False else Inl (GetFailed kind n err))"

fun merge_all :: "pem_lib \<Rightarrow> (nat \<Rightarrow> int) \<Rightarrow> string \<Rightarrow> nat \<Rightarrow> string list \<Rightarrow> string list option" where
  "merge_all C now caPEM i [] = Some []"
| "merge_all C now caPEM i (b # bs) =
     (case mergeCABundle C (now i) b caPEM of
        None \<Rightarrow> None
      | Some m \<Rightarrow> map_option (Cons m) (merge_all C now caPEM (Suc i) bs))"

text \<open>
  One attempt, the condition of the backoff loop: whether it is done, or a fatal error. The two
  kinds of configuration differ only in their Go type, which is the argument \<open>kind\<close>.
  \<open>MergeStuck\<close> stands for an attempt that hangs in a merge.
\<close>

definition patch_attempt :: "pem_lib \<Rightarrow> 'w config_client \<Rightarrow> string \<Rightarrow> string \<Rightarrow> string \<Rightarrow> 'w
    \<Rightarrow> (patch_error + bool) \<times> 'w" where
  "patch_attempt C k kind n caPEM w =
     (case ccGet k kind n w of
        (Inl err, w1) \<Rightarrow> (retryableGetError err kind n, w1)
      | (Inr obj, w1) \<Rightarrow>
          (case merge_all C (ccNow k w1) caPEM 0 (whBundles obj) of
             None \<Rightarrow> (Inl MergeStuck, w1)
           | Some bundles \<Rightarrow>
               (case ccUpdate k kind n (obj\<lparr>whBundles := bundles\<rparr>) w1 of
                  (Some updateErr, w2) \<Rightarrow>
                    (if IsConflict updateErr then (Inr False, w2) else (Inl (PatchFailed kind n updateErr), w2))
                | (None, w2) \<Rightarrow> (Inr True, w2))))"

text \<open>
  \<^verbatim>\<open>wait.ExponentialBackoffWithContext\<close>: the condition is tried again after a pause as
  long as it says neither yes nor error, at most the given number of times (fewer when the pause
  reaches its cap), and the context can end the loop before any attempt.
\<close>

datatype 'e loop_end = LoopDone | LoopFailed 'e | LoopTimeout | LoopCancelled

inductive backed_off :: "('w \<Rightarrow> ('e + bool) \<times> 'w) \<Rightarrow> ('w \<Rightarrow> 'w) \<Rightarrow> nat \<Rightarrow> 'w \<Rightarrow> 'e loop_end \<times> 'w \<Rightarrow> bool"
  for cond pause where
  cancelled: "backed_off cond pause n w (LoopCancelled, w)"
| finished: "cond w = (Inr True, w') \<Longrightarrow> backed_off cond pause (Suc n) w (LoopDone, w')"
| failed: "cond w = (Inl e, w') \<Longrightarrow> backed_off cond pause (Suc n) w (LoopFailed e, w')"
| exhausted: "cond w = (Inr False, w') \<Longrightarrow> backed_off cond pause (Suc n) w (LoopTimeout, w')"
| again: "cond w = (Inr False, w') \<Longrightarrow> backed_off cond pause n (pause w') res \<Longrightarrow> backed_off cond pause (Suc n) w res"

type_synonym 'w backoff = "nat \<Rightarrow> ('w \<Rightarrow> (patch_error + bool) \<times> 'w) \<Rightarrow> 'w \<Rightarrow> patch_error loop_end \<times> 'w"

locale backoff_loop =
  fixes B :: "'w backoff" and pause :: "'w \<Rightarrow> 'w"
  assumes runs: "backed_off cond pause n w (B n cond w)"

definition patchOneWebhookCABundle :: "'w backoff \<Rightarrow> nat \<Rightarrow> pem_lib \<Rightarrow> 'w config_client \<Rightarrow> string \<Rightarrow> string \<Rightarrow> string
    \<Rightarrow> 'w \<Rightarrow> patch_error loop_end \<times> 'w" where
  "patchOneWebhookCABundle B steps C k kind n caPEM w = B steps (patch_attempt C k kind n caPEM) w"

datatype bundles_end = BuildingClientFailed string | BundlesEnd "patch_error loop_end"

text \<open>The client is built from the configuration, or that fails. The backoff has ten steps.\<close>

definition patchWebhookCABundles :: "'w backoff \<Rightarrow> pem_lib \<Rightarrow> (string + 'w config_client) \<Rightarrow> string \<Rightarrow> string \<Rightarrow> string
    \<Rightarrow> 'w \<Rightarrow> bundles_end \<times> 'w" where
  "patchWebhookCABundles B C built mutatingName validatingName caPEM w =
     (case built of
        Inl e \<Rightarrow> (BuildingClientFailed e, w)
      | Inr k \<Rightarrow>
          (case patchOneWebhookCABundle B 10 C k ''MutatingWebhookConfiguration'' mutatingName caPEM w of
             (res, w1) \<Rightarrow>
               if res \<noteq> LoopDone then (BundlesEnd res, w1)
               else (case patchOneWebhookCABundle B 10 C k ''ValidatingWebhookConfiguration'' validatingName caPEM w1 of
                   (res2, w2) \<Rightarrow> (BundlesEnd res2, w2))))"

section \<open>What is in a bundle\<close>

text \<open>The blocks of a text; the length of the text is fuel enough.\<close>

fun decode_all :: "pem_lib \<Rightarrow> nat \<Rightarrow> string \<Rightarrow> pem_block list" where
  "decode_all C 0 s = []"
| "decode_all C (Suc n) s = (case pemDecode C s of None \<Rightarrow> [] | Some (b, r) \<Rightarrow> b # decode_all C n r)"

definition blocks :: "pem_lib \<Rightarrow> string \<Rightarrow> pem_block list" where
  "blocks C s = decode_all C (length s) s"

definition issued :: "pem_lib \<Rightarrow> pem_block \<Rightarrow> int" where
  "issued C b = (case parseCertificate C (pbBytes b) of Some c \<Rightarrow> ctNotBefore c | None \<Rightarrow> 0)"

definition live_ca :: "pem_lib \<Rightarrow> int \<Rightarrow> pem_block \<Rightarrow> bool" where
  "live_ca C now b \<longleftrightarrow> pbType b = ''CERTIFICATE'' \<and>
     (case parseCertificate C (pbBytes b) of Some c \<Rightarrow> now < ctNotAfter c | None \<Rightarrow> False)"

text \<open>What \<open>keepValid\<close> has collected after the blocks \<open>bs\<close>.\<close>

definition collected :: "pem_lib \<Rightarrow> int \<Rightarrow> pem_block list \<Rightarrow> keep_state \<Rightarrow> bool" where
  "collected C now bs st \<longleftrightarrow>
     snd st = pbBytes ` {b \<in> set bs. live_ca C now b} \<and>
     (\<forall>e \<in> set (fst st). enBlock e \<in> set bs \<and> live_ca C now (enBlock e) \<and>
        parseCertificate C (pbBytes (enBlock e)) = Some (enCert e)) \<and>
     distinct (map (pbBytes \<circ> enBlock) (fst st)) \<and> set (map (pbBytes \<circ> enBlock) (fst st)) = snd st"

lemma collected_start: "collected C now [] ([], {})"
  by (simp add: collected_def)

lemma collected_step:
  assumes "collected C now bs st"
  shows "collected C now (bs @ [b]) (keep_block C now b st)"
proof (cases "live_ca C now b \<and> pbBytes b \<notin> snd st")
  case True
  then obtain c where c: "parseCertificate C (pbBytes b) = Some c" "pbType b = ''CERTIFICATE''" "now < ctNotAfter c"
    by (auto simp: live_ca_def split: option.splits)
  then have k: "keep_block C now b st = (fst st @ [\<lparr>enBlock = b, enCert = c\<rparr>], insert (pbBytes b) (snd st))"
    using True by (simp add: keep_block_def)
  show ?thesis using assms True c unfolding k collected_def by auto
next
  case False
  then have k: "keep_block C now b st = st"
    by (auto simp: keep_block_def live_ca_def split: option.splits)
  show ?thesis using assms False unfolding k collected_def by auto
qed

lemma collected_fold:
  "collected C now bs st \<Longrightarrow> collected C now (bs @ cs) (fold (keep_block C now) cs st)"
proof (induction cs arbitrary: bs st)
  case (Cons c cs)
  then show ?case using Cons.IH [OF collected_step [OF Cons.prems, of c]] by simp
qed simp

lemma decode_all_decoded: "b \<in> set (decode_all C n s) \<Longrightarrow> \<exists>t r. pemDecode C t = Some (b, r)"
proof (induction n arbitrary: s)
  case (Suc n)
  then show ?case by (cases "pemDecode C s") auto
qed simp

lemma decode_all_None: "pemDecode C s = None \<Longrightarrow> decode_all C n s = []"
  by (cases n) simp_all

context pem_library begin

lemma decode_empty: "pemDecode C [] = None"
  using decode_shorter [of "[]"] by (cases "pemDecode C []") auto

lemma decode_all_enough: "length s \<le> n \<Longrightarrow> decode_all C n s = decode_all C (length s) s"
proof (induction "length s" arbitrary: s n rule: less_induct)
  case less
  show ?case
  proof (cases "pemDecode C s")
    case None
    then show ?thesis by (simp only: decode_all_None)
  next
    case (Some x)
    obtain b r where x: "x = (b, r)" by (cases x)
    then have l: "length r < length s" using Some decode_shorter by simp
    have m: "n = Suc (n - 1)" "length s = Suc (length s - 1)" using l less.prems by simp_all
    have "length r \<le> n - 1" "length r \<le> length s - 1" using l less.prems by simp_all
    from less.hyps [OF l this(1)] less.hyps [OF l this(2)] have "decode_all C (n - 1) r = decode_all C (length s - 1) r"
      by (rule trans [OF _ sym])
    then have "decode_all C (Suc (n - 1)) s = decode_all C (Suc (length s - 1)) s" using Some x by simp
    then show ?thesis unfolding m(1) [symmetric] m(2) [symmetric] .
  qed
qed

lemma blocks_unfold:
  "blocks C s = (case pemDecode C s of None \<Rightarrow> [] | Some (b, r) \<Rightarrow> b # blocks C r)"
proof (cases "pemDecode C s")
  case None
  then show ?thesis by (simp add: blocks_def decode_all_None)
next
  case (Some x)
  obtain b r where x: "x = (b, r)" by (cases x)
  then have l: "length r < length s" using Some decode_shorter by simp
  then obtain k where k: "length s = Suc k" "length r \<le> k" by (cases "length s") auto
  then show ?thesis using Some x decode_all_enough [of r k] by (simp add: blocks_def)
qed

lemma keepValid_blocks: "keepValid C now s st = Some (fold (keep_block C now) (blocks C s) st)"
proof (induction "length s" arbitrary: s st rule: less_induct)
  case less
  show ?case
  proof (cases "pemDecode C s")
    case None
    then show ?thesis by (subst keepValid.simps, subst blocks_unfold) simp
  next
    case (Some x)
    obtain b r where x: "x = (b, r)" by (cases x)
    then have "length r < length s" using Some decode_shorter by simp
    from less.hyps [OF this] show ?thesis
      using Some x by (subst keepValid.simps, subst blocks_unfold) simp
  qed
qed

lemma blocks_encoded:
  "(\<And>b. b \<in> set bs \<Longrightarrow> \<exists>t r. pemDecode C t = Some (b, r)) \<Longrightarrow> blocks C (concat (map (pemEncode C) bs)) = bs"
proof (induction bs)
  case Nil
  then show ?case using blocks_unfold [of "[]"] by (simp add: decode_empty)
next
  case (Cons b bs)
  obtain t r where "pemDecode C t = Some (b, r)" using Cons.prems [of b] by auto
  from decode_encode [OF this] show ?case using Cons
    by (subst blocks_unfold) simp
qed

text \<open>The entries that were collected, sorted and cut.\<close>

lemma merge_entries:
  obtains kept dropped where
    "mergeCABundle C now old new = Some (concat (map (pemEncode C \<circ> enBlock) kept))"
    "collected C now (blocks C old @ blocks C new) (kept @ dropped, pbBytes ` {b \<in> set (blocks C old @ blocks C new). live_ca C now b})"
    "length kept \<le> 3" "dropped \<noteq> [] \<Longrightarrow> length kept = 3"
    "\<And>x y. x \<in> set kept \<Longrightarrow> y \<in> set dropped \<Longrightarrow> ctNotBefore (enCert y) \<le> ctNotBefore (enCert x)"
proof -
  let ?st = "fold (keep_block C now) (blocks C old @ blocks C new) ([], {})"
  let ?es = "sortSlice C newer (fst ?st)"
  let ?kept = "take 3 ?es" and ?dropped = "drop 3 ?es"
  have c: "collected C now (blocks C old @ blocks C new) ?st"
    using collected_fold [OF collected_start [of C now], of "blocks C old @ blocks C new"] by simp
  have m: "set ?es = set (fst ?st)" using slice_mset [of "fst ?st"] by (rule mset_eq_setD)
  have "mset (map (pbBytes \<circ> enBlock) ?es) = mset (map (pbBytes \<circ> enBlock) (fst ?st))"
    unfolding mset_map slice_mset ..
  from mset_eq_imp_distinct_iff [OF this] have d: "distinct (map (pbBytes \<circ> enBlock) ?es)"
    using c unfolding collected_def by blast
  have "collected C now (blocks C old @ blocks C new) (?es, snd ?st)"
    using c m d unfolding collected_def by simp
  moreover have "snd ?st = pbBytes ` {b \<in> set (blocks C old @ blocks C new). live_ca C now b}"
    using c unfolding collected_def by blast
  ultimately have e: "collected C now (blocks C old @ blocks C new)
      (?kept @ ?dropped, pbBytes ` {b \<in> set (blocks C old @ blocks C new). live_ca C now b})" by simp
  have r: "mergeCABundle C now old new = Some (concat (map (pemEncode C \<circ> enBlock) ?kept))"
    by (simp add: mergeCABundle_def keepValid_blocks maxRetainedCAs_def Let_def comp_def)
  have s: "ctNotBefore (enCert y) \<le> ctNotBefore (enCert x)" if "x \<in> set ?kept" "y \<in> set ?dropped" for x y
  proof -
    have "sorted_wrt (\<lambda>x y. \<not> newer y x) (?kept @ ?dropped)" using slice_sorted [of  "fst ?st"] by simp
    then show ?thesis using that unfolding sorted_wrt_append newer_def by fastforce
  qed
  show thesis by (rule that [OF r e]) (use s in auto)
qed

end

section \<open>An instance of the libraries\<close>

text \<open>
  A block is its type and bytes with every character escaped, a certificate is its two dates,
  and slices are sorted by issue date.
\<close>

definition write_text :: "string \<Rightarrow> string" where
  "write_text t = concat (map (\<lambda>c. [CHR ''.'', c]) t) @ '';''"

fun read_text :: "string \<Rightarrow> (string \<times> string) option" where
  "read_text (a # s) =
     (if a = CHR '';'' then Some ([], s)
      else (case s of [] \<Rightarrow> None | c # r \<Rightarrow> map_option (\<lambda>(t, u). (c # t, u)) (read_text r)))"
| "read_text [] = None"

lemma read_write: "read_text (write_text t @ s) = Some (t, s)"
  by (induction t) (simp_all add: write_text_def)

lemma read_shorter: "read_text s = Some (t, r) \<Longrightarrow> length r < length s"
proof (induction s arbitrary: t rule: read_text.induct)
  case (1 a s)
  then show ?case by (cases s) (fastforce split: if_splits)+
qed simp

definition text_pem :: pem_lib where
  "text_pem =
     \<lparr>pemDecode = (\<lambda>s. case read_text s of None \<Rightarrow> None | Some (t, r) \<Rightarrow>
         (case read_text r of None \<Rightarrow> None | Some (b, u) \<Rightarrow> Some (\<lparr>pbType = t, pbHeaders = [], pbBytes = b\<rparr>, u))),
      pemEncode = (\<lambda>b. write_text (pbType b) @ write_text (pbBytes b)),
      parseCertificate = (\<lambda>b. case b of c # d # _ \<Rightarrow> Some \<lparr>ctNotBefore = of_char c, ctNotAfter = of_char d\<rparr> | _ \<Rightarrow> None),
      sortSlice = (\<lambda>less. sort_key (\<lambda>e. - ctNotBefore (enCert e)))\<rparr>"

interpretation pem: pem_library text_pem
proof
  fix s b r t
  assume "pemDecode text_pem s = Some (b, r)"
  then obtain x u where d: "read_text s = Some (x, u)" "read_text u = Some (pbBytes b, r)"
    "b = \<lparr>pbType = x, pbHeaders = [], pbBytes = pbBytes b\<rparr>"
    by (auto simp: text_pem_def split: option.splits)
  show "length r < length s" using read_shorter [OF d(1)] read_shorter [OF d(2)] by simp
  show "pemDecode text_pem (pemEncode text_pem b @ t) = Some (b, t)"
    by (subst (1 2) d(3)) (simp add: text_pem_def read_write)
next
  fix es
  show "mset (sortSlice text_pem newer es) = mset es" by (simp add: text_pem_def)
  have "sorted_wrt (\<lambda>x y. - ctNotBefore (enCert x) \<le> - ctNotBefore (enCert y)) (sort_key (\<lambda>e. - ctNotBefore (enCert e)) es)"
    using sorted_sort_key [of "\<lambda>e. - ctNotBefore (enCert e)" es] by (simp add: sorted_wrt_map)
  then show "sorted_wrt (\<lambda>x y. \<not> newer y x) (sortSlice text_pem newer es)"
    by (simp add: text_pem_def newer_def not_less)
qed

text \<open>A loop that pauses in no way and is never cancelled.\<close>

fun plain_loop :: "nat \<Rightarrow> ('w \<Rightarrow> (patch_error + bool) \<times> 'w) \<Rightarrow> 'w \<Rightarrow> patch_error loop_end \<times> 'w" where
  "plain_loop 0 cond w = (LoopCancelled, w)"
| "plain_loop (Suc n) cond w =
     (case cond w of
        (Inl e, w1) \<Rightarrow> (LoopFailed e, w1)
      | (Inr b, w1) \<Rightarrow> if b then (LoopDone, w1) else if n = 0 then (LoopTimeout, w1) else plain_loop n cond w1)"

lemma plain_loop_backed_off: "backed_off cond (\<lambda>w. w) n w (plain_loop n cond w)"
proof (induction n arbitrary: w)
  case 0
  show ?case by (simp add: backed_off.cancelled)
next
  case (Suc n)
  obtain r w1 where c: "cond w = (r, w1)" by fastforce
  consider e where "r = Inl e" | "r = Inr True" | "r = Inr False" "n = 0" | "r = Inr False" "n \<noteq> 0"
    by (cases r) auto
  then show ?case
    by cases (use c Suc in \<open>auto intro: backed_off.failed backed_off.finished backed_off.exhausted backed_off.again\<close>)
qed

interpretation plain: backoff_loop plain_loop "\<lambda>w. w"
  by unfold_locales (rule plain_loop_backed_off)

section \<open>Properties\<close>

lemma issued_entry: "parseCertificate C (pbBytes (enBlock e)) = Some (enCert e) \<Longrightarrow> ctNotBefore (enCert e) = issued C (enBlock e)"
  by (simp add: issued_def)

context pem_library begin

lemma merge_blocks:
  obtains kept where
    "mergeCABundle C now old new = Some (concat (map (pemEncode C) kept))"
    "blocks C (concat (map (pemEncode C) kept)) = kept"
    "length kept \<le> 3" "distinct (map pbBytes kept)"
    "\<And>b. b \<in> set kept \<Longrightarrow> b \<in> set (blocks C old @ blocks C new) \<and> live_ca C now b"
    "\<And>b. b \<in> set (blocks C old @ blocks C new) \<Longrightarrow> live_ca C now b \<Longrightarrow> pbBytes b \<notin> pbBytes ` set kept \<Longrightarrow>
       length kept = 3 \<and> (\<forall>k \<in> set kept. issued C b \<le> issued C k)"
proof -
  let ?offered = "blocks C old @ blocks C new"
  obtain kept dropped where m:
    "mergeCABundle C now old new = Some (concat (map (pemEncode C \<circ> enBlock) kept))"
    "collected C now ?offered (kept @ dropped, pbBytes ` {b \<in> set ?offered. live_ca C now b})"
    "length kept \<le> 3" "dropped \<noteq> [] \<Longrightarrow> length kept = 3"
    "\<And>x y. x \<in> set kept \<Longrightarrow> y \<in> set dropped \<Longrightarrow> ctNotBefore (enCert y) \<le> ctNotBefore (enCert x)"
    by (rule merge_entries [of now old new]) (rule that, assumption+)
  have e: "enBlock e \<in> set ?offered \<and> live_ca C now (enBlock e) \<and> ctNotBefore (enCert e) = issued C (enBlock e)"
    if "e \<in> set kept \<union> set dropped" for e
    using m(2) that by (auto simp: collected_def issued_entry)
  have bytes: "(pbBytes \<circ> enBlock) ` (set kept \<union> set dropped) = pbBytes ` {b \<in> set ?offered. live_ca C now b}"
    using m(2) by (simp add: collected_def image_Un)
  show thesis
  proof (rule that [of "map enBlock kept"])
    show "blocks C (concat (map (pemEncode C) (map enBlock kept))) = map enBlock kept"
    proof (rule blocks_encoded)
      fix b assume "b \<in> set (map enBlock kept)"
      then have "b \<in> set ?offered" using e by auto
      then show "\<exists>t r. pemDecode C t = Some (b, r)"
        using decode_all_decoded [of b C] by (auto simp: blocks_def)
    qed
  next
    fix b assume b: "b \<in> set ?offered" "live_ca C now b" "pbBytes b \<notin> pbBytes ` set (map enBlock kept)"
    then have "pbBytes b \<in> (pbBytes \<circ> enBlock) ` (set kept \<union> set dropped)" unfolding bytes by blast
    then obtain d where d: "d \<in> set dropped" "pbBytes (enBlock d) = pbBytes b" using b(3) by auto
    then have "issued C b = ctNotBefore (enCert d)" using e [of d] by (simp add: issued_def)
    then show "length (map enBlock kept) = 3 \<and> (\<forall>k \<in> set (map enBlock kept). issued C b \<le> issued C k)"
      using d m(4) m(5) [OF _ d(1)] e by (cases "dropped = []") auto
  qed (use m(1-3) e in \<open>auto simp: collected_def comp_def\<close>)
qed

end

text \<open>C12: Merging a CA into a bundle always returns, and leaves at most three certificates, all
  different, all unexpired and all from the old bundle or the new CA; whatever unexpired
  certificate of either is missing was crowded out by three that were issued no earlier.\<close>

theorem bundle_merged:
  assumes "pem_library C"
  shows "\<exists>merged. mergeCABundle C now old new = Some merged \<and>
    length (blocks C merged) \<le> 3 \<and> distinct (map pbBytes (blocks C merged)) \<and>
    (\<forall>b \<in> set (blocks C merged). b \<in> set (blocks C old) \<union> set (blocks C new) \<and> live_ca C now b) \<and>
    (\<forall>b \<in> set (blocks C old) \<union> set (blocks C new). live_ca C now b \<longrightarrow>
       pbBytes b \<in> pbBytes ` set (blocks C merged) \<or>
       length (blocks C merged) = 3 \<and> (\<forall>k \<in> set (blocks C merged). issued C b \<le> issued C k))"
proof -
  obtain kept where m: "mergeCABundle C now old new = Some (concat (map (pemEncode C) kept))"
    "blocks C (concat (map (pemEncode C) kept)) = kept" "length kept \<le> 3" "distinct (map pbBytes kept)"
    "\<And>b. b \<in> set kept \<Longrightarrow> b \<in> set (blocks C old @ blocks C new) \<and> live_ca C now b"
    "\<And>b. b \<in> set (blocks C old @ blocks C new) \<Longrightarrow> live_ca C now b \<Longrightarrow> pbBytes b \<notin> pbBytes ` set kept \<Longrightarrow>
       length kept = 3 \<and> (\<forall>k \<in> set kept. issued C b \<le> issued C k)"
    by (rule pem_library.merge_blocks [OF assms, of now old new]) (rule that, assumption+)
  show ?thesis using m(3-6) by (intro exI [of _ "concat (map (pemEncode C) kept)"] conjI m(1)) (auto simp: m(2))
qed

text \<open>Two certificates of a bundle, by issue date, as the instance writes them.\<close>

definition demo_ca :: "char \<Rightarrow> pem_block" where
  "demo_ca issue = \<lparr>pbType = ''CERTIFICATE'', pbHeaders = [], pbBytes = [issue, CHR ''z'']\<rparr>"

definition demo_bundle :: "string \<Rightarrow> string" where
  "demo_bundle issues = concat (map (\<lambda>c. pemEncode text_pem (demo_ca c)) issues)"

lemma demo_bundle_blocks: "blocks text_pem (demo_bundle cs) = map demo_ca cs"
proof -
  have "pemDecode text_pem (pemEncode text_pem (demo_ca c) @ t) = Some (demo_ca c, t)" for c t
    by (simp add: text_pem_def demo_ca_def read_write)
  then have "\<exists>t r. pemDecode text_pem t = Some (b, r)" if "b \<in> set (map demo_ca cs)" for b
    using that by auto
  then show ?thesis using pem.blocks_encoded [of "map demo_ca cs"]
    by (simp add: demo_bundle_def comp_def)
qed

theorem bundle_merged_witness:
  "\<exists>merged. mergeCABundle text_pem 100 (demo_bundle ''abcd'') (demo_bundle ''e'') = Some merged \<and>
     length (blocks text_pem merged) \<le> 3"
  using bundle_merged [OF pem.pem_library_axioms, of 100 "demo_bundle ''abcd''" "demo_bundle ''e''"] by blast

text \<open>C31: Whether a process trusts its own CA after merging it depends on the others: it is in the
  bundle when fewer than three other unexpired certificates there were issued no earlier, and it is
  dropped when at least three were issued later, as with clocks that differ between nodes or
  with four replicas starting together.\<close>

theorem own_ca_trusted:
  assumes "pem_library C" "blocks C new = [b]" "live_ca C now b" "mergeCABundle C now old new = Some merged"
  defines "others \<equiv> {c \<in> set (blocks C old). live_ca C now c \<and> pbBytes c \<noteq> pbBytes b}"
  shows "(card (pbBytes ` {c \<in> others. issued C b \<le> issued C c}) < 3 \<longrightarrow> pbBytes b \<in> pbBytes ` set (blocks C merged)) \<and>
    (3 \<le> card (pbBytes ` {c \<in> others. issued C b < issued C c}) \<longrightarrow> pbBytes b \<notin> pbBytes ` set (blocks C merged))"
proof -
  obtain kept where m: "mergeCABundle C now old new = Some (concat (map (pemEncode C) kept))"
    "blocks C (concat (map (pemEncode C) kept)) = kept" "length kept \<le> 3" "distinct (map pbBytes kept)"
    "\<And>b. b \<in> set kept \<Longrightarrow> b \<in> set (blocks C old @ blocks C new) \<and> live_ca C now b"
    "\<And>b. b \<in> set (blocks C old @ blocks C new) \<Longrightarrow> live_ca C now b \<Longrightarrow> pbBytes b \<notin> pbBytes ` set kept \<Longrightarrow>
       length kept = 3 \<and> (\<forall>k \<in> set kept. issued C b \<le> issued C k)"
    by (rule pem_library.merge_blocks [OF assms(1), of now old new]) (rule that, assumption+)
  have k: "blocks C merged = kept" using assms(4) m(1,2) by simp
  have c: "card (pbBytes ` set kept) = length kept" using distinct_card [OF m(4)] by simp
  have fin: "finite (pbBytes ` {c \<in> others. P c})" for P unfolding others_def by simp
  have 1: "pbBytes b \<in> pbBytes ` set kept" if "card (pbBytes ` {c \<in> others. issued C b \<le> issued C c}) < 3"
  proof (rule ccontr)
    assume n: "pbBytes b \<notin> pbBytes ` set kept"
    then have d: "length kept = 3" "\<forall>k \<in> set kept. issued C b \<le> issued C k" using m(6) [of b] assms(2,3) by auto
    have "pbBytes ` set kept \<subseteq> pbBytes ` {c \<in> others. issued C b \<le> issued C c}"
    proof (rule image_mono, rule subsetI)
      fix x assume x: "x \<in> set kept"
      then have "pbBytes x \<in> pbBytes ` set kept" by (rule imageI)
      then have "x \<noteq> b" "pbBytes x \<noteq> pbBytes b" using n by metis+
      then show "x \<in> {c \<in> others. issued C b \<le> issued C c}"
        using m(5) [OF x] d(2) x assms(2) unfolding others_def by simp
    qed
    from card_mono [OF fin this] show False using c d(1) that by simp
  qed
  have 2: "pbBytes b \<notin> pbBytes ` set kept" if "3 \<le> card (pbBytes ` {c \<in> others. issued C b < issued C c})"
  proof
    assume i: "pbBytes b \<in> pbBytes ` set kept"
    then obtain k where "k \<in> set kept" "pbBytes k = pbBytes b" by auto
    then have k: "k \<in> set kept" "issued C k = issued C b" by (simp_all add: issued_def)
    have l: "card (pbBytes ` set kept - {pbBytes b}) < 3" using i c m(3) by (simp add: card_Diff_singleton_if)
    have "\<not> pbBytes ` {c \<in> others. issued C b < issued C c} \<subseteq> pbBytes ` set kept - {pbBytes b}"
    proof
      assume "pbBytes ` {c \<in> others. issued C b < issued C c} \<subseteq> pbBytes ` set kept - {pbBytes b}"
      from card_mono [OF _ this] show False using l that by simp
    qed
    then obtain c where o: "c \<in> others" "issued C b < issued C c" "pbBytes c \<notin> pbBytes ` set kept - {pbBytes b}"
      by auto
    then have o3: "pbBytes c \<notin> pbBytes ` set kept" unfolding others_def by simp
    have "issued C c \<le> issued C k" using m(6) [OF _ _ o3] k(1) o(1) unfolding others_def by simp
    then show False using o(2) k(2) by simp
  qed
  show ?thesis unfolding k using 1 2 by blast
qed

lemma demo_live [simp]: "live_ca text_pem now (demo_ca c) \<longleftrightarrow> now < 122" "issued text_pem (demo_ca c) = of_char c"
  by (simp_all add: live_ca_def issued_def demo_ca_def text_pem_def)

lemma demo_bytes [simp]: "pbBytes (demo_ca c) = [c, CHR ''z'']"
  by (simp add: demo_ca_def)

theorem own_ca_trusted_witness:
  "\<exists>merged. mergeCABundle text_pem 100 (demo_bundle ''bcd'') (demo_bundle ''a'') = Some merged \<and>
     pbBytes (demo_ca CHR ''a'') \<notin> pbBytes ` set (blocks text_pem merged)"
proof -
  let ?old = "demo_bundle ''bcd''" and ?new = "demo_bundle ''a''" and ?b = "demo_ca CHR ''a''"
  obtain merged where m: "mergeCABundle text_pem 100 ?old ?new = Some merged"
    by (rule pem.merge_blocks [of 100 ?old ?new])
  have n: "blocks text_pem ?new = [?b]" by (simp add: demo_bundle_blocks)
  have "{c \<in> {c \<in> set (blocks text_pem ?old). live_ca text_pem 100 c \<and> pbBytes c \<noteq> pbBytes ?b}. issued text_pem ?b < issued text_pem c}
      = {demo_ca CHR ''b'', demo_ca CHR ''c'', demo_ca CHR ''d''}"
    by (auto simp: demo_bundle_blocks)
  then have "pbBytes ?b \<notin> pbBytes ` set (blocks text_pem merged)"
    using own_ca_trusted [OF pem.pem_library_axioms n _ m] by simp
  then show ?thesis using m by blast
qed

section \<open>Patching\<close>

text \<open>
  One configuration has been written with the CA merged into every bundle of the object that was
  read just before, everything else of which, its version included, is written back unchanged.
\<close>

definition wrote_bundles :: "pem_lib \<Rightarrow> 'w config_client \<Rightarrow> string \<Rightarrow> string \<Rightarrow> string \<Rightarrow> 'w \<Rightarrow> bool" where
  "wrote_bundles C k kind n caPEM w2 \<longleftrightarrow>
     (\<exists>w0 w1 obj bundles. ccGet k kind n w0 = (Inr obj, w1) \<and>
        length bundles = length (whBundles obj) \<and>
        (\<forall>i < length bundles. \<exists>now. mergeCABundle C now (whBundles obj ! i) caPEM = Some (bundles ! i)) \<and>
        ccUpdate k kind n (obj\<lparr>whBundles := bundles\<rparr>) w1 = (None, w2))"

lemma merge_all_spec:
  "merge_all C now ca i bs = Some ms \<Longrightarrow> length ms = length bs \<and>
     (\<forall>j < length ms. mergeCABundle C (now (i + j)) (bs ! j) ca = Some (ms ! j))"
proof (induction bs arbitrary: i ms)
  case (Cons b bs)
  then obtain m ms' where m: "mergeCABundle C (now i) b ca = Some m" "merge_all C now ca (Suc i) bs = Some ms'" "ms = m # ms'"
    by (auto split: option.splits)
  show ?case unfolding m(3)
  proof (intro conjI allI impI)
    fix j assume "j < length (m # ms')"
    then show "mergeCABundle C (now (i + j)) ((b # bs) ! j) ca = Some ((m # ms') ! j)"
      using m(1) Cons.IH [OF m(2)] by (cases j) auto
  qed (use Cons.IH [OF m(2)] in simp)
qed simp

lemma merge_all_returns: "pem_library C \<Longrightarrow> merge_all C now ca i bs \<noteq> None"
proof (induction bs arbitrary: i)
  case (Cons b bs)
  obtain m where "mergeCABundle C (now i) b ca = Some m"
    by (rule pem_library.merge_blocks [OF Cons.prems, of "now i" b ca])
  then show ?case using Cons.IH [OF Cons.prems, of "Suc i"] by auto
qed simp

lemma patch_attempt_done:
  assumes "patch_attempt C k kind n ca w = (Inr True, w')"
  shows "wrote_bundles C k kind n ca w'"
proof -
  obtain r w1 where g: "ccGet k kind n w = (r, w1)" by fastforce
  obtain obj where o: "r = Inr obj"
    using assms g by (cases r) (simp_all add: patch_attempt_def retryableGetError_def split: if_splits)
  obtain ms where m: "merge_all C (ccNow k w1) ca 0 (whBundles obj) = Some ms"
    using assms g o by (cases "merge_all C (ccNow k w1) ca 0 (whBundles obj)") (simp_all add: patch_attempt_def)
  obtain u w2 where u: "ccUpdate k kind n (obj\<lparr>whBundles := ms\<rparr>) w1 = (u, w2)" by fastforce
  have "u = None" "w2 = w'" using assms g o m u
    by (cases u; simp add: patch_attempt_def split: if_splits)+
  moreover have "\<exists>now. mergeCABundle C now (whBundles obj ! i) ca = Some (ms ! i)" if "i < length ms" for i
    using merge_all_spec [OF m] that by auto
  ultimately show ?thesis using g o u merge_all_spec [OF m] unfolding wrote_bundles_def by blast
qed

lemma patch_attempt_failed:
  assumes "pem_library C" "patch_attempt C k kind n ca w = (Inl e, w')"
  shows "(\<exists>err. e = GetFailed kind n err \<and> \<not> IsNotFound err) \<or> (\<exists>err. e = PatchFailed kind n err \<and> \<not> IsConflict err)"
proof -
  obtain r w1 where g: "ccGet k kind n w = (r, w1)" by fastforce
  show ?thesis
  proof (cases r)
    case (Inl err)
    then show ?thesis using assms g by (auto simp: patch_attempt_def retryableGetError_def split: if_splits)
  next
    case (Inr obj)
    obtain ms where m: "merge_all C (ccNow k w1) ca 0 (whBundles obj) = Some ms"
      using merge_all_returns [OF assms(1)] by blast
    obtain u w2 where u: "ccUpdate k kind n (obj\<lparr>whBundles := ms\<rparr>) w1 = (u, w2)" by fastforce
    show ?thesis using assms(2) g Inr m u by (cases u) (auto simp: patch_attempt_def split: if_splits)
  qed
qed

lemma backed_off_done: "backed_off cond pause n w res \<Longrightarrow> res = (LoopDone, w') \<Longrightarrow> \<exists>w0. cond w0 = (Inr True, w')"
  by (induction rule: backed_off.induct) auto

lemma backed_off_failed: "backed_off cond pause n w res \<Longrightarrow> res = (LoopFailed e, w') \<Longrightarrow> \<exists>w0. cond w0 = (Inl e, w')"
  by (induction rule: backed_off.induct) auto

text \<open>A client that counts its reads: one for every time the condition runs.\<close>

definition counting :: "'w config_client \<Rightarrow> (nat \<times> 'w) config_client" where
  "counting k =
     \<lparr>ccGet = (\<lambda>kind n (c, w). case ccGet k kind n w of (r, w1) \<Rightarrow> (r, Suc c, w1)),
      ccUpdate = (\<lambda>kind n obj (c, w). case ccUpdate k kind n obj w of (r, w1) \<Rightarrow> (r, c, w1)),
      ccNow = (\<lambda>(c, w). ccNow k w)\<rparr>"

lemma counting_attempt: "fst (snd (patch_attempt C (counting k) kind n ca cw)) = Suc (fst cw)"
  by (cases cw) (simp add: patch_attempt_def counting_def split: prod.splits sum.splits option.splits)

lemma backed_off_bounded:
  assumes "\<And>cw. fst (snd (cond cw)) = Suc (fst cw)" "\<And>cw. fst (pause cw) = fst cw"
  shows "backed_off cond pause n cw res \<Longrightarrow> fst (snd res) \<le> fst cw + n"
proof (induction rule: backed_off.induct)
  case (again w w' n res)
  then show ?case using assms(1) [of w] assms(2) [of w'] by simp
qed (use assms(1) in \<open>metis fst_conv snd_conv add_Suc_right le_add1 Suc_le_mono\<close>)+

text \<open>Patching one configuration: success means that the last thing done was a successful write of
  the object just read, with the CA merged into every bundle; a failure is the error of a read other
  than not-found or of a write other than a conflict, never one of those two, which are retried.\<close>

theorem patch_outcomes:
  assumes "pem_library C" "backoff_loop B pause"
    "patchOneWebhookCABundle B steps C k kind n ca w = (res, w')"
  shows "(res = LoopDone \<longrightarrow> wrote_bundles C k kind n ca w') \<and>
    (\<forall>e. res = LoopFailed e \<longrightarrow>
       (\<exists>err. e = GetFailed kind n err \<and> \<not> IsNotFound err) \<or> (\<exists>err. e = PatchFailed kind n err \<and> \<not> IsConflict err))"
proof -
  have r: "backed_off (patch_attempt C k kind n ca) pause steps w (res, w')"
    using backoff_loop.runs [OF assms(2), of "patch_attempt C k kind n ca" steps w] assms(3)
    by (simp add: patchOneWebhookCABundle_def)
  show ?thesis
  proof (intro conjI allI impI)
    assume "res = LoopDone"
    then obtain w0 where "patch_attempt C k kind n ca w0 = (Inr True, w')" using backed_off_done [OF r] by blast
    then show "wrote_bundles C k kind n ca w'" by (rule patch_attempt_done)
  next
    fix e assume "res = LoopFailed e"
    then obtain w0 where "patch_attempt C k kind n ca w0 = (Inl e, w')" using backed_off_failed [OF r] by blast
    then show "(\<exists>err. e = GetFailed kind n err \<and> \<not> IsNotFound err) \<or> (\<exists>err. e = PatchFailed kind n err \<and> \<not> IsConflict err)"
      by (rule patch_attempt_failed [OF assms(1)])
  qed
qed

text \<open>A world with one configuration per kind, which a first write loses a race for.\<close>

definition racy_client :: "(nat \<times> string list) config_client" where
  "racy_client =
     \<lparr>ccGet = (\<lambda>kind n (v, bs). (Inr \<lparr>whVersion = [], whBundles = bs\<rparr>, (v, bs))),
      ccUpdate = (\<lambda>kind n obj (v, bs). if v = 0 then (Some (Conflict ''modified''), (1, bs)) else (None, (v, whBundles obj))),
      ccNow = (\<lambda>w i. 100)\<rparr>"

theorem patch_outcomes_witness:
  "\<exists>res w'. patchOneWebhookCABundle plain_loop 10 text_pem racy_client ''MutatingWebhookConfiguration'' ''m'' (demo_bundle ''e'') (1, [])
     = (res, w') \<and> (res = LoopDone \<and> wrote_bundles text_pem racy_client ''MutatingWebhookConfiguration'' ''m'' (demo_bundle ''e'') w')"
proof -
  obtain res w' where r: "patchOneWebhookCABundle plain_loop 10 text_pem racy_client ''MutatingWebhookConfiguration'' ''m''
      (demo_bundle ''e'') (1, []) = (res, w')" by (meson surj_pair)
  have "res = LoopDone" using r
    by (simp add: patchOneWebhookCABundle_def patch_attempt_def racy_client_def eval_nat_numeral)
  then show ?thesis using patch_outcomes [OF pem.pem_library_axioms plain.backoff_loop_axioms r] r by blast
qed

text \<open>However the API server answers, patching the two configurations takes at most twenty
  attempts in all, so the bootstrap never hangs in it.\<close>

theorem patch_bounded:
  assumes "backoff_loop B pause" "\<And>cw. fst (pause cw) = fst cw"
    "patchWebhookCABundles B C (Inr (counting k)) mutatingName validatingName ca (0, w) = (res, reads, w')"
  shows "reads \<le> 20"
proof -
  have one: "fst w2 \<le> fst w1 + 10"
    if "patchOneWebhookCABundle B 10 C (counting k) kind n ca w1 = (r, w2)" for kind n w1 r w2
    using backed_off_bounded [of "patch_attempt C (counting k) kind n ca" pause 10 w1 "(r, w2)",
        OF counting_attempt assms(2)] backoff_loop.runs [OF assms(1), of "patch_attempt C (counting k) kind n ca" 10 w1] that
    by (simp add: patchOneWebhookCABundle_def)
  obtain r1 c1 w1 where 1: "patchOneWebhookCABundle B 10 C (counting k) ''MutatingWebhookConfiguration'' mutatingName ca (0, w)
      = (r1, c1, w1)" by (metis prod.exhaust)
  obtain r2 c2 w2 where 2: "patchOneWebhookCABundle B 10 C (counting k) ''ValidatingWebhookConfiguration'' validatingName ca (c1, w1)
      = (r2, c2, w2)" by (metis prod.exhaust)
  have "reads = c1 \<or> reads = c2" using assms(3) 1 2 by (auto simp: patchWebhookCABundles_def split: if_splits)
  then show ?thesis using one [OF 1] one [OF 2] by auto
qed

theorem patch_bounded_witness:
  "\<exists>res reads w'. patchWebhookCABundles plain_loop text_pem (Inr (counting racy_client)) ''m'' ''v'' [] (0, (0, [])) = (res, reads, w') \<and> reads \<le> 20"
proof -
  obtain res reads w' where r: "patchWebhookCABundles plain_loop text_pem (Inr (counting racy_client)) ''m'' ''v'' [] (0, (0, [])) = (res, reads, w')"
    by (metis prod.exhaust)
  show ?thesis using patch_bounded [OF plain.backoff_loop_axioms _ r] r by blast
qed

text \<open>Both configurations are patched, the mutating one first, when the whole bootstrap step succeeds.\<close>

lemma patch_both:
  assumes "pem_library C" "backoff_loop B pause"
    "patchWebhookCABundles B C built mutatingName validatingName ca w = (BundlesEnd LoopDone, w2)"
  shows "\<exists>k w1. built = Inr k \<and> wrote_bundles C k ''MutatingWebhookConfiguration'' mutatingName ca w1 \<and>
    wrote_bundles C k ''ValidatingWebhookConfiguration'' validatingName ca w2"
proof -
  obtain k where k: "built = Inr k" using assms(3) by (cases built) (auto simp: patchWebhookCABundles_def)
  obtain r1 w1 where 1: "patchOneWebhookCABundle B 10 C k ''MutatingWebhookConfiguration'' mutatingName ca w = (r1, w1)" by fastforce
  obtain r2 w2' where 2: "patchOneWebhookCABundle B 10 C k ''ValidatingWebhookConfiguration'' validatingName ca w1 = (r2, w2')" by fastforce
  have e: "r1 = LoopDone" "r2 = LoopDone" "w2' = w2"
    using assms(3) k 1 2 by (auto simp: patchWebhookCABundles_def split: if_splits)
  have wrote: "wrote_bundles C k kind n ca w'" if "patchOneWebhookCABundle B 10 C k kind n ca w0 = (LoopDone, w')" for kind n w0 w'
  proof -
    have "backed_off (patch_attempt C k kind n ca) pause 10 w0 (LoopDone, w')"
      using backoff_loop.runs [OF assms(2), of "patch_attempt C k kind n ca" 10 w0] that
      by (simp add: patchOneWebhookCABundle_def)
    from backed_off_done [OF this refl] obtain w1 where "patch_attempt C k kind n ca w1 = (Inr True, w')" ..
    then show ?thesis by (rule patch_attempt_done)
  qed
  show ?thesis using k wrote [OF 1 [unfolded e]] wrote [OF 2 [unfolded e]] by blast
qed

end
