(* ===== verification/Replicas.thy ===== *)
theory Replicas
  imports WebhookCerts
begin

text \<open>
  Several replicas of the operator patch the same webhook configuration at once
  (\<^verbatim>\<open>patchOneWebhookCABundle\<close> of webhookcerts.go). An attempt reads the configuration and
  writes it back later; between the two the others may read and write. What protects their CAs is the
  resource version that the write carries and the API server compares: the locale \<open>versioned_store\<close>.
\<close>

section \<open>The store\<close>



section \<open>The replicas\<close>







section \<open>At most three certificates\<close>



section \<open>No update is lost\<close>








section \<open>Properties\<close>







end
