(* ===== verification/ChaosLoop.thy ===== *)
theory ChaosLoop
  imports ChaosKube Telemetry GoParse
begin

text \<open>
  \<^verbatim>\<open>cmd/chaos-buddy/main.go\<close>: the configuration, the metrics and the poll loop of
  the chaos injector. What \<^verbatim>\<open>labels.Parse\<close> says of a selector, the client and the
  registry are parameters.
\<close>

section \<open>The --dry-run flag\<close>

datatype flag_error =
    BadFlagSyntax string
  | FlagNotDefined string
  | HelpRequested
  | InvalidFlagValue string

datatype config_error =
    EngineError engine_error
  | InvalidLabelSelector string string
  | TargetNamespaceRequired
  | IntervalNotPositive duration
  | InvalidBool string string
  | InvalidDuration string string
  | InvalidLogLevel string
  | ParseFlags flag_error

definition getEnv :: "environ \<Rightarrow> string \<Rightarrow> string \<Rightarrow> string" where
  "getEnv env key def = (case env key of Some v \<Rightarrow> if v \<noteq> [] then v else def | None \<Rightarrow> def)"

definition parseBoolEnv :: "environ \<Rightarrow> string \<Rightarrow> bool \<Rightarrow> config_error + bool" where
  "parseBoolEnv env key def =
     (case env key of
        None \<Rightarrow> Inr def
      | Some v \<Rightarrow> if v = [] then Inr def
          else (case parse_bool v of None \<Rightarrow> Inl (InvalidBool key v) | Some b \<Rightarrow> Inr b))"

definition parseDurationEnv :: "environ \<Rightarrow> string \<Rightarrow> duration \<Rightarrow> config_error + duration" where
  "parseDurationEnv env key def =
     (case env key of
        None \<Rightarrow> Inr def
      | Some v \<Rightarrow> if v = [] then Inr def
          else (case ParseDuration v of None \<Rightarrow> Inl (InvalidDuration key v) | Some d \<Rightarrow> Inr d))"

text \<open>
  \<^verbatim>\<open>FlagSet.Parse\<close> with the one boolean flag \<^verbatim>\<open>dry-run\<close>: parsing stops
  at the first argument that is no flag and after a double minus; a boolean flag without a value
  is true.
\<close>

fun parseFlags :: "bool \<Rightarrow> string list \<Rightarrow> flag_error + bool" where
  "parseFlags v [] = Inr v"
| "parseFlags v (s # args) =
     (if length s < 2 \<or> hd s \<noteq> CHR ''-'' then Inr v
      else if s = ''--'' then Inr v
      else (let n = (if s ! 1 = CHR ''-'' then drop 2 s else drop 1 s) in
        if n = [] \<or> hd n = CHR ''-'' \<or> hd n = CHR ''='' then Inl (BadFlagSyntax s)
        else (let flag = hd n # takeWhile (\<lambda>c. c \<noteq> CHR ''='') (tl n);
                  rest = dropWhile (\<lambda>c. c \<noteq> CHR ''='') (tl n)
          in if flag \<noteq> ''dry-run''
             then Inl (if flag = ''help'' \<or> flag = ''h'' then HelpRequested else FlagNotDefined flag)
             else if rest = [] then parseFlags True args
             else (case parse_bool (tl rest) of
                 None \<Rightarrow> Inl (InvalidFlagValue (tl rest))
               | Some b \<Rightarrow> parseFlags b args))))"

definition parseDryRunFlag :: "environ \<Rightarrow> string list \<Rightarrow> config_error + bool" where
  "parseDryRunFlag env args =
     (case parseBoolEnv env ''CHAOS_DRY_RUN'' True of
        Inl e \<Rightarrow> Inl e
      | Inr defaultDryRun \<Rightarrow>
          (case parseFlags defaultDryRun args of Inl e \<Rightarrow> Inl (ParseFlags e) | Inr b \<Rightarrow> Inr b))"

section \<open>The configuration\<close>

record config =
  cfgTargetNamespace :: string
  cfgLabelSelector :: string
  cfgMode :: mode
  cfgInterval :: duration
  cfgDryRun :: bool
  cfgConfigMapName :: string
  cfgLogLevel :: string

text \<open>\<open>labelsParse\<close> returns the text of the error for a selector that does not parse.\<close>

definition loadConfig :: "(string \<Rightarrow> string option) \<Rightarrow> environ \<Rightarrow> bool \<Rightarrow> config_error + config" where
  "loadConfig labelsParse env dryRun =
     (case env ''CHAOS_TARGET_NAMESPACE'' of
        None \<Rightarrow> Inl TargetNamespaceRequired
      | Some targetNamespace \<Rightarrow>
     if trim_space targetNamespace = [] then Inl TargetNamespaceRequired
     else (let labelSelector = getEnv env ''CHAOS_LABEL_SELECTOR'' [] in
     case ValidateLabelSelector labelSelector of
        Some e \<Rightarrow> Inl (EngineError e)
      | None \<Rightarrow>
     (case labelsParse labelSelector of
        Some e \<Rightarrow> Inl (InvalidLabelSelector labelSelector e)
      | None \<Rightarrow>
     (case ParseMode (getEnv env ''CHAOS_MODE'' ModePodKill) of
        Inl e \<Rightarrow> Inl (EngineError e)
      | Inr mode \<Rightarrow>
     (case parseDurationEnv env ''CHAOS_INTERVAL'' (30 * second) of
        Inl e \<Rightarrow> Inl e
      | Inr interval \<Rightarrow>
     if sle interval 0 then Inl (IntervalNotPositive interval)
     else Inr
       \<lparr>cfgTargetNamespace = targetNamespace, cfgLabelSelector = labelSelector, cfgMode = mode,
        cfgInterval = interval, cfgDryRun = dryRun,
        cfgConfigMapName = getEnv env ''CHAOS_CONFIGMAP_NAME'' ''chaos-buddy-switch'',
        cfgLogLevel = getEnv env ''CHAOS_LOG_LEVEL'' ''info''\<rparr>)))))"

definition parseLogLevel :: "string \<Rightarrow> config_error + log_level" where
  "parseLogLevel s =
     (let l = to_lower s in
      if l = ''debug'' then Inr LevelDebug
      else if l = ''info'' then Inr LevelInfo
      else if l = ''warn'' \<or> l = ''warning'' then Inr LevelWarn
      else if l = ''error'' then Inr LevelError
      else Inl (InvalidLogLevel s))"

section \<open>The metrics\<close>

abbreviation chaos_actions_metric :: string where "chaos_actions_metric \<equiv> ''buddy_chaos_actions_total''"
abbreviation chaos_last_action_metric :: string where
  "chaos_last_action_metric \<equiv> ''buddy_chaos_last_action_timestamp_seconds''"
abbreviation chaos_enabled_metric :: string where "chaos_enabled_metric \<equiv> ''buddy_chaos_enabled''"

definition newChaosMetrics :: "'m prom \<Rightarrow> 'm \<Rightarrow> 'm" where
  "newChaosMetrics P reg =
     (let outcomes = [ChaosKube.OutcomeSuccess, ChaosKube.OutcomeFailure, OutcomeDryRun] in
      fold (\<lambda>mode m. touch P chaos_last_action_metric [mode]
             (fold (\<lambda>outcome. touch P chaos_actions_metric [mode, outcome]) outcomes m))
        SupportedModes (touch P chaos_enabled_metric [] reg))"

text \<open>\<open>now\<close> is the Unix time.\<close>

definition recordAction :: "'m prom \<Rightarrow> int \<Rightarrow> string \<Rightarrow> string \<Rightarrow> 'm \<Rightarrow> 'm" where
  "recordAction P now mode outcome m =
     (if outcome = [] then m
      else gauge_set P chaos_last_action_metric [mode] (f64_of_int now)
             (counter_inc P chaos_actions_metric [mode, outcome] m))"

definition setEnabled :: "'m prom \<Rightarrow> bool \<Rightarrow> 'm \<Rightarrow> 'm" where
  "setEnabled P permits m = gauge_set P chaos_enabled_metric [] (if permits then Fin 1 else Fin 0) m"

section \<open>The poll loop\<close>

datatype chaos_log =
    SwitchUnreadableLog kube_error string string
  | ListPodsFailedLog kube_error string string
  | NoActionLog "kube_error reason" nat
  | ActionFailedLog mode pod_ref string bool kube_error
  | ActionCompletedLog mode pod_ref string bool

record ('m, 'r, 'w) chaos_state =
  csMetrics :: 'm
  csRand :: 'r
  csWorld :: 'w
  csLog :: "chaos_log list"

record ('m, 'r, 'w) chaos_env =
  cePromClient :: "'m prom"
  ceClient :: "'w pod_client"
  ceIntn :: "nat \<Rightarrow> 'r \<Rightarrow> nat \<times> 'r"
  ceUnix :: "'w \<Rightarrow> int"
  ceErrText :: "kube_error \<Rightarrow> string"

definition add_log :: "chaos_log \<Rightarrow> ('m, 'r, 'w) chaos_state \<Rightarrow> ('m, 'r, 'w) chaos_state" where
  "add_log l st = st\<lparr>csLog := csLog st @ [l]\<rparr>"

text \<open>\<open>ReadSwitch\<close> returns false with its error.\<close>

definition runIteration :: "('m, 'r, 'w) chaos_env \<Rightarrow> config \<Rightarrow> ('m, 'r, 'w) chaos_state \<Rightarrow> ('m, 'r, 'w) chaos_state" where
  "runIteration E cfg st0 =
     (let ns = cfgTargetNamespace cfg; cm = cfgConfigMapName cfg; c = ceClient E;
          (reply, w1) = ReadSwitch c ns cm (csWorld st0);
          (enabled, switchErr) = (case reply of Inl e \<Rightarrow> (False, Some e) | Inr b \<Rightarrow> (b, None));
          permits = SwitchPermits enabled switchErr;
          st1 = st0\<lparr>csWorld := w1, csMetrics := setEnabled (cePromClient E) permits (csMetrics st0)\<rparr>;
          st2 = (case switchErr of None \<Rightarrow> st1 | Some e \<Rightarrow> add_log (SwitchUnreadableLog e cm ns) st1);
          (listed, w2) = ListPods c ns (cfgLabelSelector cfg) (csWorld st2);
          st3 = st2\<lparr>csWorld := w2\<rparr>
      in case listed of
           Inl e \<Rightarrow> add_log (ListPodsFailedLog e ns (cfgLabelSelector cfg)) st3
         | Inr pods \<Rightarrow>
             (let (decision, r) = Decide (ceIntn E) (cfgMode cfg) enabled switchErr ns pods (csRand st3);
                  st4 = st3\<lparr>csRand := r\<rparr>
              in if dcKind decision = ActionNone
                 then add_log (NoActionLog (dcReason decision) (length pods)) st4
                 else (let ((outcome, err), w3) = Execute (ceErrText E) c decision (cfgDryRun cfg) (csWorld st4);
                           st5 = st4\<lparr>csWorld := w3,
                             csMetrics := recordAction (cePromClient E) (ceUnix E w3) (cfgMode cfg) outcome (csMetrics st4)\<rparr>
                       in case err of
                            Some e \<Rightarrow> add_log (ActionFailedLog (cfgMode cfg) (dcTarget decision) outcome (cfgDryRun cfg) e) st5
                          | None \<Rightarrow> add_log (ActionCompletedLog (cfgMode cfg) (dcTarget decision) outcome (cfgDryRun cfg)) st5)))"

text \<open>
  The outcomes of the \<^verbatim>\<open>select\<close>, in the order in which they are taken; a loop whose
  list ends without \<open>CtxDone\<close> is still waiting. \<^verbatim>\<open>time.NewTicker\<close> panics
  (\<open>None\<close>) on an interval that is not positive.
\<close>

datatype loop_event = TickerFired | CtxDone

fun poll :: "('m, 'r, 'w) chaos_env \<Rightarrow> config \<Rightarrow> loop_event list \<Rightarrow> ('m, 'r, 'w) chaos_state \<Rightarrow> ('m, 'r, 'w) chaos_state" where
  "poll E cfg [] st = st"
| "poll E cfg (CtxDone # es) st = st"
| "poll E cfg (TickerFired # es) st = poll E cfg es (runIteration E cfg st)"

definition runLoop :: "('m, 'r, 'w) chaos_env \<Rightarrow> config \<Rightarrow> loop_event list \<Rightarrow> ('m, 'r, 'w) chaos_state
    \<Rightarrow> ('m, 'r, 'w) chaos_state option" where
  "runLoop E cfg es st =
     (if sle (cfgInterval cfg) 0 then None else Some (poll E cfg es (runIteration E cfg st)))"

section \<open>The process\<close>

text \<open>
  What \<^verbatim>\<open>run\<close> gets from outside: the clientset or the error of building it, the
  registry, the seeded generator, the shutdown of the HTTP server and what its goroutine sends
  afterwards. A panic is \<open>None\<close>; the state is \<open>None\<close> when the loop was never
  entered.
\<close>

datatype run_error =
    StartupError config_error
  | ClusterConfigError string
  | ShutDownHTTP string
  | ListenAndServe string

record ('m, 'r, 'w) launch =
  lnLabelsParse :: "string \<Rightarrow> string option"
  lnCluster :: "string + 'w cluster"
  lnProm :: "'m prom"
  lnRegistry :: 'm
  lnIntn :: "nat \<Rightarrow> 'r \<Rightarrow> nat \<times> 'r"
  lnSource :: 'r
  lnUnix :: "'w \<Rightarrow> int"
  lnErrText :: "kube_error \<Rightarrow> string"
  lnShutdown :: "'w \<Rightarrow> string option \<times> 'w"
  lnServeErr :: "'w \<Rightarrow> string option option"

definition startup :: "(string \<Rightarrow> string option) \<Rightarrow> environ \<Rightarrow> string list \<Rightarrow> config_error + config \<times> log_level" where
  "startup labelsParse env args =
     (case parseDryRunFlag env args of
        Inl e \<Rightarrow> Inl e
      | Inr dryRun \<Rightarrow>
     (case loadConfig labelsParse env dryRun of
        Inl e \<Rightarrow> Inl e
      | Inr cfg \<Rightarrow>
     (case parseLogLevel (cfgLogLevel cfg) of
        Inl e \<Rightarrow> Inl e
      | Inr level \<Rightarrow> Inr (cfg, level))))"

definition run :: "('m, 'r, 'w) launch \<Rightarrow> environ \<Rightarrow> string list \<Rightarrow> loop_event list \<Rightarrow> 'w
    \<Rightarrow> (run_error option \<times> ('m, 'r, 'w) chaos_state option) option" where
  "run L env args es w =
     (case startup (lnLabelsParse L) env args of
        Inl e \<Rightarrow> Some (Some (StartupError e), None)
      | Inr (cfg, level) \<Rightarrow>
     (case lnCluster L of
        Inl e \<Rightarrow> Some (Some (ClusterConfigError e), None)
      | Inr cluster \<Rightarrow>
     (let E = \<lparr>cePromClient = lnProm L, ceClient = NewClient cluster, ceIntn = lnIntn L, ceUnix = lnUnix L,
               ceErrText = lnErrText L\<rparr>;
          st0 = \<lparr>csMetrics = newChaosMetrics (lnProm L) (lnRegistry L), csRand = lnSource L, csWorld = w, csLog = []\<rparr>
      in case runLoop E cfg es st0 of
           None \<Rightarrow> None
         | Some st \<Rightarrow>
             (case lnShutdown L (csWorld st) of
                (Some e, w1) \<Rightarrow> Some (Some (ShutDownHTTP e), Some (st\<lparr>csWorld := w1\<rparr>))
              | (None, w1) \<Rightarrow>
                  (case lnServeErr L w1 of
                     Some (Some e) \<Rightarrow> Some (Some (ListenAndServe e), Some (st\<lparr>csWorld := w1\<rparr>))
                   | _ \<Rightarrow> Some (None, Some (st\<lparr>csWorld := w1\<rparr>)))))))"

section \<open>Lemmas\<close>

text \<open>The client with other ways to destroy.\<close>

definition rearmed :: "('m, 'r, 'w) chaos_env \<Rightarrow> (string \<Rightarrow> string \<Rightarrow> 'w \<Rightarrow> kube_error option \<times> 'w)
    \<Rightarrow> (pod_ref \<Rightarrow> duration \<Rightarrow> 'w \<Rightarrow> kube_error option \<times> 'w) \<Rightarrow> ('m, 'r, 'w) chaos_env" where
  "rearmed E del flap = E\<lparr>ceClient := (ceClient E)\<lparr>DeletePod := del, FlapReadiness := flap\<rparr>\<rparr>"

lemma rearmed_simps [simp]:
  "cePromClient (rearmed E del flap) = cePromClient E" "ceIntn (rearmed E del flap) = ceIntn E"
  "ceUnix (rearmed E del flap) = ceUnix E" "ceErrText (rearmed E del flap) = ceErrText E"
  "ReadSwitch (ceClient (rearmed E del flap)) = ReadSwitch (ceClient E)"
  "ListPods (ceClient (rearmed E del flap)) = ListPods (ceClient E)"
  "EmitEvent (ceClient (rearmed E del flap)) = EmitEvent (ceClient E)"
  "DeletePod (ceClient (rearmed E del flap)) = del" "FlapReadiness (ceClient (rearmed E del flap)) = flap"
  by (simp_all add: rearmed_def)

text \<open>An iteration sees the two destructive calls only through the execution of its decision.\<close>

definition safe_swap :: "('m, 'r, 'w) chaos_env \<Rightarrow> config \<Rightarrow> (string \<Rightarrow> string \<Rightarrow> 'w \<Rightarrow> kube_error option \<times> 'w)
    \<Rightarrow> (pod_ref \<Rightarrow> duration \<Rightarrow> 'w \<Rightarrow> kube_error option \<times> 'w) \<Rightarrow> bool" where
  "safe_swap E cfg del flap \<longleftrightarrow>
     (\<forall>enabled (err :: kube_error option) pods r w. (err = None \<longrightarrow> (\<exists>v. fst (ReadSwitch (ceClient E) (cfgTargetNamespace cfg) (cfgConfigMapName cfg) v) = Inr enabled)) \<longrightarrow>
       (let d = fst (Decide (ceIntn E) (cfgMode cfg) enabled err (cfgTargetNamespace cfg) pods r) in
        Execute (ceErrText E) (ceClient (rearmed E del flap)) d (cfgDryRun cfg) w = Execute (ceErrText E) (ceClient E) d (cfgDryRun cfg) w))"

lemma runIteration_swap:
  assumes "safe_swap E cfg del flap"
  shows "runIteration (rearmed E del flap) cfg st = runIteration E cfg st"
proof -
  obtain reply w1 where 1: "ReadSwitch (ceClient E) (cfgTargetNamespace cfg) (cfgConfigMapName cfg) (csWorld st) = (reply, w1)"
    by fastforce
  have sw: "Execute (ceErrText E) (ceClient (rearmed E del flap)) d (cfgDryRun cfg) w = Execute (ceErrText E) (ceClient E) d (cfgDryRun cfg) w"
    if "Decide (ceIntn E) (cfgMode cfg) (case reply of Inl e \<Rightarrow> False | Inr b \<Rightarrow> b) (case reply of Inl e \<Rightarrow> Some e | Inr b \<Rightarrow> None)
      (cfgTargetNamespace cfg) pods r = (d, r')" for pods r d r' w
  proof -
    have "(case reply of Inl e \<Rightarrow> Some e | Inr b \<Rightarrow> None) = None \<longrightarrow>
      (\<exists>v. fst (ReadSwitch (ceClient E) (cfgTargetNamespace cfg) (cfgConfigMapName cfg) v) = Inr (case reply of Inl e \<Rightarrow> False | Inr b \<Rightarrow> b))"
      using 1 by (auto split: sum.splits intro!: exI [of _ "csWorld st"])
    then show ?thesis using assms that unfolding safe_swap_def Let_def by (metis fst_conv)
  qed
  show ?thesis
  proof (cases reply)
    case (Inl e)
    show ?thesis using sw unfolding Inl sum.case runIteration_def Let_def rearmed_simps 1 
      by (auto split: prod.splits sum.splits)
  next
    case (Inr b)
    show ?thesis using sw unfolding Inr sum.case runIteration_def Let_def rearmed_simps 1 
      by (auto split: prod.splits sum.splits)
  qed
qed

lemma poll_swap: "safe_swap E cfg del flap \<Longrightarrow> poll (rearmed E del flap) cfg es st = poll E cfg es st"
  by (induction E cfg es st rule: poll.induct) (simp_all add: runIteration_swap)

lemma runLoop_swap: "safe_swap E cfg del flap \<Longrightarrow> runLoop (rearmed E del flap) cfg es st = runLoop E cfg es st"
  by (simp add: runLoop_def runIteration_swap poll_swap)

lemma Execute_none: "dcKind d = ActionNone \<Longrightarrow> Execute t c d dry w = (([], None), w)"
  by (simp add: Execute_def)

lemma Execute_dry:
  "EmitEvent c = EmitEvent c' \<Longrightarrow> Execute t c d True w = Execute t c' d True w"
  by (simp add: Execute_def)

lemma Execute_agree:
  "EmitEvent c = EmitEvent c' \<Longrightarrow>
   DeletePod c (podNamespace (dcTarget d)) = DeletePod c' (podNamespace (dcTarget d)) \<Longrightarrow>
   FlapReadiness c (dcTarget d) = FlapReadiness c' (dcTarget d) \<Longrightarrow> Execute t c d dry w = Execute t c' d dry w"
  unfolding Execute_def Let_def by (cases "actionNarration (dcKind d)"; cases "dcKind d") (simp_all split: option.splits prod.splits)

lemma Decide_forbidden: "\<not> (enabled \<and> err = None) \<Longrightarrow> dcKind (fst (Decide intn mode enabled err ns pods r)) = ActionNone"
  by (auto simp: Decide_def SwitchPermits_def refuse_def)

lemma Decide_namespace:
  assumes "dcKind (fst (Decide intn mode enabled err ns pods r)) \<noteq> ActionNone"
  shows "podNamespace (dcTarget (fst (Decide intn mode enabled err ns pods r))) = ns"
  using assms by (auto simp: Decide_def refuse_def InTargetNamespace_def split: prod.splits if_splits)

lemma safe_swap_harmless:
  assumes "cfgDryRun cfg \<or> (\<forall>v. fst (ReadSwitch (ceClient E) (cfgTargetNamespace cfg) (cfgConfigMapName cfg) v) \<noteq> Inr True)"
  shows "safe_swap E cfg del flap"
  unfolding safe_swap_def Let_def
proof (intro allI impI)
  fix enabled pods r w and err :: "kube_error option"
  let ?d = "fst (Decide (ceIntn E) (cfgMode cfg) enabled err (cfgTargetNamespace cfg) pods r)"
  assume h: "err = None \<longrightarrow> (\<exists>v. fst (ReadSwitch (ceClient E) (cfgTargetNamespace cfg) (cfgConfigMapName cfg) v) = Inr enabled)"
  show "Execute (ceErrText E) (ceClient (rearmed E del flap)) ?d (cfgDryRun cfg) w = Execute (ceErrText E) (ceClient E) ?d (cfgDryRun cfg) w"
  proof (cases "cfgDryRun cfg")
    case True
    then show ?thesis by (simp add: Execute_dry [of "ceClient (rearmed E del flap)" "ceClient E"])
  next
    case False
    then have "\<not> (enabled \<and> err = None)" using assms h by (cases enabled) auto
    then have "dcKind ?d = ActionNone" by (rule Decide_forbidden)
    then show ?thesis by (simp only: Execute_none)
  qed
qed

lemma safe_swap_namespace:
  assumes "\<And>n. del (cfgTargetNamespace cfg) n = DeletePod (ceClient E) (cfgTargetNamespace cfg) n"
    "\<And>pod. podNamespace pod = cfgTargetNamespace cfg \<Longrightarrow> flap pod = FlapReadiness (ceClient E) pod"
  shows "safe_swap E cfg del flap"
  unfolding safe_swap_def Let_def
proof (intro allI impI)
  fix enabled pods r w and err :: "kube_error option"
  let ?d = "fst (Decide (ceIntn E) (cfgMode cfg) enabled err (cfgTargetNamespace cfg) pods r)"
  show "Execute (ceErrText E) (ceClient (rearmed E del flap)) ?d (cfgDryRun cfg) w = Execute (ceErrText E) (ceClient E) ?d (cfgDryRun cfg) w"
  proof (cases "dcKind ?d = ActionNone")
    case False
    note n = Decide_namespace [OF False]
    show ?thesis using assms n by (intro Execute_agree) (auto simp: n)
  qed (simp add: Execute_none)
qed

section \<open>Properties\<close>

text \<open>C6: A chaos run destroys nothing when it must not: with dry-run set, or when the kill switch
  never reads as enabled, the whole loop, over any number of ticks, any pods and any errors, is the
  same whatever deleting a pod or flapping its readiness would do. The two calls are never made.\<close>

theorem loop_harmless:
  assumes "cfgDryRun cfg \<or> (\<forall>w. fst (ReadSwitch (ceClient E) (cfgTargetNamespace cfg) (cfgConfigMapName cfg) w) \<noteq> Inr True)"
  shows "runLoop (rearmed E del flap) cfg es st = runLoop E cfg es st"
  by (rule runLoop_swap [OF safe_swap_harmless [OF assms]])

text \<open>C22: Chaos stays in its namespace: two clients whose destructive calls agree on the pods of
  the target namespace give the same run, whatever they would do to a pod anywhere else.\<close>

theorem loop_namespace_bound:
  assumes "\<And>n. del (cfgTargetNamespace cfg) n = DeletePod (ceClient E) (cfgTargetNamespace cfg) n"
    "\<And>pod. podNamespace pod = cfgTargetNamespace cfg \<Longrightarrow> flap pod = FlapReadiness (ceClient E) pod"
  shows "runLoop (rearmed E del flap) cfg es st = runLoop E cfg es st"
  by (rule runLoop_swap [OF safe_swap_namespace]) (fact assms)+

lemma Execute_outcome:
  "dcKind d \<noteq> ActionNone \<Longrightarrow>
     fst (fst (Execute t c d dry w)) \<in> (if dry then {''dry-run''} else {''success'', ''failure''})"
  unfolding Execute_def Let_def chaos_outcomes
  by (cases "actionNarration (dcKind d)"; cases "dcKind d") (simp_all split: option.splits prod.splits)

lemma add_log_metrics [simp]: "csMetrics (add_log l st) = csMetrics st" "csWorld (add_log l st) = csWorld st"
  "csRand (add_log l st) = csRand st"
  by (simp_all add: add_log_def)

text \<open>What an iteration does to the registry.\<close>

lemma runIteration_metrics:
  fixes E cfg st
  defines "permits \<equiv> fst (ReadSwitch (ceClient E) (cfgTargetNamespace cfg) (cfgConfigMapName cfg) (csWorld st)) = Inr True"
    and "m1 \<equiv> setEnabled (cePromClient E)
      (fst (ReadSwitch (ceClient E) (cfgTargetNamespace cfg) (cfgConfigMapName cfg) (csWorld st)) = Inr True) (csMetrics st)"
  shows "csMetrics (runIteration E cfg st) = m1 \<or>
    (permits \<and> (\<exists>now. \<exists>outcome \<in> (if cfgDryRun cfg then {''dry-run''} else {''success'', ''failure''}).
       csMetrics (runIteration E cfg st) = recordAction (cePromClient E) now (cfgMode cfg) outcome m1))"
proof -
  obtain reply w1 where 1: "ReadSwitch (ceClient E) (cfgTargetNamespace cfg) (cfgConfigMapName cfg) (csWorld st) = (reply, w1)"
    by fastforce
  obtain listed w2 where 2: "ListPods (ceClient E) (cfgTargetNamespace cfg) (cfgLabelSelector cfg) w1 = (listed, w2)"
    by fastforce
  have m: "SwitchPermits (case reply of Inl e \<Rightarrow> False | Inr b \<Rightarrow> b) (case reply of Inl e \<Rightarrow> Some e | Inr b \<Rightarrow> None) = (reply = Inr True)"
    by (cases reply) (simp_all add: SwitchPermits_def)
  show ?thesis
  proof (cases listed)
    case (Inl e)
    then show ?thesis using 1 2 m
      by (cases reply) (simp_all add: runIteration_def m1_def Let_def)
  next
    case (Inr pods)
    obtain d r where d: "Decide (ceIntn E) (cfgMode cfg) (case reply of Inl e \<Rightarrow> False | Inr b \<Rightarrow> b)
        (case reply of Inl e \<Rightarrow> Some e | Inr b \<Rightarrow> None) (cfgTargetNamespace cfg) pods (csRand st) = (d, r)" by fastforce
    obtain out err w3 where x: "Execute (ceErrText E) (ceClient E) d (cfgDryRun cfg) w2 = ((out, err), w3)"
      by (metis prod.exhaust)
    have k: "csMetrics (runIteration E cfg st) =
        (if dcKind d = ActionNone then m1 else recordAction (cePromClient E) (ceUnix E w3) (cfgMode cfg) out m1)"
      using 1 2 m d x Inr
      by (cases reply; cases err) (simp_all add: runIteration_def m1_def Let_def)
    have "reply = Inr True" if "dcKind d \<noteq> ActionNone"
      using that d by (cases reply) (auto simp: Decide_def SwitchPermits_def refuse_def split: if_splits)
    moreover have "out \<in> (if cfgDryRun cfg then {''dry-run''} else {''success'', ''failure''})" if "dcKind d \<noteq> ActionNone"
      using Execute_outcome [OF that, of "ceErrText E" "ceClient E" "cfgDryRun cfg" w2] x by simp
    ultimately show ?thesis using k 1 unfolding permits_def
      by (cases "dcKind d = ActionNone") (auto intro!: exI [of _ "ceUnix E w3"])
  qed
qed

lemma poll_funpow:
  "poll E cfg es st = (runIteration E cfg ^^ length (takeWhile (\<lambda>e. e = TickerFired) es)) st"
  by (induction E cfg es st rule: poll.induct) (simp_all add: funpow_swap1)

section \<open>More properties\<close>

text \<open>After an iteration buddy_chaos_enabled is 1 exactly when the switch permitted chaos in it.
  Either nothing else in the exposition changed, or the switch permitted chaos and exactly one
  action was counted, under the configured mode, as a dry run when dry-run is set and otherwise as
  a success or a failure, and the timestamp of that mode was set.\<close>

theorem iteration_metrics:
  fixes E cfg st
  defines "ser \<equiv> \<lambda>s. series (cePromClient E) (csMetrics s)"
    and "permits \<equiv> fst (ReadSwitch (ceClient E) (cfgTargetNamespace cfg) (cfgConfigMapName cfg) (csWorld st)) = Inr True"
  assumes "prometheus (cePromClient E)"
  shows "ser (runIteration E cfg st) chaos_enabled_metric [] = Some (if permits then Fin 1 else Fin 0) \<and>
    ((\<forall>k js. k \<in> - {chaos_enabled_metric} \<longrightarrow> ser (runIteration E cfg st) k js = ser st k js) \<or>
     permits \<and> (\<exists>now. \<exists>outcome \<in> (if cfgDryRun cfg then {''dry-run''} else {''success'', ''failure''}).
       \<forall>k js. k \<in> - {chaos_enabled_metric} \<longrightarrow> ser (runIteration E cfg st) k js =
         (if k = chaos_actions_metric \<and> js = [cfgMode cfg, outcome]
          then Some (case ser st k js of None \<Rightarrow> Fin 1 | Some v \<Rightarrow> fadd v (Fin 1))
          else if k = chaos_last_action_metric \<and> js = [cfgMode cfg] then Some (f64_of_int now)
          else ser st k js)))"
  using runIteration_metrics [of E cfg st]
proof (elim disjE conjE exE bexE)
  assume "csMetrics (runIteration E cfg st) = setEnabled (cePromClient E)
      (fst (ReadSwitch (ceClient E) (cfgTargetNamespace cfg) (cfgConfigMapName cfg) (csWorld st)) = Inr True) (csMetrics st)"
  then show ?thesis
    by (simp add: ser_def permits_def setEnabled_def prometheus.series_set [OF assms(3)])
next
  fix now outcome
  assume h: "fst (ReadSwitch (ceClient E) (cfgTargetNamespace cfg) (cfgConfigMapName cfg) (csWorld st)) = Inr True"
    "outcome \<in> (if cfgDryRun cfg then {''dry-run''} else {''success'', ''failure''})"
    "csMetrics (runIteration E cfg st) = recordAction (cePromClient E) now (cfgMode cfg) outcome (setEnabled (cePromClient E)
      (fst (ReadSwitch (ceClient E) (cfgTargetNamespace cfg) (cfgConfigMapName cfg) (csWorld st)) = Inr True) (csMetrics st))"
  have "outcome \<noteq> []" using h(2) by (auto split: if_splits)
  then have s: "ser (runIteration E cfg st) k js = (if k = chaos_enabled_metric \<and> js = [] then Some (Fin 1)
      else if k = chaos_actions_metric \<and> js = [cfgMode cfg, outcome]
          then Some (case ser st k js of None \<Rightarrow> Fin 1 | Some v \<Rightarrow> fadd v (Fin 1))
          else if k = chaos_last_action_metric \<and> js = [cfgMode cfg] then Some (f64_of_int now)
          else ser st k js)" for k js
    using h(1) unfolding ser_def h(3)
    by (auto simp: recordAction_def setEnabled_def prometheus.series_set [OF assms(3)] prometheus.series_inc [OF assms(3)])
  show ?thesis
    using h(1,2) unfolding s permits_def by (intro conjI disjI2 exI [of _ now] bexI [of _ outcome]) auto
qed

text \<open>A run against the recording cluster with one pod.\<close>

definition demo_chaos :: "string \<Rightarrow> (registry, nat, kube_call list) chaos_env" where
  "demo_chaos enabled =
     \<lparr>cePromClient = map_prom,
      ceClient = NewClient (recording_cluster enabled
        [\<lparr>lpName = ''fernie-0'', lpNamespace = ''plants'', lpUID = ''u-9'', lpPodIP = ''10.0.0.7''\<rparr>]),
      ceIntn = lcg, ceUnix = (\<lambda>w. 1700000000), ceErrText = (\<lambda>e. [])\<rparr>"

definition demo_chaos_config :: config where
  "demo_chaos_config =
     \<lparr>cfgTargetNamespace = ''plants'', cfgLabelSelector = ''app=buddy'', cfgMode = ModePodKill,
      cfgInterval = 30 * second, cfgDryRun = False, cfgConfigMapName = ''switch'', cfgLogLevel = ''info''\<rparr>"

definition demo_chaos_state :: "(registry, nat, kube_call list) chaos_state" where
  "demo_chaos_state = \<lparr>csMetrics = newChaosMetrics map_prom (\<lambda>_ _. None), csRand = 7, csWorld = [], csLog = []\<rparr>"

theorem loop_harmless_witness:
  "runLoop (rearmed (demo_chaos ''off'') (\<lambda>_ _ w. (None, w @ [Waited])) (\<lambda>_ _ w. (None, w @ [Waited]))) demo_chaos_config
     [TickerFired, TickerFired, CtxDone] demo_chaos_state
   = runLoop (demo_chaos ''off'') demo_chaos_config [TickerFired, TickerFired, CtxDone] demo_chaos_state"
  by (rule loop_harmless)
    (simp add: demo_chaos_def NewClient_def clientReadSwitch_def recording_cluster_def parse_bool_def)

theorem loop_namespace_bound_witness:
  "runLoop (rearmed (demo_chaos ''true'')
       (\<lambda>ns n w. if ns = ''plants'' then DeletePod (ceClient (demo_chaos ''true'')) ns n w else (None, []))
       (\<lambda>pod d w. if podNamespace pod = ''plants'' then FlapReadiness (ceClient (demo_chaos ''true'')) pod d w else (None, [])))
     demo_chaos_config [TickerFired, CtxDone] demo_chaos_state
   = runLoop (demo_chaos ''true'') demo_chaos_config [TickerFired, CtxDone] demo_chaos_state"
  by (rule loop_namespace_bound) (simp_all add: demo_chaos_config_def)

theorem iteration_metrics_witness:
  "series map_prom (csMetrics (runIteration (demo_chaos ''true'') demo_chaos_config demo_chaos_state)) chaos_enabled_metric [] = Some (Fin 1)"
proof -
  have p: "cePromClient (demo_chaos ''true'') = map_prom" by (simp add: demo_chaos_def)
  have "fst (ReadSwitch (ceClient (demo_chaos ''true'')) ns cm w) = Inr True" for ns cm w
    by (simp add: demo_chaos_def NewClient_def clientReadSwitch_def recording_cluster_def parse_bool_def)
  then show ?thesis
    using iteration_metrics [of "demo_chaos ''true''" demo_chaos_config demo_chaos_state] map_registry.prometheus_axioms
    by (simp add: p)
qed

text \<open>With a positive interval the loop runs one iteration at once and one more for every tick
  taken before its context is done, and none after that; with an interval that is not positive the
  ticker panics before the first one.\<close>

theorem loop_iterations:
  "runLoop E cfg (replicate n TickerFired @ CtxDone # es) st =
     (if 0 < sint (cfgInterval cfg) then Some ((runIteration E cfg ^^ Suc n) st) else None)"
proof -
  have "length (takeWhile (\<lambda>e. e = TickerFired) (replicate n TickerFired @ CtxDone # es)) = n" by (induction n) simp_all
  then show ?thesis by (simp add: runLoop_def poll_funpow funpow_swap1)
qed

section \<open>The flag and the configuration\<close>

lemma setting_bool_False:
  "parseBoolEnv env k True = Inr False \<Longrightarrow> \<exists>v. env k = Some v \<and> parse_bool v = Some False"
  by (auto simp: parseBoolEnv_def split: option.splits if_splits)

text \<open>The spellings of false, and the arguments that give one to the flag.\<close>

definition spells_false :: "string \<Rightarrow> bool" where
  "spells_false v \<longleftrightarrow> parse_bool v = Some False"

definition turns_off :: "string \<Rightarrow> bool" where
  "turns_off a \<longleftrightarrow> (\<exists>v. spells_false v \<and> (a = ''-dry-run='' @ v \<or> a = ''--dry-run='' @ v))"

lemma flag_split:
  assumes "n \<noteq> []" "hd n # takeWhile (\<lambda>c. c \<noteq> CHR ''='') (tl n) = f" "dropWhile (\<lambda>c. c \<noteq> CHR ''='') (tl n) = rest" "rest \<noteq> []"
  shows "n = f @ CHR ''='' # tl rest"
proof -
  have "hd rest = CHR ''=''" using hd_dropWhile [of "\<lambda>c. c \<noteq> CHR ''=''" "tl n"] assms(3,4) by simp
  then have r: "rest = CHR ''='' # tl rest" using assms(4) by (cases rest) simp_all
  have "n = hd n # (takeWhile (\<lambda>c. c \<noteq> CHR ''='') (tl n) @ dropWhile (\<lambda>c. c \<noteq> CHR ''='') (tl n))"
    using assms(1) by simp
  then show ?thesis using assms(2,3) r by (metis append_Cons)
qed

lemma parseFlags_off: "parseFlags v args = Inr False \<Longrightarrow> \<not> v \<or> (\<exists>a \<in> set args. turns_off a)"
proof (induction args arbitrary: v)
  case (Cons s args)
  let ?n = "if s ! 1 = CHR ''-'' then drop 2 s else drop 1 s"
  let ?flag = "hd ?n # takeWhile (\<lambda>c. c \<noteq> CHR ''='') (tl ?n)"
  let ?rest = "dropWhile (\<lambda>c. c \<noteq> CHR ''='') (tl ?n)"
  consider (stop) "\<not> v"
    | (bare) "parseFlags True args = Inr False"
    | (given) b where "\<not> length s < 2" "hd s = CHR ''-''" "?n \<noteq> []" "?flag = ''dry-run''" "?rest \<noteq> []"
        "parse_bool (tl ?rest) = Some b" "parseFlags b args = Inr False"
    using Cons.prems by (simp add: Let_def split: if_split_asm option.split_asm)
  then show ?case
  proof cases
    case bare
    then show ?thesis using Cons.IH by auto
  next
    case given
    show ?thesis
    proof (cases b)
      case False
      have n: "?n = ''dry-run='' @ tl ?rest" using flag_split [OF given(3,4) refl given(5)] by simp
      obtain c t where "s = CHR ''-'' # c # t" using given(1,2) by (cases s; cases "tl s") auto
      then have "s = ''-'' @ ?n \<or> s = ''--'' @ ?n" by simp
      then have "turns_off s" using n given(6) False unfolding turns_off_def spells_false_def by auto
      then show ?thesis by simp
    qed (use given Cons.IH in auto)
  qed simp
qed simp

text \<open>Real chaos has to be asked for: the process runs without dry-run only when
  CHAOS_DRY_RUN is set to a spelling of false or an argument gives one to the flag explicitly. An
  unset or empty variable with no arguments means dry-run, and a value that is no boolean is an
  error.\<close>

theorem dry_run_default:
  assumes "parseDryRunFlag env args = Inr False"
  shows "(\<exists>v. env ''CHAOS_DRY_RUN'' = Some v \<and> v \<in> {''0'', ''f'', ''F'', ''false'', ''FALSE'', ''False''}) \<or>
    (\<exists>a \<in> set args. \<exists>v \<in> {''0'', ''f'', ''F'', ''false'', ''FALSE'', ''False''}. a = ''-dry-run='' @ v \<or> a = ''--dry-run='' @ v)"
proof -
  have sp: "{''0'', ''f'', ''F'', ''false'', ''FALSE'', ''False''} = Collect spells_false"
    by (auto simp: spells_false_def parse_bool_def split: if_splits)
  obtain d where d: "parseBoolEnv env ''CHAOS_DRY_RUN'' True = Inr d" "parseFlags d args = Inr False"
    using assms by (auto simp: parseDryRunFlag_def split: sum.splits)
  have "\<exists>v. env ''CHAOS_DRY_RUN'' = Some v \<and> spells_false v" if "\<not> d"
    using d(1) that setting_bool_False [of env "''CHAOS_DRY_RUN''"] by (simp add: spells_false_def)
  then show ?thesis using parseFlags_off [OF d(2)] unfolding sp turns_off_def Bex_def mem_Collect_eq by blast
qed

theorem dry_run_default_witness:
  "\<exists>a \<in> {''--dry-run=f''}. \<exists>v \<in> {''0'', ''f'', ''F'', ''false'', ''FALSE'', ''False''}. a = ''-dry-run='' @ v \<or> a = ''--dry-run='' @ v"
proof -
  have "parseDryRunFlag Map.empty [''--dry-run=f''] = Inr False"
    by (simp add: parseDryRunFlag_def parseBoolEnv_def parse_bool_def)
  from dry_run_default [OF this] show ?thesis by simp
qed

lemma startup_config:
  assumes "startup labelsParse env args = Inr (cfg, level)"
  shows "env ''CHAOS_TARGET_NAMESPACE'' = Some (cfgTargetNamespace cfg) \<and> trim_space (cfgTargetNamespace cfg) \<noteq> [] \<and>
    env ''CHAOS_LABEL_SELECTOR'' = Some (cfgLabelSelector cfg) \<and> trim_space (cfgLabelSelector cfg) \<noteq> [] \<and>
    labelsParse (cfgLabelSelector cfg) = None \<and> cfgMode cfg \<in> {''pod-kill'', ''readiness-flap''} \<and>
    0 < sint (cfgInterval cfg) \<and> parseDryRunFlag env args = Inr (cfgDryRun cfg)"
proof -
  obtain dry where d: "parseDryRunFlag env args = Inr dry" "loadConfig labelsParse env dry = Inr cfg"
    using assms by (auto simp: startup_def split: sum.splits)
  obtain ns where n: "env ''CHAOS_TARGET_NAMESPACE'' = Some ns" "trim_space ns \<noteq> []"
    using d(2) by (auto simp: loadConfig_def split: option.splits if_splits)
  let ?sel = "getEnv env ''CHAOS_LABEL_SELECTOR'' []"
  have v: "ValidateLabelSelector ?sel = None" "labelsParse ?sel = None"
    using d(2) n by (auto simp: loadConfig_def Let_def split: option.splits)
  obtain mode interval where m: "ParseMode (getEnv env ''CHAOS_MODE'' ModePodKill) = Inr mode"
    "parseDurationEnv env ''CHAOS_INTERVAL'' (30 * second) = Inr interval"
    using d(2) n v by (auto simp: loadConfig_def Let_def split: sum.splits)
  have c: "\<not> sle interval 0" "cfgTargetNamespace cfg = ns" "cfgLabelSelector cfg = ?sel" "cfgMode cfg = mode"
    "cfgInterval cfg = interval" "cfgDryRun cfg = dry"
    using d(2) n v m by (auto simp: loadConfig_def Let_def split: if_splits)
  have "trim_space ?sel \<noteq> []" using v(1) by (simp add: ValidateLabelSelector_def split: if_splits)
  moreover from this have "env ''CHAOS_LABEL_SELECTOR'' = Some ?sel"
    by (auto simp: getEnv_def trim_eval split: option.splits if_splits)
  moreover have "mode \<in> {''pod-kill'', ''readiness-flap''}"
    using m(1) by (auto simp: ParseMode_def mode_defs split: if_splits)
  ultimately show ?thesis using c d(1) n v by simp
qed

text \<open>C32: A process that starts has a target namespace that was given explicitly and is not blank, a
  selector that was given explicitly, is not blank and parses, one of the two modes, a positive interval
  and the dry-run flag of its arguments. Its loop does not panic, and as soon as its context is done run
  returns: after one iteration at once and one for each of the ticks before, whatever these did, it shuts
  the HTTP server down and returns the error of that, else that of the listener, else none. A process
  whose flags, configuration or log level are refused returns that error and does nothing else.\<close>

theorem chaos_startup:
  "case startup (lnLabelsParse L) env args of
     Inl e \<Rightarrow> run L env args es w = Some (Some (StartupError e), None)
   | Inr (cfg, level) \<Rightarrow>
       env ''CHAOS_TARGET_NAMESPACE'' = Some (cfgTargetNamespace cfg) \<and> trim_space (cfgTargetNamespace cfg) \<noteq> [] \<and>
       env ''CHAOS_LABEL_SELECTOR'' = Some (cfgLabelSelector cfg) \<and> trim_space (cfgLabelSelector cfg) \<noteq> [] \<and>
       lnLabelsParse L (cfgLabelSelector cfg) = None \<and> cfgMode cfg \<in> {''pod-kill'', ''readiness-flap''} \<and>
       0 < sint (cfgInterval cfg) \<and> parseDryRunFlag env args = Inr (cfgDryRun cfg) \<and>
       (case lnCluster L of
          Inl e \<Rightarrow> run L env args es w = Some (Some (ClusterConfigError e), None)
        | Inr cluster \<Rightarrow>
            (let E = \<lparr>cePromClient = lnProm L, ceClient = NewClient cluster, ceIntn = lnIntn L, ceUnix = lnUnix L,
                      ceErrText = lnErrText L\<rparr>;
                 st0 = \<lparr>csMetrics = newChaosMetrics (lnProm L) (lnRegistry L), csRand = lnSource L, csWorld = w, csLog = []\<rparr>;
                 st = (runIteration E cfg ^^ Suc n) st0; down = lnShutdown L (csWorld st)
             in run L env args (replicate n TickerFired @ CtxDone # es) w =
                  Some (case fst down of
                          Some e \<Rightarrow> Some (ShutDownHTTP e)
                        | None \<Rightarrow> (case lnServeErr L (snd down) of Some (Some e) \<Rightarrow> Some (ListenAndServe e) | _ \<Rightarrow> None),
                        Some (st\<lparr>csWorld := snd down\<rparr>))))"
proof (cases "startup (lnLabelsParse L) env args")
  case (Inl e)
  then show ?thesis by (simp add: run_def)
next
  case (Inr x)
  obtain cfg level where x: "x = (cfg, level)" by (cases x)
  note c = startup_config [OF Inr [unfolded x]]
  then have pos: "0 < sint (cfgInterval cfg)" by blast
  show ?thesis using c pos
    by (cases "lnCluster L")
      (simp_all add: Inr x run_def loop_iterations Let_def split: option.split prod.split)
qed

definition demo_launch :: "(registry, nat, kube_call list) launch" where
  "demo_launch =
     \<lparr>lnLabelsParse = (\<lambda>_. None), lnCluster = Inr (recording_cluster ''off'' []), lnProm = map_prom, lnRegistry = (\<lambda>_ _. None),
      lnIntn = lcg, lnSource = 7, lnUnix = (\<lambda>w. 1700000000), lnErrText = (\<lambda>e. []),
      lnShutdown = (\<lambda>w. (None, w)), lnServeErr = (\<lambda>w. Some None)\<rparr>"

theorem chaos_startup_witness:
  "\<exists>st. run demo_launch [''CHAOS_TARGET_NAMESPACE'' \<mapsto> ''plants'', ''CHAOS_LABEL_SELECTOR'' \<mapsto> ''app''] []
     [TickerFired, TickerFired, CtxDone] [] = Some (None, Some st)"
proof -
  let ?env = "[''CHAOS_TARGET_NAMESPACE'' \<mapsto> ''plants'', ''CHAOS_LABEL_SELECTOR'' \<mapsto> ''app'']"
  have s: "startup (\<lambda>_. None) ?env [] =
     Inr (\<lparr>cfgTargetNamespace = ''plants'', cfgLabelSelector = ''app'', cfgMode = ''pod-kill'', cfgInterval = 30 * second,
       cfgDryRun = True, cfgConfigMapName = ''chaos-buddy-switch'', cfgLogLevel = ''info''\<rparr>, LevelInfo)"
    by (simp add: startup_def parseDryRunFlag_def parseBoolEnv_def loadConfig_def ValidateLabelSelector_def trim_eval
        getEnv_def ParseMode_def mode_defs parseDurationEnv_def parseLogLevel_def ascii_lower_def Let_def)
  have "replicate 2 TickerFired @ [CtxDone] = [TickerFired, TickerFired, CtxDone]" by (simp add: numeral_2_eq_2)
  then show ?thesis
    using chaos_startup [of demo_launch ?env "[]" "[]" "[]" 2] s
    by (simp only: demo_launch_def launch.simps sum.case prod.case option.case Let_def fst_conv snd_conv) blast
qed

end
