(* ===== verification/OperatorMain.thy ===== *)
theory OperatorMain
  imports WebhookCerts PlantWebhook Children
begin

text \<open>
  The start of the operator: the generation of the webhook's serving certificate
  (\<^verbatim>\<open>cmd/plant-operator/webhookcerts.go\<close>), the order of the steps of
  \<^verbatim>\<open>main\<close> (\<^verbatim>\<open>cmd/plant-operator/main.go\<close>), the scope of the
  manager's cache (\<^verbatim>\<open>internal/controller/cache.go\<close>) and the watches of the
  controller. Keys, random numbers, signatures, the file system and the manager are the records
  \<open>crypto\<close> and \<open>manager_ops\<close>; a failing call returns the text of its error.
\<close>

section \<open>The serving certificate\<close>

datatype key_usage = KeyUsageCertSign | KeyUsageDigitalSignature | KeyUsageKeyEncipherment

record certificate =
  ceSerialNumber :: int
  ceCommonName :: string
  ceOrganization :: "string list"
  ceNotBefore :: int
  ceNotAfter :: int
  ceKeyUsage :: "key_usage list"
  ceExtKeyUsageServerAuth :: bool
  ceBasicConstraintsValid :: bool
  ceIsCA :: bool
  ceDNSNames :: "string list"
  ceIPAddresses :: "string list"

record ('k, 'w) crypto =
  cyGenerateKey :: "'w \<Rightarrow> (string + 'k) \<times> 'w"
  cyRandInt :: "int \<Rightarrow> 'w \<Rightarrow> (string + int) \<times> 'w"
  cyNow :: "'w \<Rightarrow> int \<times> 'w"
  cyCreateCertificate :: "certificate \<Rightarrow> certificate \<Rightarrow> 'k \<Rightarrow> 'k \<Rightarrow> 'w \<Rightarrow> (string + string) \<times> 'w"
  cyParseCertificate :: "string \<Rightarrow> string + certificate"
  cyMarshalECPrivateKey :: "'k \<Rightarrow> string + string"
  cyMkdirAll :: "string \<Rightarrow> nat \<Rightarrow> 'w \<Rightarrow> string option \<times> 'w"
  cyWriteFile :: "string \<Rightarrow> string \<Rightarrow> nat \<Rightarrow> 'w \<Rightarrow> string option \<times> 'w"

datatype cert_error =
    NoDNSNames
  | GeneratingCAKey string
  | GeneratingCASerial string
  | SelfSigningCA string
  | ParsingCA string
  | GeneratingServingKey string
  | GeneratingServingSerial string
  | SigningServing string
  | MarshalingServingKey string
  | CreatingCertDir string string
  | WritingFile string string

definition minute :: int where "minute = 60 * 1000000000"

definition caTemplate :: "int \<Rightarrow> int \<Rightarrow> certificate" where
  "caTemplate caSerial now =
     \<lparr>ceSerialNumber = caSerial, ceCommonName = ''plant-operator-webhook-ca'', ceOrganization = [''k8s-buddy''],
      ceNotBefore = now - 5 * minute, ceNotAfter = now + webhookCertificateValidity,
      ceKeyUsage = [KeyUsageCertSign, KeyUsageDigitalSignature], ceExtKeyUsageServerAuth = False,
      ceBasicConstraintsValid = True, ceIsCA = True, ceDNSNames = [], ceIPAddresses = []\<rparr>"

definition leafTemplate :: "int \<Rightarrow> int \<Rightarrow> string list \<Rightarrow> certificate" where
  "leafTemplate leafSerial now dnsNames =
     \<lparr>ceSerialNumber = leafSerial, ceCommonName = hd dnsNames, ceOrganization = [''k8s-buddy''],
      ceNotBefore = now - 5 * minute, ceNotAfter = now + webhookCertificateValidity,
      ceKeyUsage = [KeyUsageDigitalSignature, KeyUsageKeyEncipherment], ceExtKeyUsageServerAuth = True,
      ceBasicConstraintsValid = False, ceIsCA = False, ceDNSNames = dnsNames, ceIPAddresses = [''127.0.0.1'']\<rparr>"

text \<open>File modes are decimal: 488 is octal 750, 384 octal 600. \<^verbatim>\<open>filepath.Join\<close> of a clean directory and a file name.\<close>

definition joined :: "string \<Rightarrow> string \<Rightarrow> string" where
  "joined dir file = (if dir = [] then file else if last dir = CHR ''/'' then dir @ file else dir @ ''/'' @ file)"

definition pem_of :: "pem_lib \<Rightarrow> string \<Rightarrow> string \<Rightarrow> string" where
  "pem_of C ty der = pemEncode C \<lparr>pbType = ty, pbHeaders = [], pbBytes = der\<rparr>"

definition generateWebhookServingCertificate :: "('k, 'w) crypto \<Rightarrow> pem_lib \<Rightarrow> string \<Rightarrow> string list \<Rightarrow> 'w
    \<Rightarrow> (cert_error + string \<times> int) \<times> 'w" where
  "generateWebhookServingCertificate y C certDir dnsNames w =
     (if dnsNames = [] then (Inl NoDNSNames, w)
      else case cyGenerateKey y w of
        (Inl e, w1) \<Rightarrow> (Inl (GeneratingCAKey e), w1)
      | (Inr caKey, w1) \<Rightarrow>
      (case cyRandInt y (2 ^ 128) w1 of
        (Inl e, w2) \<Rightarrow> (Inl (GeneratingCASerial e), w2)
      | (Inr caSerial, w2) \<Rightarrow>
      (let (now, w3) = cyNow y w2; ca = caTemplate caSerial now in
      case cyCreateCertificate y ca ca caKey caKey w3 of
        (Inl e, w4) \<Rightarrow> (Inl (SelfSigningCA e), w4)
      | (Inr caDER, w4) \<Rightarrow>
      (let caCertPEM = pem_of C ''CERTIFICATE'' caDER in
      case cyParseCertificate y caDER of
        Inl e \<Rightarrow> (Inl (ParsingCA e), w4)
      | Inr caCert \<Rightarrow>
      (case cyGenerateKey y w4 of
        (Inl e, w5) \<Rightarrow> (Inl (GeneratingServingKey e), w5)
      | (Inr leafKey, w5) \<Rightarrow>
      (case cyRandInt y (2 ^ 128) w5 of
        (Inl e, w6) \<Rightarrow> (Inl (GeneratingServingSerial e), w6)
      | (Inr leafSerial, w6) \<Rightarrow>
      (let leaf = leafTemplate leafSerial now dnsNames in
      case cyCreateCertificate y leaf caCert leafKey caKey w6 of
        (Inl e, w7) \<Rightarrow> (Inl (SigningServing e), w7)
      | (Inr leafDER, w7) \<Rightarrow>
      (case cyMarshalECPrivateKey y leafKey of
        Inl e \<Rightarrow> (Inl (MarshalingServingKey e), w7)
      | Inr leafKeyDER \<Rightarrow>
      (case cyMkdirAll y certDir 488 w7 of
        (Some e, w8) \<Rightarrow> (Inl (CreatingCertDir certDir e), w8)
      | (None, w8) \<Rightarrow>
      (case cyWriteFile y (joined certDir ''tls.crt'') (pem_of C ''CERTIFICATE'' leafDER) 384 w8 of
        (Some e, w9) \<Rightarrow> (Inl (WritingFile ''tls.crt'' e), w9)
      | (None, w9) \<Rightarrow>
      (case cyWriteFile y (joined certDir ''tls.key'') (pem_of C ''EC PRIVATE KEY'' leafKeyDER) 384 w9 of
        (Some e, w10) \<Rightarrow> (Inl (WritingFile ''tls.key'' e), w10)
      | (None, w10) \<Rightarrow> (Inr (caCertPEM, ceNotAfter leaf), w10))))))))))))"

section \<open>The settings\<close>

definition defaultMutatingWebhookConfigurationName :: string where
  "defaultMutatingWebhookConfigurationName = ''plant-operator-mutating-webhook-configuration''"
definition defaultValidatingWebhookConfigurationName :: string where
  "defaultValidatingWebhookConfigurationName = ''plant-operator-validating-webhook-configuration''"
definition defaultWebhookServiceName :: string where "defaultWebhookServiceName = ''plant-operator-webhook''"
definition defaultPodNamespace :: string where "defaultPodNamespace = ''k8s-buddy-system''"

text \<open>
  What \<^verbatim>\<open>flag.Parse\<close> leaves: \<open>given f\<close> is the last value the command line
  gives the string flag \<open>f\<close>, if any; the boolean and the integer flag are already parsed.
\<close>

record command_line =
  clGiven :: "string \<rightharpoonup> string"
  clLeaderElect :: "bool option"
  clWebhookPort :: "int option"

definition string_flag :: "command_line \<Rightarrow> string \<Rightarrow> string \<Rightarrow> string" where
  "string_flag cl f def = (case clGiven cl f of Some v \<Rightarrow> v | None \<Rightarrow> def)"

record settings =
  seMetricsAddr :: string
  seProbeAddr :: string
  seLeaderElection :: bool
  seWebhookPort :: int
  seCertDir :: string
  seServiceName :: string
  seMutatingName :: string
  seValidatingName :: string
  seAllowedRegistries :: "string list"
  sePodNamespace :: string

definition join_commas :: "string list \<Rightarrow> string" where
  "join_commas xs = (case xs of [] \<Rightarrow> [] | x # ys \<Rightarrow> x @ concat (map (\<lambda>y. '','' @ y) ys))"

text \<open>\<open>tempDir\<close> is \<^verbatim>\<open>os.TempDir\<close>.\<close>

definition settings_of :: "(string \<rightharpoonup> string) \<Rightarrow> string \<Rightarrow> command_line \<Rightarrow> settings" where
  "settings_of env tempDir cl =
     \<lparr>seMetricsAddr = string_flag cl ''metrics-bind-address'' '':8081'',
      seProbeAddr = string_flag cl ''health-probe-bind-address'' '':8082'',
      seLeaderElection = (case clLeaderElect cl of Some b \<Rightarrow> b | None \<Rightarrow> False),
      seWebhookPort = (case clWebhookPort cl of Some n \<Rightarrow> n | None \<Rightarrow> 9443),
      seCertDir = string_flag cl ''webhook-cert-dir''
        (envOrDefault env ''WEBHOOK_CERT_DIR'' (joined (joined tempDir ''k8s-webhook-server'') ''serving-certs'')),
      seServiceName = string_flag cl ''webhook-service-name''
        (envOrDefault env ''WEBHOOK_SERVICE_NAME'' defaultWebhookServiceName),
      seMutatingName = string_flag cl ''mutating-webhook-configuration-name''
        (envOrDefault env ''MUTATING_WEBHOOK_CONFIGURATION_NAME'' defaultMutatingWebhookConfigurationName),
      seValidatingName = string_flag cl ''validating-webhook-configuration-name''
        (envOrDefault env ''VALIDATING_WEBHOOK_CONFIGURATION_NAME'' defaultValidatingWebhookConfigurationName),
      seAllowedRegistries = parseAllowedImageRegistries (string_flag cl ''allowed-image-registries''
        (envOrDefault env ''ALLOWED_IMAGE_REGISTRIES'' (join_commas DefaultAllowedImageRegistries))),
      sePodNamespace = envOrDefault env ''POD_NAMESPACE'' defaultPodNamespace\<rparr>"

section \<open>The cache and the watches\<close>

definition cachedKinds :: "string list" where
  "cachedKinds = [''Deployment'', ''Service'', ''ConfigMap'', ''ServiceAccount'', ''PodDisruptionBudget'', ''NetworkPolicy'']"

text \<open>The label selector a kind is cached under; \<open>None\<close> is no restriction.\<close>

definition CacheOptions :: "string \<Rightarrow> labels option" where
  "CacheOptions kind = (if kind \<in> set cachedKinds then Some [LabelManagedBy \<mapsto> appManagedBy] else None)"

text \<open>The kinds \<^verbatim>\<open>SetupWithManager\<close> reconciles and watches as owned.\<close>

record controller_setup =
  cuFor :: string
  cuOwns :: "string list"
  cuNamed :: string

definition SetupWithManager :: controller_setup where
  "SetupWithManager =
     \<lparr>cuFor = ''Plant'',
      cuOwns = [''Deployment'', ''Service'', ''ConfigMap'', ''PodDisruptionBudget'', ''ServiceAccount'', ''NetworkPolicy''],
      cuNamed = ''plant''\<rparr>"

section \<open>main\<close>

record manager_options =
  moCache :: "string \<Rightarrow> labels option"
  moWebhookPort :: int
  moWebhookCertDir :: string
  moMetricsAddr :: string
  moSecureServing :: bool
  moMetricsAuthorized :: bool
  moProbeAddr :: string
  moLeaderElection :: bool
  moLeaderElectionID :: string

text \<open>A health check is a ping or the expiry check of a certificate.\<close>

datatype checker = Ping | CertExpiry int

record 'w manager_ops =
  mgNewManager :: "manager_options \<Rightarrow> 'w \<Rightarrow> string option \<times> 'w"
  mgSetupController :: "controller_setup \<Rightarrow> 'w \<Rightarrow> string option \<times> 'w"
  mgSetupPlantWebhook :: "string list \<Rightarrow> 'w \<Rightarrow> string option \<times> 'w"
  mgAddHealthzCheck :: "string \<Rightarrow> checker \<Rightarrow> 'w \<Rightarrow> string option \<times> 'w"
  mgAddReadyzCheck :: "string \<Rightarrow> checker \<Rightarrow> 'w \<Rightarrow> string option \<times> 'w"
  mgStart :: "'w \<Rightarrow> string option \<times> 'w"

datatype main_end =
    CertificateFailed cert_error
  | BundlesFailed bundles_end
  | ManagerFailed string
  | StartedAndFailed string
  | StartedAndStopped

text \<open>The calls on the manager between its creation and its start, the first error ending them.\<close>

fun run_steps :: "('w \<Rightarrow> string option \<times> 'w) list \<Rightarrow> 'w \<Rightarrow> string option \<times> 'w" where
  "run_steps [] w = (None, w)"
| "run_steps (f # fs) w = (case f w of (Some e, w1) \<Rightarrow> (Some e, w1) | (None, w1) \<Rightarrow> run_steps fs w1)"

definition manager_options_of :: "settings \<Rightarrow> manager_options" where
  "manager_options_of se =
     \<lparr>moCache = CacheOptions, moWebhookPort = seWebhookPort se, moWebhookCertDir = seCertDir se,
      moMetricsAddr = seMetricsAddr se, moSecureServing = True, moMetricsAuthorized = True,
      moProbeAddr = seProbeAddr se, moLeaderElection = seLeaderElection se,
      moLeaderElectionID = ''plant-operator.buddy.k8s-buddy.io''\<rparr>"

definition manager_steps :: "'w manager_ops \<Rightarrow> settings \<Rightarrow> int \<Rightarrow> ('w \<Rightarrow> string option \<times> 'w) list" where
  "manager_steps M se leafNotAfter =
     [mgNewManager M (manager_options_of se),
      mgSetupController M SetupWithManager,
      mgSetupPlantWebhook M (seAllowedRegistries se),
      mgAddHealthzCheck M ''healthz'' Ping,
      mgAddReadyzCheck M ''readyz'' Ping,
      mgAddHealthzCheck M ''webhook-cert-expiry'' (CertExpiry leafNotAfter),
      mgAddReadyzCheck M ''webhook-cert-expiry'' (CertExpiry leafNotAfter)]"

definition operator_main :: "('k, 'w) crypto \<Rightarrow> pem_lib \<Rightarrow> 'w backoff \<Rightarrow> (string + 'w config_client) \<Rightarrow> 'w manager_ops
    \<Rightarrow> settings \<Rightarrow> 'w \<Rightarrow> main_end \<times> 'w" where
  "operator_main y C B built M se w =
     (let dnsNames = webhookServiceDNSNames (seServiceName se) (sePodNamespace se) in
      case generateWebhookServingCertificate y C (seCertDir se) dnsNames w of
        (Inl e, w1) \<Rightarrow> (CertificateFailed e, w1)
      | (Inr (caPEM, leafNotAfter), w1) \<Rightarrow>
          (case patchWebhookCABundles B C built (seMutatingName se) (seValidatingName se) caPEM w1 of
             (res, w2) \<Rightarrow>
               if res \<noteq> BundlesEnd LoopDone then (BundlesFailed res, w2)
               else (case run_steps (manager_steps M se leafNotAfter) w2 of
                   (Some e, w3) \<Rightarrow> (ManagerFailed e, w3)
                 | (None, w3) \<Rightarrow>
                     (case mgStart M w3 of
                        (Some e, w4) \<Rightarrow> (StartedAndFailed e, w4)
                      | (None, w4) \<Rightarrow> (StartedAndStopped, w4)))))"

section \<open>Properties\<close>

lemma generate_success:
  assumes "generateWebhookServingCertificate y C certDir dnsNames w = (Inr (caPEM, notAfter), w')"
  obtains now caSerial leafSerial caKey leafKey caDER caCert leafDER keyDER wa wb wc wd we wf where
    "notAfter = now + webhookCertificateValidity" "dnsNames \<noteq> []"
    "cyCreateCertificate y (caTemplate caSerial now) (caTemplate caSerial now) caKey caKey wa = (Inr caDER, wb)"
    "caPEM = pem_of C ''CERTIFICATE'' caDER" "cyParseCertificate y caDER = Inr caCert"
    "cyCreateCertificate y (leafTemplate leafSerial now dnsNames) caCert leafKey caKey wc = (Inr leafDER, wd)"
    "cyMarshalECPrivateKey y leafKey = Inr keyDER"
    "cyMkdirAll y certDir 488 wd = (None, we)"
    "cyWriteFile y (joined certDir ''tls.crt'') (pem_of C ''CERTIFICATE'' leafDER) 384 we = (None, wf)"
    "cyWriteFile y (joined certDir ''tls.key'') (pem_of C ''EC PRIVATE KEY'' keyDER) 384 wf = (None, w')"
  using assms unfolding generateWebhookServingCertificate_def Let_def
  by (auto split: if_splits prod.splits sum.splits option.splits simp: leafTemplate_def)

text \<open>A certificate that was generated is a serving certificate for exactly the given names,
  signed with the key of a fresh self-signed CA whose PEM is returned, written with its key to
  the two files readable by their owner only, and the health check built from its expiry date
  fails exactly from ten years less a day after it was made. Without names nothing is done.\<close>

theorem serving_certificate:
  assumes "generateWebhookServingCertificate y C certDir dnsNames w = (Inr (caPEM, notAfter), w')"
  shows "dnsNames \<noteq> [] \<and> (\<exists>now ca caKey caDER caCert leaf leafKey leafDER keyDER wa wb wc wd we wf.
    ceIsCA ca \<and> cyCreateCertificate y ca ca caKey caKey wa = (Inr caDER, wb) \<and>
    caPEM = pem_of C ''CERTIFICATE'' caDER \<and> cyParseCertificate y caDER = Inr caCert \<and>
    \<not> ceIsCA leaf \<and> ceExtKeyUsageServerAuth leaf \<and> ceDNSNames leaf = dnsNames \<and> ceNotAfter leaf = notAfter \<and>
    ceNotBefore leaf = now - 300 * 1000000000 \<and>
    cyCreateCertificate y leaf caCert leafKey caKey wc = (Inr leafDER, wd) \<and> cyMarshalECPrivateKey y leafKey = Inr keyDER \<and>
    cyWriteFile y (joined certDir ''tls.crt'') (pem_of C ''CERTIFICATE'' leafDER) 384 we = (None, wf) \<and>
    cyWriteFile y (joined certDir ''tls.key'') (pem_of C ''EC PRIVATE KEY'' keyDER) 384 wf = (None, w') \<and>
    (\<forall>t. webhookCertExpiryCheck notAfter t \<longleftrightarrow> now + (3650 * 24 - 24) * 3600 * 1000000000 \<le> t))"
proof -
  obtain now caSerial leafSerial caKey leafKey caDER caCert leafDER keyDER wa wb wc wd we wf where g:
    "notAfter = now + webhookCertificateValidity" "dnsNames \<noteq> []"
    "cyCreateCertificate y (caTemplate caSerial now) (caTemplate caSerial now) caKey caKey wa = (Inr caDER, wb)"
    "caPEM = pem_of C ''CERTIFICATE'' caDER" "cyParseCertificate y caDER = Inr caCert"
    "cyCreateCertificate y (leafTemplate leafSerial now dnsNames) caCert leafKey caKey wc = (Inr leafDER, wd)"
    "cyMarshalECPrivateKey y leafKey = Inr keyDER"
    "cyMkdirAll y certDir 488 wd = (None, we)"
    "cyWriteFile y (joined certDir ''tls.crt'') (pem_of C ''CERTIFICATE'' leafDER) 384 we = (None, wf)"
    "cyWriteFile y (joined certDir ''tls.key'') (pem_of C ''EC PRIVATE KEY'' keyDER) 384 wf = (None, w')"
    by (rule generate_success [OF assms]) (rule that, assumption+)
  have t: "ceIsCA (caTemplate caSerial now)" "\<not> ceIsCA (leafTemplate leafSerial now dnsNames)"
    "ceExtKeyUsageServerAuth (leafTemplate leafSerial now dnsNames)" "ceDNSNames (leafTemplate leafSerial now dnsNames) = dnsNames"
    "ceNotAfter (leafTemplate leafSerial now dnsNames) = notAfter"
    "ceNotBefore (leafTemplate leafSerial now dnsNames) = now - 300 * 1000000000"
    by (simp_all add: caTemplate_def leafTemplate_def g(1) minute_def)
  have x: "webhookCertExpiryCheck notAfter t \<longleftrightarrow> now + (3650 * 24 - 24) * 3600 * 1000000000 \<le> t" for t
    unfolding g(1) webhookCertExpiryCheck_def webhookCertificateValidity_def webhookCertExpiryReadinessMargin_def by auto
  show ?thesis
    by (intro conjI exI g(2) allI) (rule t(1) g(3-10) t(2-6) x)+
qed

lemma run_steps_Cons: "run_steps (f # fs) w = (None, w') \<longleftrightarrow> (\<exists>w1. f w = (None, w1) \<and> run_steps fs w1 = (None, w'))"
  by (auto split: prod.splits option.splits)

lemma manager_ready:
  assumes "run_steps (manager_steps M se notAfter) w = (None, w')"
  shows "\<exists>opts m1 m2 m3 m4 m5 m6. moWebhookCertDir opts = seCertDir se \<and> moWebhookPort opts = seWebhookPort se \<and>
     moCache opts = CacheOptions \<and> mgNewManager M opts w = (None, m1) \<and>
     mgSetupController M SetupWithManager m1 = (None, m2) \<and>
     mgSetupPlantWebhook M (seAllowedRegistries se) m2 = (None, m3) \<and>
     mgAddHealthzCheck M ''healthz'' Ping m3 = (None, m4) \<and> mgAddReadyzCheck M ''readyz'' Ping m4 = (None, m5) \<and>
     mgAddHealthzCheck M ''webhook-cert-expiry'' (CertExpiry notAfter) m5 = (None, m6) \<and>
     mgAddReadyzCheck M ''webhook-cert-expiry'' (CertExpiry notAfter) m6 = (None, w')"
proof -
  have o: "moWebhookCertDir (manager_options_of se) = seCertDir se" "moWebhookPort (manager_options_of se) = seWebhookPort se"
    "moCache (manager_options_of se) = CacheOptions" by (simp_all add: manager_options_of_def)
  show ?thesis using assms o unfolding manager_steps_def run_steps_Cons by auto
qed

text \<open>C19: The manager, and with it the webhook server, is started only after the certificate was
  generated for the names the API server dials, its CA was merged into both webhook configurations, and
  then these calls on the manager succeeded one after the other: its creation with the directory the
  certificate is in and the restricted cache, the controller, the webhooks with the allowlist, the two
  pings, and on the liveness and on the readiness endpoint a check of the expiry of that very
  certificate, which fails from a day before it runs out. When the certificate cannot be made or the
  bundles cannot be patched the manager is never touched.\<close>

theorem starts_trusted:
  assumes "pem_library C" "backoff_loop B pause" "operator_main y C B built M se w = (res, w')"
  shows "(res = StartedAndStopped \<or> (\<exists>e. res = StartedAndFailed e) \<longrightarrow>
      (\<exists>caPEM notAfter w1 k wm w2 w3.
        generateWebhookServingCertificate y C (seCertDir se) (webhookServiceDNSNames (seServiceName se) (sePodNamespace se)) w
          = (Inr (caPEM, notAfter), w1) \<and>
        built = Inr k \<and> wrote_bundles C k ''MutatingWebhookConfiguration'' (seMutatingName se) caPEM wm \<and>
        wrote_bundles C k ''ValidatingWebhookConfiguration'' (seValidatingName se) caPEM w2 \<and>
        (\<exists>opts m1 m2 m3 m4 m5 m6. moWebhookCertDir opts = seCertDir se \<and> moWebhookPort opts = seWebhookPort se \<and>
           moCache opts = CacheOptions \<and> mgNewManager M opts w2 = (None, m1) \<and>
           mgSetupController M SetupWithManager m1 = (None, m2) \<and>
           mgSetupPlantWebhook M (seAllowedRegistries se) m2 = (None, m3) \<and>
           mgAddHealthzCheck M ''healthz'' Ping m3 = (None, m4) \<and> mgAddReadyzCheck M ''readyz'' Ping m4 = (None, m5) \<and>
           mgAddHealthzCheck M ''webhook-cert-expiry'' (CertExpiry notAfter) m5 = (None, m6) \<and>
           mgAddReadyzCheck M ''webhook-cert-expiry'' (CertExpiry notAfter) m6 = (None, w3)) \<and>
        (\<forall>t. webhookCertExpiryCheck notAfter t \<longleftrightarrow> notAfter - 24 * 3600 * 1000000000 \<le> t) \<and> snd (mgStart M w3) = w')) \<and>
    ((\<exists>e. res = CertificateFailed e) \<or> (\<exists>e. res = BundlesFailed e) \<longrightarrow> operator_main y C B built M' se w = (res, w')) \<and>
    seServiceName se @ ''.'' @ sePodNamespace se @ ''.svc'' \<in> set (webhookServiceDNSNames (seServiceName se) (sePodNamespace se))"
proof -
  let ?names = "webhookServiceDNSNames (seServiceName se) (sePodNamespace se)"
  have n: "seServiceName se @ ''.'' @ sePodNamespace se @ ''.svc'' \<in> set ?names" by (simp add: webhookServiceDNSNames_def)
  obtain g w1 where 1: "generateWebhookServingCertificate y C (seCertDir se) ?names w = (g, w1)" by fastforce
  show ?thesis
  proof (cases g)
    case (Inl e)
    then show ?thesis using assms(3) 1 n by (auto simp: operator_main_def)
  next
    case (Inr x)
    obtain caPEM notAfter where x: "x = (caPEM, notAfter)" by (cases x)
    obtain b w2 where 2: "patchWebhookCABundles B C built (seMutatingName se) (seValidatingName se) caPEM w1 = (b, w2)" by fastforce
    show ?thesis
    proof (cases "b = BundlesEnd LoopDone")
      case False
      then show ?thesis using assms(3) 1 2 Inr x n by (auto simp: operator_main_def)
    next
      case True
      obtain k wm where k: "built = Inr k" "wrote_bundles C k ''MutatingWebhookConfiguration'' (seMutatingName se) caPEM wm"
        "wrote_bundles C k ''ValidatingWebhookConfiguration'' (seValidatingName se) caPEM w2"
        using patch_both [OF assms(1,2) 2 [unfolded True]] by blast
      obtain r w3 where 3: "run_steps (manager_steps M se notAfter) w2 = (r, w3)" by fastforce
      obtain s w4 where 4: "mgStart M w3 = (s, w4)" by fastforce
      have m: "operator_main y C B built M se w =
          (case r of Some e \<Rightarrow> (ManagerFailed e, w3) | None \<Rightarrow> (case s of Some e \<Rightarrow> (StartedAndFailed e, w4) | None \<Rightarrow> (StartedAndStopped, w4)))"
        using 1 2 3 4 Inr x True by (simp add: operator_main_def split: option.split)
      show ?thesis
      proof (cases r)
        case (Some e)
        then show ?thesis using m assms(3) n by auto
      next
        case None
        have "w4 = w'" "\<not> (\<exists>e. res = CertificateFailed e)" "\<not> (\<exists>e. res = BundlesFailed e)"
          using m assms(3) None by (cases s; auto)+
        moreover have "webhookCertExpiryCheck notAfter t \<longleftrightarrow> notAfter - 24 * 3600 * 1000000000 \<le> t" for t
          unfolding webhookCertExpiryCheck_def webhookCertExpiryReadinessMargin_def by auto
        moreover note manager_ready [OF 3 [unfolded None]]
        moreover have "snd (mgStart M w3) = w'" using 4 calculation(1) by simp
        ultimately show ?thesis using 1 Inr x k n by blast
      qed
    qed
  qed
qed

text \<open>The cache's label filter hides no child the reconciler writes: whatever the reconciler
  makes of an object of a kind that is watched and cached under a selector carries the labels of that selector,
  the watched kinds are exactly the filtered ones, and Plants themselves are cached unfiltered.\<close>

theorem children_cached:
  assumes "controller_reference ref" "mutate ref p obj = Inr obj'"
  shows "(\<forall>sel. CacheOptions (obj_kind obj') = Some sel \<longrightarrow> selects sel (mLabels (obj_meta obj'))) \<and>
    {kind. CacheOptions kind \<noteq> None} = set (cuOwns SetupWithManager) \<and> CacheOptions (cuFor SetupWithManager) = None"
proof -
  have "mLabels (obj_meta obj') LabelManagedBy = Some appManagedBy"
    using controller_reference.mutate_labels [OF assms] by (simp add: mergeLabels_def label_simps map_add_Some_iff)
  then have "selects [LabelManagedBy \<mapsto> appManagedBy] (mLabels (obj_meta obj'))"
    by (simp add: selects_def map_le_def)
  moreover have "{kind. CacheOptions kind \<noteq> None} = set cachedKinds" by (auto simp: CacheOptions_def)
  ultimately show ?thesis by (auto simp: CacheOptions_def cachedKinds_def SetupWithManager_def)
qed

text \<open>A start that works, on the racing API server of the retry loop.\<close>

definition demo_crypto :: "(nat, nat \<times> string list) crypto" where
  "demo_crypto =
     \<lparr>cyGenerateKey = (\<lambda>w. (Inr 7, w)), cyRandInt = (\<lambda>n w. (Inr 42, w)), cyNow = (\<lambda>w. (100, w)),
      cyCreateCertificate = (\<lambda>t parent pub signer w. (Inr ''ez'', w)), cyParseCertificate = (\<lambda>der. Inr (caTemplate 42 100)),
      cyMarshalECPrivateKey = (\<lambda>k. Inr ''key''), cyMkdirAll = (\<lambda>d m w. (None, w)), cyWriteFile = (\<lambda>f c m w. (None, w))\<rparr>"

definition demo_manager :: "'w manager_ops" where
  "demo_manager =
     \<lparr>mgNewManager = (\<lambda>opts w. (None, w)), mgSetupController = (\<lambda>c w. (None, w)), mgSetupPlantWebhook = (\<lambda>r w. (None, w)),
      mgAddHealthzCheck = (\<lambda>n c w. (None, w)), mgAddReadyzCheck = (\<lambda>n c w. (None, w)), mgStart = (\<lambda>w. (None, w))\<rparr>"

definition demo_settings :: settings where
  "demo_settings = settings_of Map.empty ''/tmp'' \<lparr>clGiven = Map.empty, clLeaderElect = Some True, clWebhookPort = None\<rparr>"

lemma demo_generate:
  "dnsNames \<noteq> [] \<Longrightarrow> generateWebhookServingCertificate demo_crypto C dir dnsNames w =
     (Inr (pem_of C ''CERTIFICATE'' ''ez'', 100 + webhookCertificateValidity), w)"
  by (simp add: generateWebhookServingCertificate_def demo_crypto_def leafTemplate_def Let_def)

theorem serving_certificate_witness:
  "\<exists>leaf :: certificate. ceDNSNames leaf = [''svc''] \<and> \<not> ceIsCA leaf \<and> ceNotAfter leaf = 100 + webhookCertificateValidity"
  using serving_certificate [OF demo_generate [of "[''svc'']" text_pem "''/tmp''" "(0, [])", OF list.distinct(2)]] by blast

theorem starts_trusted_witness:
  "\<exists>w' caPEM wm. operator_main demo_crypto text_pem plain_loop (Inr racy_client) demo_manager demo_settings (0, []) = (StartedAndStopped, w') \<and>
     wrote_bundles text_pem racy_client ''MutatingWebhookConfiguration'' ''plant-operator-mutating-webhook-configuration'' caPEM wm"
proof -
  obtain res w' where r: "operator_main demo_crypto text_pem plain_loop (Inr racy_client) demo_manager demo_settings (0, []) = (res, w')"
    by (meson surj_pair)
  have "webhookServiceDNSNames a b \<noteq> []" for a b by (simp add: webhookServiceDNSNames_def)
  then have e: "res = StartedAndStopped" using r
    by (simp add: operator_main_def demo_generate patchWebhookCABundles_def patchOneWebhookCABundle_def patch_attempt_def
        racy_client_def eval_nat_numeral demo_manager_def manager_steps_def)
  have "seMutatingName demo_settings = ''plant-operator-mutating-webhook-configuration''"
    by (simp add: demo_settings_def settings_of_def string_flag_def envOrDefault_def defaultMutatingWebhookConfigurationName_def)
  then show ?thesis
    using starts_trusted [OF pem.pem_library_axioms plain.backoff_loop_axioms r] e r by auto
qed

theorem children_cached_witness:
  "{kind. CacheOptions kind \<noteq> None} = set (cuOwns SetupWithManager)"
proof -
  have "GetControllerOf (obj_meta (OConfigMap (ConfigMapFor demo_plant))) = None"
    "mNamespace (obj_meta (OConfigMap (ConfigMapFor demo_plant))) = pNamespace demo_plant"
    by (simp_all add: ConfigMapFor_def new_meta_def GetControllerOf_def)
  then obtain obj' where "mutate set_controller_reference demo_plant (OConfigMap (ConfigMapFor demo_plant)) = Inr obj'"
    using unowned_mutates by blast
  then show ?thesis using children_cached [OF owner.controller_reference_axioms] by blast
qed

end
