(* ===== verification/Logging.thy ===== *)
theory Logging
  imports GoStd
begin

text \<open>
  \<^verbatim>\<open>internal/telemetry/logging.go\<close>: the JSON logger of the workload. What the code uses
  of \<^verbatim>\<open>log/slog\<close> is modelled: a handler drops a record below its level, and otherwise
  writes one line with the built-in attributes first; it asks \<^verbatim>\<open>ReplaceAttr\<close> for the key
  of every attribute that is not a group, with the names of the groups around it. A line is the
  list of its members.
\<close>

section \<open>Levels\<close>

text \<open>The levels are ordered by their numbers in \<^verbatim>\<open>log/slog\<close>.\<close>

fun level_number :: "log_level \<Rightarrow> int" where
  "level_number LevelDebug = - 4"
| "level_number LevelInfo = 0"
| "level_number LevelWarn = 4"
| "level_number LevelError = 8"

lemma level_number_inj: "level_number a = level_number b \<longleftrightarrow> a = b"
  by (cases a; cases b) simp_all

instantiation log_level :: linorder
begin

definition less_eq_log_level :: "log_level \<Rightarrow> log_level \<Rightarrow> bool" where
  "a \<le> b \<longleftrightarrow> level_number a \<le> level_number b"

definition less_log_level :: "log_level \<Rightarrow> log_level \<Rightarrow> bool" where
  "a < b \<longleftrightarrow> level_number a < level_number b"

instance
  by standard (auto simp: less_eq_log_level_def less_log_level_def level_number_inj)

end

fun level_text :: "log_level \<Rightarrow> string" where
  "level_text LevelDebug = ''DEBUG''"
| "level_text LevelInfo = ''INFO''"
| "level_text LevelWarn = ''WARN''"
| "level_text LevelError = ''ERROR''"

section \<open>Attributes\<close>

datatype attr = Attr string string | Group string "attr list"

fun attr_key :: "attr \<Rightarrow> string" where
  "attr_key (Attr k v) = k"
| "attr_key (Group k as) = k"

definition replaceAttr :: "string list \<Rightarrow> attr \<Rightarrow> attr" where
  "replaceAttr groups a = (case a of
      Attr k v \<Rightarrow> if groups = [] \<and> k = ''time'' then Attr ''ts'' v else a
    | Group k as \<Rightarrow> a)"

text \<open>A group without attributes is left out, one without a name is inlined.\<close>

fun members :: "(string list \<Rightarrow> attr \<Rightarrow> attr) \<Rightarrow> string list \<Rightarrow> attr \<Rightarrow> attr list" where
  "members rep groups (Attr k v) = [rep groups (Attr k v)]"
| "members rep groups (Group k as) =
     (if as = [] then []
      else if k = [] then concat (map (members rep groups) as)
      else [Group k (concat (map (members rep (groups @ [k])) as))])"

section \<open>The logger\<close>

type_synonym logger = "log_level \<Rightarrow> string \<Rightarrow> string \<Rightarrow> attr list \<Rightarrow> attr list list"

text \<open>The lines a call \<open>level now message attributes\<close> writes: none or one.\<close>

definition NewLogger :: "log_level \<Rightarrow> logger" where
  "NewLogger threshold l now msg as =
     (if l < threshold then []
      else [concat (map (members replaceAttr [])
              ([Attr ''time'' now, Attr ''level'' (level_text l), Attr ''msg'' msg] @ as))])"

section \<open>Properties\<close>

lemma members_inside:
  "groups \<noteq> [] \<Longrightarrow> members replaceAttr groups a = members (\<lambda>groups a. a) groups a"
proof (induction a arbitrary: groups)
  case (Group k as)
  then show ?case by (simp cong: map_cong)
qed (simp add: replaceAttr_def)

lemma members_no_time: "a' \<in> set (members replaceAttr [] a) \<Longrightarrow> (\<exists>k v. a' = Attr k v) \<Longrightarrow> attr_key a' \<noteq> ''time''"
  by (induction "replaceAttr" "[] :: string list" a rule: members.induct) (auto simp: replaceAttr_def split: if_splits)

text \<open>A call at or above the level writes one line, which begins with the time under the
  name ts, the level and the message; no member of the line outside a group is called time, and a
  named group is written as it was given, the name time inside it included. A call below the level
  writes nothing.\<close>

theorem log_line_shape:
  "NewLogger threshold l now msg as =
     (if l < threshold then []
      else [[Attr ''ts'' now, Attr ''level'' (level_text l), Attr ''msg'' msg] @ concat (map (members replaceAttr []) as)]) \<and>
   (\<forall>line \<in> set (NewLogger threshold l now msg as). \<forall>a \<in> set line. (\<exists>k v. a = Attr k v) \<longrightarrow> attr_key a \<noteq> ''time'') \<and>
   (k \<noteq> [] \<longrightarrow> members replaceAttr [] (Group k bs) = members (\<lambda>groups a. a) [] (Group k bs))"
proof -
  have l: "NewLogger threshold l now msg as =
     (if l < threshold then []
      else [[Attr ''ts'' now, Attr ''level'' (level_text l), Attr ''msg'' msg] @ concat (map (members replaceAttr []) as)])"
    by (simp add: NewLogger_def replaceAttr_def)
  moreover have "members replaceAttr [] (Group k bs) = members (\<lambda>groups a. a) [] (Group k bs)" if "k \<noteq> []"
    using that members_inside [of "[k]"] by (simp cong: map_cong)
  moreover have "attr_key a \<noteq> ''time''" if "line \<in> set (NewLogger threshold l now msg as)" "a \<in> set line" "\<exists>k v. a = Attr k v"
    for line a
  proof -
    have "a \<in> {Attr ''ts'' now, Attr ''level'' (level_text l), Attr ''msg'' msg} \<or> (\<exists>x \<in> set as. a \<in> set (members replaceAttr [] x))"
      using that(1,2) unfolding l by (auto split: if_splits)
    then show ?thesis using members_no_time that(3) by auto
  qed
  ultimately show ?thesis by blast
qed

theorem log_line_shape_witness:
  "NewLogger LevelInfo LevelDebug ''t'' ''quiet'' [] = [] \<and>
   NewLogger LevelInfo LevelWarn ''t'' ''loud'' [Group ''request'' [Attr ''time'' ''x'']] =
     [[Attr ''ts'' ''t'', Attr ''level'' ''WARN'', Attr ''msg'' ''loud'', Group ''request'' [Attr ''time'' ''x'']]]"
  using log_line_shape [of LevelInfo LevelDebug "''t''" "''quiet''" "[]" "''request''" "[]"]
    log_line_shape [of LevelInfo LevelWarn "''t''" "''loud''" "[Group ''request'' [Attr ''time'' ''x'']]" "''request''" "[Attr ''time'' ''x'']"]
  by (simp add: less_log_level_def)

end
