(* ===== verification/Spec2Isabelle.thy ===== *)
theory Spec2Isabelle
  imports Rollout Flap Interleave Replicas ChaosLoop OperatorMain Logging
begin

text \<open>
  K8s Buddy: a verification library for the Go programs of this repository.

  \<^bold>\<open>The system.\<close> Three programs work on one custom resource, the Plant.
  \<^item> The operator (cmd/plant-operator, internal/controller, api/v1alpha1) admits Plants through two
    webhooks and turns each of them into seven child objects and a status.
  \<^item> The workload (cmd/buddy-api, internal/api, internal/mood, internal/telemetry) is the HTTP server
    that runs in the pods of the Deployment the operator makes; it is configured by the ConfigMap of
    the Plant, probed by the kubelet and scraped by Prometheus.
  \<^item> The chaos injector (cmd/chaos-buddy, internal/chaos) kills a pod of a plant or makes it unready
    from time to time, through the API server and the chaos endpoint of the workload.

  \<^bold>\<open>The theories\<close>, from the bottom up. A definition has the name of the Go function or type it
  models; a suffix or another name is used only where HOL has taken the name.
  \<^item> Prelude: words of the widths of Go's integers, durations, generic lemmas and the two collections
    \<open>builder_defs\<close> and \<open>label_simps\<close>.
  \<^item> GoFloat, GoStd, GoParse: the part of Go and its standard library the programs compute with. float64
    is rounded binary64 arithmetic on rationals; strings, decimal numbers, durations, booleans and
    floats are printed and parsed byte by byte. The round trip of durations is proved for all of them.
  \<^item> Mood (mood.go), WorkWindow (window.go), Telemetry (metrics.go), Logging (logging.go), ApiServer
    (server.go, handlers.go, middleware.go): the workload's server. A handler is a function of the
    server and the response writer; the middleware wraps it in the order of \<^verbatim>\<open>Handler\<close>;
    \<open>step\<close> and \<open>reachable\<close> are the runs of a server, request by request.
  \<^item> Interleave (server.go, metrics.go): the same server as goroutines whose single accesses to the
    flag, the window and the gauges a scheduler interleaves.
  \<^item> BuddyConfig (cmd/buddy-api/main.go): the environment, \<open>loadConfig\<close>, \<open>gracefulShutdown\<close>
    and \<open>run\<close>.
  \<^item> PlantTypes (plant\_types.go), PlantWebhook (plant\_webhook.go), Resources (resources.go), PlantStatus
    (status.go), Children and Reconciler (plant\_controller.go): the operator. The state of the
    reconciler is the world behind its client, the cache of the negative ServiceMonitor probe, and the
    trace of calls, events and log lines; \<open>Reconcile\<close> is the whole handler.
  \<^item> Operator: what one Reconcile does on every branch. Convergence: what many of them do.
  \<^item> WebhookCerts and OperatorMain (webhookcerts.go, main.go and cache.go): the serving certificate, the
    trust bundle and its patches with retries, the order of the steps of main, the cache scope and the
    watches. Replicas (webhookcerts.go): several replicas that patch one configuration at once.
  \<^item> ApiErrors, ChaosEngine (engine.go), ChaosKube (kube.go), ChaosLoop (cmd/chaos-buddy/main.go): the
    injector, from a decision to the poll loop and the process.
  \<^item> Workload: the operator and the workload together. Rollout: from the spec of a Plant through a
    Reconcile to the configuration of its pods. Flap: the injector and the workload together.

  \<^bold>\<open>Interfaces.\<close> What is not in the repository is an argument of the definitions that use it, and a
  locale states its documented behaviour: \<open>prometheus\<close> (the client library), \<open>go_rand\<close> and
  \<open>random_source\<close> (math/rand), \<open>controller_reference\<close> (SetControllerReference),
  \<open>status_conditions\<close> (SetStatusCondition), \<open>conflict_retry\<close> (RetryOnConflict),
  \<open>backoff_loop\<close> (wait.ExponentialBackoff), \<open>pem_library\<close> (PEM, X.509, sort),
  \<open>versioned_store\<close> (the resource versions the API server compares),
  \<open>pod_network\<close> (the HTTP client and encoding/json between the injector and the workload, which
  serves any other requests meanwhile). \<open>plant_operator\<close> joins those of the reconciler, and
  \<open>quiet_cluster\<close> extends it by an API server nobody else writes to, which may still assign
  identities, versions and its own fields and round times, and an informer cache that may lag behind. A
  locale between parts of the model is \<open>bounded_log\<close>, which the ring buffer implements, and
  \<open>trace_property\<close>, which the traces of the reconciler meet. Each of them is interpreted.

  \<^bold>\<open>What is shown.\<close>
  \<^item> The reconciler: a write of a child follows the read of that very object and the ownership check; a
    foreign object is reported and never written; children are handled in the order of the table;
    events come on edges only; the status is written at most five times, with a fresh read after a
    conflict; the handling stops at the first child that fails. One success on a Plant fetched as it is
    stored is enough in a quiet cluster: every child of the Plant is then stored with every field the
    operator promises (\<open>delivers\<close>), nothing else is touched, and all further Reconciles write nothing
    while the cache has caught up and a ServiceMonitor kind that is installed is not remembered as
    missing (\<open>noticed\<close>). With a lagging cache the status may be written again, but no child.
  \<^item> The children: mutating is idempotent, keeps what it does not own, and its selectors isolate plants.
  \<^item> The status: the mood ladder and the percentage equal their exact rational definitions, rounding
    included, and a computed status settles.
  \<^item> The webhooks: defaulting is idempotent, the validator refuses exactly what it should, the registry
    allowlist compares whole hosts, the species cannot change.
  \<^item> The certificates: the bundle is a bounded, deduplicated, newest-first list of what is still valid;
    merging terminates on every input; a manager is started only with a trusted certificate. Replicas
    that patch at once, each with its reads and writes in any order among those of the others, do not
    lose each other's CA while at most three certificates meet in a bundle.
  \<^item> The server: the gauges agree with the readiness flag in every reachable state, the window is the
    last hundred observations, the score is between 0 and 100, a server that shuts down answers 503
    to its probes unless a chaos override says otherwise, whatever is in flight, and every request leaves
    one log line with the status the client got.
  \<^item> The goroutines: operations that do not overlap have the effect of the sequential model; overlapping
    syncs of an unchanged server are harmless; after the shutdown's SetReady the readiness gauge is 0
    under every interleaving in which no stale load is pending, and with one it may stay at 1.
  \<^item> The configuration: accepted exactly when every variable parses and is in range; what the operator
    writes is what the workload reads, whatever else is in the environment of the pod, as far as that
    leaves the port alone: the service link of a Plant named buddy does not. A later change of the latency
    budget or the chaos switch rewrites the ConfigMap but replaces no pod.
  \<^item> The injector: nothing is touched in dry-run, with the kill switch off or unreadable, or outside the
    target namespace; a refusal names the first guard that failed; a flap makes the pod fail its readiness
    probes for as long as nobody else posts a readiness, and restores it, unless it is cut short.

  \<^bold>\<open>Bounds and termination.\<close> Machine integers keep their width and wrap. \<open>keepValid\<close> is a
  \<open>partial_function\<close>, shown total because each decoded block is shorter than its input; for the
  same reason \<open>decode_all\<close> needs no more fuel than the length of its input. A retry runs at most
  five times and a backoff at most its number of steps, ten, as the two libraries document. The poll
  loop is a function of the finite list of the events its select receives; a ticker that cannot be made
  is the panic \<open>None\<close>. Everything else is structural recursion.

  \<^bold>\<open>Not modelled.\<close> The listeners, sockets and timeouts of net/http, the leader election and the
  work queue of controller-runtime, the clientsets, the cryptography, the flag and zap packages, the
  text of a rendered JSON body and of the exposition format, and the headers of a response.
  api/v1alpha1/zz\_generated.deepcopy.go is generated, and a copy of an immutable value is the value.
  Outside Interleave the requests of one server are handled one after the other. In Interleave one
  access is atomic (a mutex, an atomic flag, or the registry's own lock), memory is sequentially
  consistent, as Go's atomics and mutexes are, and the draws of /work from the random generator are left
  out.
\<close>

end
